theory Spec2Isabelle
  imports Main "HOL-Library.Word" "HOL-Library.Monad_Syntax"
begin

unbundle bit_operations_syntax

section \<open>GzipStreamWriter: a shallow embedding\<close>

text \<open>
  The Go package \<^verbatim>\<open>gzipstreamwriter\<close> writes one gzip member made of raw writes, which
  go through a DEFLATE compressor, and of pre-compressed gzip blobs, whose DEFLATE
  payload is copied to the destination while their trailers are folded into the running
  CRC32 and size. Go's \<^verbatim>\<open>byte\<close> is an 8-bit word, \<^verbatim>\<open>uint32\<close> a 32-bit word, and
  \<^verbatim>\<open>int\<close> (lengths and offsets, 64 bits wide) is a HOL integer.
\<close>

type_synonym byte = "8 word"
type_synonym uint16 = "16 word"
type_synonym uint32 = "32 word"

subsection \<open>hash/crc32: the IEEE table and the byte-wise update\<close>

text \<open>
  The standard library's reference implementation: \<^verbatim>\<open>simpleMakeTable\<close> fills entry
  \<^verbatim>\<open>i\<close> with eight rounds of
  \<^verbatim>\<open>if crc&1 == 1 { crc = (crc >> 1) ^ poly } else { crc >>= 1 }\<close>, and
  \<^verbatim>\<open>simpleUpdate\<close> inverts the checksum, runs
  \<^verbatim>\<open>crc = tab[byte(crc)^v] ^ (crc >> 8)\<close> over the bytes, and inverts it again.
\<close>

definition IEEE :: uint32 where
  "IEEE = 0xedb88320"

definition crc_round :: "uint32 \<Rightarrow> uint32" where
  "crc_round crc = (if bit crc 0 then drop_bit 1 crc XOR IEEE else drop_bit 1 crc)"

definition IEEETable :: "byte \<Rightarrow> uint32" where
  "IEEETable i = (crc_round ^^ 8) (ucast i)"

fun crc_loop :: "uint32 \<Rightarrow> byte list \<Rightarrow> uint32" where
  "crc_loop crc [] = crc"
| "crc_loop crc (v # p) = crc_loop (IEEETable (ucast crc XOR v) XOR drop_bit 8 crc) p"

definition crc32_Update :: "uint32 \<Rightarrow> byte list \<Rightarrow> uint32" where
  "crc32_Update crc p = NOT (crc_loop (NOT crc) p)"

definition ChecksumIEEE :: "byte list \<Rightarrow> uint32" where
  "ChecksumIEEE p = crc32_Update 0 p"

subsection \<open>crc32Combine\<close>

text \<open>
  \<^verbatim>\<open>make([]byte, length)\<close> panics when \<^verbatim>\<open>length\<close> is negative: the result is
  \<open>None\<close> there.
\<close>

definition crc32Combine :: "uint32 \<Rightarrow> uint32 \<Rightarrow> int \<Rightarrow> uint32 option" where
  "crc32Combine front back length_arg =
     (if length_arg < 0 then None
      else let zeroes = replicate (nat length_arg) (0 :: byte);
               front' = crc32_Update (0xffffffff XOR front) zeroes XOR 0xffffffff
           in Some (front' XOR back))"

subsection \<open>Slices, encoding/binary and bytes.IndexByte\<close>

text \<open>
  Indexing and slicing panic out of range; the panic is the value \<open>None\<close>. A slice
  expression \<^verbatim>\<open>p[lo:hi]\<close> is checked against the capacity in Go; the model takes the
  capacity to be the length, the case in which the most expressions panic.
\<close>

definition index_at :: "'a list \<Rightarrow> int \<Rightarrow> 'a option" where
  "index_at p i = (if 0 \<le> i \<and> i < int (length p) then Some (p ! nat i) else None)"

definition slice :: "'a list \<Rightarrow> int \<Rightarrow> int \<Rightarrow> 'a list option" where
  "slice p lo hi =
     (if 0 \<le> lo \<and> lo \<le> hi \<and> hi \<le> int (length p)
      then Some (take (nat (hi - lo)) (drop (nat lo) p)) else None)"

definition slice_from :: "'a list \<Rightarrow> int \<Rightarrow> 'a list option" where
  "slice_from p lo = slice p lo (int (length p))"

definition Uint16 :: "byte list \<Rightarrow> uint16 option" where
  "Uint16 b =
     (if length b < 2 then None
      else Some (ucast (b ! 0) OR push_bit 8 (ucast (b ! 1))))"

definition Uint32 :: "byte list \<Rightarrow> uint32 option" where
  "Uint32 b =
     (if length b < 4 then None
      else Some (ucast (b ! 0) OR push_bit 8 (ucast (b ! 1)) OR
                 push_bit 16 (ucast (b ! 2)) OR push_bit 24 (ucast (b ! 3))))"

definition PutUint16 :: "uint16 \<Rightarrow> byte list" where
  "PutUint16 v = [ucast v, ucast (drop_bit 8 v)]"

definition PutUint32 :: "uint32 \<Rightarrow> byte list" where
  "PutUint32 v = [ucast v, ucast (drop_bit 8 v), ucast (drop_bit 16 v), ucast (drop_bit 24 v)]"

text \<open>The index of the first instance of \<open>c\<close> in \<open>b\<close>, or \<open>-1\<close>.\<close>

fun IndexByte :: "byte list \<Rightarrow> byte \<Rightarrow> int" where
  "IndexByte [] c = - 1"
| "IndexByte (x # b) c =
     (if x = c then 0 else (let r = IndexByte b c in if r < 0 then - 1 else r + 1))"

subsection \<open>Constants and errors\<close>

definition gzipID1 :: byte where "gzipID1 = 0x1f"
definition gzipID2 :: byte where "gzipID2 = 0x8b"
definition gzipDeflate :: byte where "gzipDeflate = 8"
definition flagText :: byte where "flagText = push_bit 0 1"
definition flagHdrCrc :: byte where "flagHdrCrc = push_bit 1 1"
definition flagExtra :: byte where "flagExtra = push_bit 2 1"
definition flagName :: byte where "flagName = push_bit 3 1"
definition flagComment :: byte where "flagComment = push_bit 4 1"

definition NoCompression :: int where "NoCompression = 0"
definition BestSpeed :: int where "BestSpeed = 1"
definition BestCompression :: int where "BestCompression = 9"
definition DefaultCompression :: int where "DefaultCompression = - 1"
definition HuffmanOnly :: int where "HuffmanOnly = - 2"

text \<open>
  \<open>IOError\<close> stands for an error value that comes from the destination or from the
  compressor; \<open>Errorf\<close> is \<^verbatim>\<open>fmt.Errorf\<close> wrapping an error with \<^verbatim>\<open>%w\<close>.
\<close>

datatype error =
    ErrBlob
  | ErrHdrNonLatin1
  | ErrHdrExtaDataTooLarge
  | ErrInvalidCompressionLevel
  | IOError nat
  | Errorf string error

subsection \<open>The blob parser\<close>

text \<open>
  \<^verbatim>\<open>getHeaderLength\<close> returns early with \<open>-1\<close> at each failed check. Each of the
  definitions below is the function's text from one flag test to its end, so the first
  one is its last statement. \<open>None\<close> is a panic.
\<close>

definition headerLength_hdrcrc :: "byte list \<Rightarrow> byte \<Rightarrow> int \<Rightarrow> int option" where
  "headerLength_hdrcrc gzBlob flag headerLen =
     (if flag AND flagHdrCrc \<noteq> 0
      then (let headerLen = headerLen + 2
            in if int (length gzBlob) < headerLen then Some (- 1) else Some headerLen)
      else Some headerLen)"

definition headerLength_comment :: "byte list \<Rightarrow> byte \<Rightarrow> int \<Rightarrow> int option" where
  "headerLength_comment gzBlob flag headerLen =
     (if flag AND flagComment \<noteq> 0
      then do {
        rest \<leftarrow> slice_from gzBlob headerLen;
        let endField = IndexByte rest 0;
        if endField < 0 then Some (- 1)
        else (let headerLen = headerLen + endField
              in if int (length gzBlob) < headerLen then Some (- 1)
                 else headerLength_hdrcrc gzBlob flag headerLen)
      }
      else headerLength_hdrcrc gzBlob flag headerLen)"

definition headerLength_name :: "byte list \<Rightarrow> byte \<Rightarrow> int \<Rightarrow> int option" where
  "headerLength_name gzBlob flag headerLen =
     (if flag AND flagName \<noteq> 0
      then do {
        rest \<leftarrow> slice_from gzBlob headerLen;
        let endField = IndexByte rest 0;
        if endField < 0 then Some (- 1)
        else (let headerLen = headerLen + endField
              in if int (length gzBlob) < headerLen then Some (- 1)
                 else headerLength_comment gzBlob flag headerLen)
      }
      else headerLength_comment gzBlob flag headerLen)"

definition headerLength_extra :: "byte list \<Rightarrow> byte \<Rightarrow> int \<Rightarrow> int option" where
  "headerLength_extra gzBlob flag headerLen =
     (if flag AND flagExtra \<noteq> 0
      then (let headerLen = headerLen + 2
            in if int (length gzBlob) < headerLen then Some (- 1)
               else do {
                 field \<leftarrow> slice gzBlob 10 12;
                 extraFieldLength \<leftarrow> Uint16 field;
                 let headerLen = headerLen + uint extraFieldLength;
                 if int (length gzBlob) < headerLen then Some (- 1)
                 else headerLength_name gzBlob flag headerLen
               })
      else headerLength_name gzBlob flag headerLen)"

definition getHeaderLength :: "byte list \<Rightarrow> int option" where
  "getHeaderLength gzBlob =
     (let headerLen = 10
      in if int (length gzBlob) < headerLen then Some (- 1)
         else do {
           b0 \<leftarrow> index_at gzBlob 0;
           if b0 \<noteq> gzipID1 then Some (- 1)
           else do {
             b1 \<leftarrow> index_at gzBlob 1;
             if b1 \<noteq> gzipID2 then Some (- 1)
             else do {
               b2 \<leftarrow> index_at gzBlob 2;
               if b2 \<noteq> gzipDeflate then Some (- 1)
               else do {
                 flag \<leftarrow> index_at gzBlob 3;
                 headerLength_extra gzBlob flag headerLen
               }
             }
           }
         })"

text \<open>The result is the slice and the ok flag; the slice is nil (empty) when not ok.\<close>

definition getDeflateSlice :: "byte list \<Rightarrow> (byte list \<times> bool) option" where
  "getDeflateSlice gzblob = do {
     headerLength \<leftarrow> getHeaderLength gzblob;
     if headerLength < 0 then Some ([], False)
     else if int (length gzblob) < headerLength + 8 then Some ([], False)
     else do {
       content \<leftarrow> slice gzblob headerLength (int (length gzblob) - 8);
       Some (content, True)
     }
   }"

subsection \<open>The destination and the compressor\<close>

text \<open>
  The destination \<^verbatim>\<open>io.Writer\<close> and the \<^verbatim>\<open>flate.Writer\<close> bound to it are outside the
  package. The model keeps the calls they receive, in order, and takes their answers
  from a script: each call consumes the next entry, \<open>None\<close> for success and
  \<open>Some (n, e)\<close> for the error \<open>e\<close> after \<open>n\<close> bytes; an exhausted script means
  success. A successful \<^verbatim>\<open>Write\<close> accepts all its bytes, as the contract of
  \<^verbatim>\<open>io.Writer\<close> demands. The site of a direct write names the statement that made it.
\<close>

datatype site = HeaderField | Payload | Trailer

datatype event =
    SinkWrite site "byte list"
  | FlateReset
  | FlateWrite "byte list"
  | FlateFlush
  | FlateClose

record io_Writer =
  calls :: "event list"
  script :: "(int \<times> error) option list"

definition next_result :: "io_Writer \<Rightarrow> (int \<times> error) option \<times> io_Writer" where
  "next_result s = (case script s of [] \<Rightarrow> (None, s) | r # rs \<Rightarrow> (r, s\<lparr>script := rs\<rparr>))"

definition call :: "event \<Rightarrow> io_Writer \<Rightarrow> (int \<times> error) option \<times> io_Writer" where
  "call ev s = (case next_result s of (r, s') \<Rightarrow> (r, s'\<lparr>calls := calls s' @ [ev]\<rparr>))"

definition w_Write :: "site \<Rightarrow> byte list \<Rightarrow> io_Writer \<Rightarrow> (int \<times> error option) \<times> io_Writer" where
  "w_Write k b s =
     (case call (SinkWrite k b) s of
        (None, s') \<Rightarrow> ((int (length b), None), s')
      | (Some (n, e), s') \<Rightarrow> ((n, Some e), s'))"

text \<open>\<^verbatim>\<open>flate.Writer.Write\<close> returns \<^verbatim>\<open>(len(data), nil)\<close> or \<^verbatim>\<open>(0, err)\<close>.\<close>

definition flate_Write :: "byte list \<Rightarrow> io_Writer \<Rightarrow> (int \<times> error option) \<times> io_Writer" where
  "flate_Write b s =
     (case call (FlateWrite b) s of
        (None, s') \<Rightarrow> ((int (length b), None), s')
      | (Some (n, e), s') \<Rightarrow> ((0, Some e), s'))"

definition flate_Flush :: "io_Writer \<Rightarrow> error option \<times> io_Writer" where
  "flate_Flush s = (case call FlateFlush s of (r, s') \<Rightarrow> (map_option snd r, s'))"

definition flate_Close :: "io_Writer \<Rightarrow> error option \<times> io_Writer" where
  "flate_Close s = (case call FlateClose s of (r, s') \<Rightarrow> (map_option snd r, s'))"

text \<open>\<^verbatim>\<open>flate.Writer.Reset\<close> discards the compressor's state and performs no write.\<close>

definition flate_Reset :: "io_Writer \<Rightarrow> io_Writer" where
  "flate_Reset s = s\<lparr>calls := calls s @ [FlateReset]\<rparr>"

datatype flate_Writer = FlateWriter int

text \<open>\<^verbatim>\<open>flate.NewWriter\<close> returns nil and an error for a level outside \<open>[-2, 9]\<close>.\<close>

definition flate_NewWriter :: "int \<Rightarrow> flate_Writer option" where
  "flate_NewWriter lvl = (if lvl < - 2 \<or> 9 < lvl then None else Some (FlateWriter lvl))"

subsection \<open>The writer\<close>

text \<open>
  \<^verbatim>\<open>gzip.Header\<close> is embedded in the writer. \<open>Name\<close> and \<open>Comment\<close> are the
  sequences of runes that \<^verbatim>\<open>range\<close> yields on the Go strings; \<open>Extra\<close> is \<open>None\<close>
  for a nil slice; \<open>ModTime\<close> is the time in nanoseconds since the Unix epoch, so the
  zero \<^verbatim>\<open>time.Time\<close> (1 January of year 1) is negative.
\<close>

record gzip_Header =
  Comment :: "nat list"
  Extra :: "byte list option"
  ModTime :: int
  Name :: "nat list"
  OS :: byte

record GzipStreamWriter = gzip_Header +
  w :: io_Writer
  compressor :: "flate_Writer option"
  level :: int
  err :: "error option"
  digest :: uint32
  size_u32 :: uint32
  stateFlags :: uint32

definition zero_Time :: int where
  "zero_Time = - 62135596800 * 1000000000"

definition setWroteHeader :: "bool \<Rightarrow> GzipStreamWriter \<Rightarrow> GzipStreamWriter" where
  "setWroteHeader v z =
     (let flag = (if v then 1 else 0)
      in z\<lparr>stateFlags := (stateFlags z AND NOT 0x0001) OR flag\<rparr>)"

definition setClosed :: "bool \<Rightarrow> GzipStreamWriter \<Rightarrow> GzipStreamWriter" where
  "setClosed v z =
     (let flag = (if v then 1 else 0)
      in z\<lparr>stateFlags := (stateFlags z AND NOT 0x0002) OR push_bit 1 flag\<rparr>)"

definition setActiveDeflateStream :: "bool \<Rightarrow> GzipStreamWriter \<Rightarrow> GzipStreamWriter" where
  "setActiveDeflateStream v z =
     (let flag = (if v then 1 else 0)
      in z\<lparr>stateFlags := (stateFlags z AND NOT 0x0004) OR push_bit 2 flag\<rparr>)"

definition checkWroteHeader :: "GzipStreamWriter \<Rightarrow> bool" where
  "checkWroteHeader z = (let flag = stateFlags z AND 0x1 in flag = 1)"

definition checkClosed :: "GzipStreamWriter \<Rightarrow> bool" where
  "checkClosed z = (let flag = drop_bit 1 (stateFlags z AND 0x2) in flag = 1)"

definition checkActiveDeflateStream :: "GzipStreamWriter \<Rightarrow> bool" where
  "checkActiveDeflateStream z = (let flag = drop_bit 2 (stateFlags z AND 0x4) in flag = 1)"

text \<open>\<^verbatim>\<open>init\<close> takes the new destination, the level and the writer it overwrites.\<close>

definition init :: "io_Writer \<Rightarrow> int \<Rightarrow> GzipStreamWriter \<Rightarrow> GzipStreamWriter" where
  "init dst lvl z =
     (let c = compressor z;
          dst' = (if c \<noteq> None then flate_Reset dst else dst)
      in \<lparr>Comment = [], Extra = None, ModTime = zero_Time, Name = [], OS = 255,
          w = dst', compressor = c, level = lvl, err = None, digest = 0, size_u32 = 0,
          stateFlags = 0\<rparr>)"

text \<open>\<^verbatim>\<open>new(GzipStreamWriter)\<close>: every field has its zero value.\<close>

definition new_GzipStreamWriter :: GzipStreamWriter where
  "new_GzipStreamWriter =
     \<lparr>Comment = [], Extra = None, ModTime = zero_Time, Name = [], OS = 0,
      w = \<lparr>calls = [], script = []\<rparr>, compressor = None, level = 0, err = None,
      digest = 0, size_u32 = 0, stateFlags = 0\<rparr>"

definition NewGzipStreamWriterLevel :: "io_Writer \<Rightarrow> int \<Rightarrow> error + GzipStreamWriter" where
  "NewGzipStreamWriterLevel dst lvl =
     (if lvl < HuffmanOnly \<or> lvl > BestCompression
      then Inl (Errorf ''%w: %d'' ErrInvalidCompressionLevel)
      else Inr (init dst lvl new_GzipStreamWriter))"

definition NewGzipStreamWriter :: "io_Writer \<Rightarrow> GzipStreamWriter" where
  "NewGzipStreamWriter dst = init dst DefaultCompression new_GzipStreamWriter"

subsection \<open>The gzip header\<close>

definition writeHeaderBytes :: "byte list \<Rightarrow> GzipStreamWriter \<Rightarrow> error option \<times> GzipStreamWriter" where
  "writeHeaderBytes b z =
     (if length b > 0xffff then (Some ErrHdrExtaDataTooLarge, z)
      else let lengthPrefix = PutUint16 (of_nat (length b))
           in case w_Write HeaderField lengthPrefix (w z) of
                ((n1, Some e1), s1) \<Rightarrow>
                  (Some (Errorf ''gzip: failed to write length prefix: %w'' e1), z\<lparr>w := s1\<rparr>)
              | ((n1, None), s1) \<Rightarrow>
                  (case w_Write HeaderField b s1 of
                     ((n2, Some e2), s2) \<Rightarrow>
                       (Some (Errorf ''gzip: failed to write bytes: %w'' e2), z\<lparr>w := s2\<rparr>)
                   | ((n2, None), s2) \<Rightarrow> (None, z\<lparr>w := s2\<rparr>)))"

text \<open>
  The first loop of \<^verbatim>\<open>writeHeaderString\<close> stops at a rune that is 0 or above 0xff.
  When it finds none, both branches on \<^verbatim>\<open>needconv\<close> write one byte per rune: the
  conversion \<^verbatim>\<open>byte(v)\<close>, or the string's own bytes when every rune is ASCII.
\<close>

fun nonLatin1 :: "nat list \<Rightarrow> bool" where
  "nonLatin1 [] = False"
| "nonLatin1 (v # s) = (if v = 0 \<or> v > 0xff then True else nonLatin1 s)"

definition writeHeaderString :: "nat list \<Rightarrow> GzipStreamWriter \<Rightarrow> error option \<times> GzipStreamWriter" where
  "writeHeaderString s z =
     (if nonLatin1 s then (Some ErrHdrNonLatin1, z)
      else let b = map of_nat s
           in case w_Write HeaderField b (w z) of
                ((n1, Some e1), s1) \<Rightarrow>
                  (Some (Errorf ''gzip: failed to write header string: %w'' e1), z\<lparr>w := s1\<rparr>)
              | ((n1, None), s1) \<Rightarrow>
                  (case w_Write HeaderField [0] s1 of
                     ((n2, Some e2), s2) \<Rightarrow>
                       (Some (Errorf
                          ''gzip: failed to write null terminator for header string: %w'' e2),
                        z\<lparr>w := s2\<rparr>)
                   | ((n2, None), s2) \<Rightarrow> (None, z\<lparr>w := s2\<rparr>)))"

text \<open>The ten fixed bytes that \<^verbatim>\<open>writeHeader\<close> builds in \<^verbatim>\<open>buf\<close>.\<close>

definition header_buf :: "GzipStreamWriter \<Rightarrow> byte list" where
  "header_buf z =
     (let flg = (if Extra z \<noteq> None then 0x04 else 0) OR
                (if Name z \<noteq> [] then 0x08 else 0) OR
                (if Comment z \<noteq> [] then 0x10 else 0);
          mtime = (if ModTime z > 0
                   then PutUint32 (word_of_int (ModTime z div 1000000000))
                   else [0, 0, 0, 0]);
          xfl = (if level z = BestCompression then 2
                 else if level z = BestSpeed then 4 else 0)
      in [gzipID1, gzipID2, gzipDeflate, flg] @ mtime @ [xfl, OS z])"

definition writeHeader :: "GzipStreamWriter \<Rightarrow> (int \<times> error option) \<times> GzipStreamWriter" where
  "writeHeader z0 =
     (let z1 = setWroteHeader True z0
      in case w_Write HeaderField (header_buf z1) (w z1) of
           ((n, e), s) \<Rightarrow>
             (let z2 = z1\<lparr>w := s, err := e\<rparr>
              in if err z2 \<noteq> None then ((n, err z2), z2)
                 else let z3 = (case Extra z2 of None \<Rightarrow> z2
                                | Some b \<Rightarrow> (case writeHeaderBytes b z2 of
                                              (e, z') \<Rightarrow> z'\<lparr>err := e\<rparr>))
                 in if err z3 \<noteq> None then ((n, err z3), z3)
                 else let z4 = (if Name z3 \<noteq> []
                                then (case writeHeaderString (Name z3) z3 of
                                        (e, z') \<Rightarrow> z'\<lparr>err := e\<rparr>)
                                else z3)
                 in if err z4 \<noteq> None then ((n, err z4), z4)
                 else let z5 = (if Comment z4 \<noteq> []
                                then (case writeHeaderString (Comment z4) z4 of
                                        (e, z') \<Rightarrow> z'\<lparr>err := e\<rparr>)
                                else z4)
                 in if err z5 \<noteq> None then ((n, err z5), z5)
                 else let z6 = (if compressor z5 = None
                                then z5\<lparr>compressor := flate_NewWriter (level z5)\<rparr>
                                else z5)
                 in ((n, err z6), z6)))"

subsection \<open>Write, WriteCompressed, Close, Flush, Reset\<close>

text \<open>
  Each operation returns its results and the writer it leaves; \<open>None\<close> is a panic, by
  a nil \<^verbatim>\<open>compressor\<close> or by an index out of range.
\<close>

definition Write :: "byte list \<Rightarrow> GzipStreamWriter \<Rightarrow> ((int \<times> error option) \<times> GzipStreamWriter) option" where
  "Write p z =
     (if err z \<noteq> None then Some ((0, err z), z)
      else case (if \<not> checkWroteHeader z
                 then (case writeHeader z of ((n, e), z') \<Rightarrow> (n, z'\<lparr>err := e\<rparr>))
                 else (0, z)) of
        (n, z1) \<Rightarrow>
          if err z1 \<noteq> None then Some ((n, err z1), z1)
          else let z2 = z1\<lparr>size_u32 := size_u32 z1 + of_nat (length p)\<rparr>;
                   z3 = z2\<lparr>digest := crc32_Update (digest z2) p\<rparr>;
                   z4 = setActiveDeflateStream True z3
               in case compressor z4 of
                    None \<Rightarrow> None
                  | Some c \<Rightarrow>
                      (case flate_Write p (w z4) of
                         ((n', e'), s) \<Rightarrow>
                           (let z5 = z4\<lparr>w := s, err := e'\<rparr>
                            in Some ((n', err z5), z5))))"

text \<open>\<^verbatim>\<open>WriteCompressed\<close> from the length check on, with \<open>n\<close> as the header left it.\<close>

definition WriteCompressed_blob :: "int \<Rightarrow> byte list \<Rightarrow> GzipStreamWriter \<Rightarrow> ((int \<times> error option) \<times> GzipStreamWriter) option" where
  "WriteCompressed_blob n p z =
     (if int (length p) < 18 then Some ((n, Some ErrBlob), z)
      else do {
        t1 \<leftarrow> slice p (int (length p) - 8) (int (length p) - 4);
        trailerChecksum \<leftarrow> Uint32 t1;
        t2 \<leftarrow> slice_from p (int (length p) - 4);
        trailerLength \<leftarrow> Uint32 t2;
        (content, ok) \<leftarrow> getDeflateSlice p;
        if \<not> ok then Some ((n, Some ErrBlob), z)
        else do {
          let z1 = z\<lparr>size_u32 := size_u32 z + trailerLength\<rparr>;
          d \<leftarrow> crc32Combine (digest z1) trailerChecksum (uint trailerLength);
          let z2 = z1\<lparr>digest := d\<rparr>;
          (case w_Write Payload content (w z2) of
             ((n', e), s) \<Rightarrow>
               (let z3 = z2\<lparr>w := s, err := e\<rparr>
                in Some ((n', err z3), z3)))
        }
      })"

definition WriteCompressed :: "byte list \<Rightarrow> GzipStreamWriter \<Rightarrow> ((int \<times> error option) \<times> GzipStreamWriter) option" where
  "WriteCompressed p z =
     (if err z \<noteq> None then Some ((0, err z), z)
      else case writeHeader z of
        ((n, e), z') \<Rightarrow>
          (let z1 = z'\<lparr>err := e\<rparr>
           in if err z1 \<noteq> None then Some ((n, err z1), z1)
              else if checkActiveDeflateStream z1
              then (case compressor z1 of
                      None \<Rightarrow> None
                    | Some c \<Rightarrow>
                        (case flate_Flush (w z1) of
                           (e, s) \<Rightarrow>
                             (let z2 = z1\<lparr>w := s, err := e\<rparr>
                              in if err z2 \<noteq> None then Some ((n, err z2), z2)
                                 else WriteCompressed_blob n p
                                        (setActiveDeflateStream False z2))))
              else WriteCompressed_blob n p z1))"

definition Close :: "GzipStreamWriter \<Rightarrow> (error option \<times> GzipStreamWriter) option" where
  "Close z =
     (if err z \<noteq> None then Some (err z, z)
      else if checkClosed z then Some (None, z)
      else let z1 = setClosed True z
           in case (if \<not> checkWroteHeader z1 then map_option snd (Write [] z1)
                    else Some z1) of
                None \<Rightarrow> None
              | Some z2 \<Rightarrow>
                  if err z2 \<noteq> None then Some (err z2, z2)
                  else (case compressor z2 of
                          None \<Rightarrow> None
                        | Some c \<Rightarrow>
                            (case flate_Close (w z2) of
                               (e, s) \<Rightarrow>
                                 (let z3 = z2\<lparr>w := s, err := e\<rparr>
                                  in if err z3 \<noteq> None then Some (err z3, z3)
                                     else let buf = PutUint32 (digest z3) @ PutUint32 (size_u32 z3)
                                          in case w_Write Trailer buf (w z3) of
                                               ((n, e'), s') \<Rightarrow>
                                                 (let z4 = z3\<lparr>w := s', err := e'\<rparr>
                                                  in Some (err z4, z4))))))"

definition Flush :: "GzipStreamWriter \<Rightarrow> (error option \<times> GzipStreamWriter) option" where
  "Flush z =
     (if err z \<noteq> None then Some (err z, z)
      else if checkClosed z then Some (None, z)
      else case (if \<not> checkWroteHeader z then Write [] z else Some ((0, None), z)) of
             None \<Rightarrow> None
           | Some ((n, e), z1) \<Rightarrow>
               if e \<noteq> None then Some (err z1, z1)
               else (case compressor z1 of
                       None \<Rightarrow> None
                     | Some c \<Rightarrow>
                         (case flate_Flush (w z1) of
                            (e', s) \<Rightarrow>
                              (let z2 = z1\<lparr>w := s, err := e'\<rparr>;
                                   z3 = setActiveDeflateStream False z2
                               in Some (err z3, z3)))))"

definition Reset :: "io_Writer \<Rightarrow> GzipStreamWriter \<Rightarrow> GzipStreamWriter" where
  "Reset dst z =
     (let z1 = init dst (level z) z;
          z2 = setClosed False z1;
          z3 = setWroteHeader False z2
      in setActiveDeflateStream False z3)"

section \<open>Vocabulary of the properties\<close>

text \<open>
  None of the following is code of the package: these are the predicates in which the
  properties below are stated.
\<close>

text \<open>A header length is \<open>-1\<close> or lies between the fixed header and the end of the blob.\<close>

definition header_end :: "byte list \<Rightarrow> int \<Rightarrow> bool" where
  "header_end p r = (r = - 1 \<or> (10 \<le> r \<and> r \<le> int (length p)))"

fun is_header_write :: "event \<Rightarrow> bool" where
  "is_header_write (SinkWrite HeaderField b) = True"
| "is_header_write ev = False"

text \<open>The calls of one header emission: the ten fixed bytes, then the optional fields.\<close>

definition header_events :: "GzipStreamWriter \<Rightarrow> event list \<Rightarrow> bool" where
  "header_events z evs =
     (case evs of [] \<Rightarrow> False
      | ev # rest \<Rightarrow> ev = SinkWrite HeaderField (header_buf z) \<and> list_all is_header_write rest)"

text \<open>
  The header fields that \<^verbatim>\<open>writeHeader\<close> accepts, and the calls of a header emission that
  no write fails: the ten fixed bytes, the length and the bytes of \<open>Extra\<close>, the bytes and
  the terminator of \<open>Name\<close> and of \<open>Comment\<close>.
\<close>

definition encodable :: "GzipStreamWriter \<Rightarrow> bool" where
  "encodable z =
     ((case Extra z of None \<Rightarrow> True | Some b \<Rightarrow> length b \<le> 0xffff) \<and>
      \<not> nonLatin1 (Name z) \<and> \<not> nonLatin1 (Comment z))"

definition header_calls :: "GzipStreamWriter \<Rightarrow> event list" where
  "header_calls z =
     [SinkWrite HeaderField (header_buf z)] @
     (case Extra z of None \<Rightarrow> []
      | Some b \<Rightarrow> [SinkWrite HeaderField (PutUint16 (of_nat (length b))),
                   SinkWrite HeaderField b]) @
     (if Name z \<noteq> []
      then [SinkWrite HeaderField (map of_nat (Name z)), SinkWrite HeaderField [0]] else []) @
     (if Comment z \<noteq> []
      then [SinkWrite HeaderField (map of_nat (Comment z)), SinkWrite HeaderField [0]] else [])"

text \<open>
  \<open>header_ext z z'\<close>: the writer \<open>z'\<close> is \<open>z\<close> after some writes of header fields, with
  nothing changed but the destination and the latched error.
\<close>

definition header_ext :: "GzipStreamWriter \<Rightarrow> GzipStreamWriter \<Rightarrow> bool" where
  "header_ext z z' =
     (z' = z\<lparr>w := w z', err := err z'\<rparr> \<and>
      take (length (calls (w z))) (calls (w z')) = calls (w z) \<and>
      list_all is_header_write (drop (length (calls (w z))) (calls (w z'))))"

text \<open>
  Sequences of calls on a writer. A destination handed to the constructor or to
  \<^verbatim>\<open>Reset\<close> has received no call yet; its script is arbitrary. The header fields are
  exported and can be assigned between any two calls.
\<close>

definition fresh_dest :: "(int \<times> error) option list \<Rightarrow> io_Writer" where
  "fresh_dest scr = \<lparr>calls = [], script = scr\<rparr>"

datatype op =
    OpWrite "byte list"
  | OpWriteCompressed "byte list"
  | OpFlush
  | OpClose
  | OpReset "(int \<times> error) option list"
  | OpSetHeader gzip_Header

fun step :: "op \<Rightarrow> GzipStreamWriter \<Rightarrow> GzipStreamWriter option" where
  "step (OpWrite p) z = map_option snd (Write p z)"
| "step (OpWriteCompressed p) z = map_option snd (WriteCompressed p z)"
| "step OpFlush z = map_option snd (Flush z)"
| "step OpClose z = map_option snd (Close z)"
| "step (OpReset scr) z = Some (Reset (fresh_dest scr) z)"
| "step (OpSetHeader h) z =
     Some (z\<lparr>Comment := Comment h, Extra := Extra h, ModTime := ModTime h,
              Name := Name h, OS := OS h\<rparr>)"

fun run :: "op list \<Rightarrow> GzipStreamWriter \<Rightarrow> GzipStreamWriter option" where
  "run [] z = Some z"
| "run (x # xs) z = (case step x z of None \<Rightarrow> None | Some z' \<Rightarrow> run xs z')"






text \<open>
  The inputs of a stream: a raw payload, or a blob together with the bytes it decompresses
  to. The decompressor is outside the package, and the writer reads nothing of a blob but
  its framing: \<open>gzip_of b d\<close> says that the parser accepts \<open>b\<close> and that \<open>b\<close> ends with
  the trailer RFC 1952 prescribes for the content \<open>d\<close>, its CRC32 and its length modulo
  \<open>2^32\<close>, both little-endian.
\<close>

datatype input = Raw "byte list" | Spliced "byte list" "byte list"

fun input_op :: "input \<Rightarrow> op" where
  "input_op (Raw p) = OpWrite p"
| "input_op (Spliced b d) = OpWriteCompressed b"

fun content :: "input list \<Rightarrow> byte list" where
  "content [] = []"
| "content (Raw p # ins) = p @ content ins"
| "content (Spliced b d # ins) = d @ content ins"

definition gzip_of :: "byte list \<Rightarrow> byte list \<Rightarrow> bool" where
  "gzip_of b d =
     (18 \<le> length b \<and> map_option snd (getDeflateSlice b) = Some True \<and>
      drop (length b - 8) b = PutUint32 (ChecksumIEEE d) @ PutUint32 (of_nat (length d)))"

fun admissible :: "input \<Rightarrow> bool" where
  "admissible (Raw p) = True"
| "admissible (Spliced b d) = (gzip_of b d \<and> length d < 2 ^ 32)"

text \<open>
  Extending a checksum register by \<open>n\<close> zero bytes, which is what \<^verbatim>\<open>crc32Combine\<close> does to
  the front checksum, is a linear map over GF(2). \<open>mapply M\<close> is the linear map whose
  value at the \<open>i\<close>-th unit vector is the \<open>i\<close>-th entry of \<open>M\<close>, and \<open>msquare M\<close> is its
  composition with itself.
\<close>

definition zero_ext :: "nat \<Rightarrow> uint32 \<Rightarrow> uint32" where
  "zero_ext n c = crc_loop c (replicate n 0)"

fun mapply :: "uint32 list \<Rightarrow> uint32 \<Rightarrow> uint32" where
  "mapply [] c = 0"
| "mapply (m # ms) c = (if bit c 0 then m else 0) XOR mapply ms (drop_bit 1 c)"

definition msquare :: "uint32 list \<Rightarrow> uint32 list" where
  "msquare M = map (mapply M) M"

section \<open>The CRC32 combiner\<close>

text \<open>
  One round of the table construction is linear over GF(2), hence so are the table and
  the update loop; combining two checksums rests on nothing else.
\<close>

lemma crc_round_xor: "crc_round (a XOR b) = crc_round a XOR crc_round b"
  by (auto simp add: crc_round_def bit_xor_iff xor.assoc xor.left_commute xor.commute)

lemma crc_rounds_xor: "(crc_round ^^ n) (a XOR b) = (crc_round ^^ n) a XOR (crc_round ^^ n) b"
  by (induction n) (simp_all add: crc_round_xor)

lemma IEEETable_xor: "IEEETable (x XOR y) = IEEETable x XOR IEEETable y"
  by (simp add: IEEETable_def crc_rounds_xor [symmetric] unsigned_xor_eq)

lemma crc_step_xor:
  "IEEETable (ucast (a XOR b) XOR v) XOR drop_bit 8 (a XOR b) =
   (IEEETable (ucast a XOR v) XOR drop_bit 8 a) XOR (IEEETable (ucast b XOR 0) XOR drop_bit 8 b)"
proof -
  have "ucast (a XOR b) XOR v = (ucast a XOR v) XOR (ucast b :: byte)"
    by (simp add: unsigned_xor_eq xor.assoc xor.commute xor.left_commute)
  then show ?thesis
    by (simp add: IEEETable_xor xor.assoc xor.commute xor.left_commute)
qed

lemma crc_loop_xor:
  "crc_loop (a XOR b) p = crc_loop a p XOR crc_loop b (replicate (length p) 0)"
proof (induction p arbitrary: a b)
  case Nil
  then show ?case by simp
next
  case (Cons v p)
  show ?case
    by (simp only: crc_loop.simps length_Cons replicate_Suc crc_step_xor Cons.IH)
qed

lemma crc_loop_append: "crc_loop c (x @ y) = crc_loop (crc_loop c x) y"
  by (induction x arbitrary: c) simp_all

lemma not_as_xor: "NOT (a :: uint32) = a XOR 0xffffffff"
proof -
  have "(0xffffffff :: uint32) = - 1" by simp
  then show ?thesis by (simp only: bit.xor_one_right)
qed

lemma crc32_Update_append: "crc32_Update c (x @ y) = crc32_Update (crc32_Update c x) y"
  by (simp add: crc32_Update_def crc_loop_append)

lemma crc32_Update_Nil: "crc32_Update c [] = c"
  by (simp add: crc32_Update_def)

text \<open>
  Zero-extending the front checksum and XOR-ing the back one: the update of \<open>c\<close> over
  \<open>Y\<close> splits into the update of \<open>c\<close> over as many zero bytes and the checksum of \<open>Y\<close>.
\<close>

lemma crc32Combine_Update:
  "crc32Combine c (ChecksumIEEE Y) (int (length Y)) = Some (crc32_Update c Y)"
proof -
  let ?ones = "0xffffffff :: uint32"
  let ?n = "length Y"
  have cancel: "(?ones XOR c) XOR ?ones = c"
    by (simp add: xor.commute [of _ ?ones] flip: xor.assoc)
  have "crc_loop (c XOR ?ones) Y = crc_loop (?ones XOR c) Y"
    by (simp add: xor.commute)
  also have "\<dots> = crc_loop ?ones Y XOR crc_loop c (replicate ?n 0)"
    by (rule crc_loop_xor)
  finally have split: "crc_loop (c XOR ?ones) Y = crc_loop c (replicate ?n 0) XOR crc_loop ?ones Y"
    by (simp add: xor.commute)
  have "crc32Combine c (ChecksumIEEE Y) (int ?n) =
        Some (((crc_loop ((?ones XOR c) XOR ?ones) (replicate ?n 0) XOR ?ones) XOR ?ones)
              XOR (crc_loop ?ones Y XOR ?ones))"
    by (simp only: crc32Combine_def ChecksumIEEE_def crc32_Update_def not_as_xor Let_def
        nat_int of_nat_less_0_iff if_False xor.right_neutral xor.left_neutral)
  also have "\<dots> = Some ((crc_loop c (replicate ?n 0) XOR crc_loop ?ones Y) XOR ?ones)"
    by (simp only: cancel) (simp add: xor.assoc)
  also have "\<dots> = Some (crc_loop (c XOR ?ones) Y XOR ?ones)"
    by (simp only: split)
  also have "\<dots> = Some (crc32_Update c Y)"
    by (simp only: crc32_Update_def not_as_xor)
  finally show ?thesis .
qed

text \<open>
  Claim C2. For all byte strings \<open>X\<close> and \<open>Y\<close>, \<^verbatim>\<open>crc32Combine\<close> applied to the CRC32
  of \<open>X\<close>, the CRC32 of \<open>Y\<close> and the length of \<open>Y\<close> returns the CRC32 of \<open>X\<close> followed
  by \<open>Y\<close>, where CRC32 is the IEEE checksum with its inversions before and after, as
  the byte-wise update computes it.
\<close>

theorem crc32Combine_concat:
  "crc32Combine (ChecksumIEEE X) (ChecksumIEEE Y) (int (length Y)) = Some (ChecksumIEEE (X @ Y))"
  unfolding ChecksumIEEE_def
  using crc32Combine_Update [of "crc32_Update 0 X" Y]
  by (simp only: ChecksumIEEE_def crc32_Update_append)

section \<open>The state flags\<close>

lemma flag_test: "k < 32 \<Longrightarrow> (drop_bit k ((x::uint32) AND push_bit k 1) = 1) = bit x k"
proof -
  assume k: "k < 32"
  have "drop_bit k (x AND push_bit k 1) = (if bit x k then 1 else 0)"
    using k by (intro bit_eqI) (auto simp add: bit_simps intro: ccontr)
  then show ?thesis by simp
qed

lemma flag_set:
  "k < 32 \<Longrightarrow> bit (((x::uint32) AND NOT (push_bit k 1)) OR push_bit k (if v then 1 else 0)) n
     = (if n = k then v else bit x n)"
  by (auto simp add: bit_simps dest: bit_imp_le_length)

lemma checkWroteHeader_bit: "checkWroteHeader z = bit (stateFlags z) 0"
  using flag_test [of 0 "stateFlags z"] by (simp add: checkWroteHeader_def)

lemma checkClosed_bit: "checkClosed z = bit (stateFlags z) 1"
  using flag_test [of 1 "stateFlags z"] by (simp add: checkClosed_def)

lemma checkActiveDeflateStream_bit: "checkActiveDeflateStream z = bit (stateFlags z) 2"
  using flag_test [of 2 "stateFlags z"] by (simp add: checkActiveDeflateStream_def)

lemma bit_setWroteHeader:
  "bit (stateFlags (setWroteHeader v z)) n = (if n = 0 then v else bit (stateFlags z) n)"
  using flag_set [of 0 "stateFlags z" v n] by (simp add: setWroteHeader_def)

lemma bit_setClosed:
  "bit (stateFlags (setClosed v z)) n = (if n = 1 then v else bit (stateFlags z) n)"
  using flag_set [of 1 "stateFlags z" v n] by (simp add: setClosed_def)

lemma bit_setActiveDeflateStream:
  "bit (stateFlags (setActiveDeflateStream v z)) n = (if n = 2 then v else bit (stateFlags z) n)"
  using flag_set [of 2 "stateFlags z" v n] by (simp add: setActiveDeflateStream_def)

section \<open>The blob parser stays in bounds\<close>

lemma IndexByte_range: "- 1 \<le> IndexByte b c \<and> IndexByte b c < int (length b)"
  by (induction b) (auto simp add: Let_def)

lemma headerLength_hdrcrc_total:
  assumes "10 \<le> h" "h \<le> int (length p)"
  shows "\<exists>r. headerLength_hdrcrc p f h = Some r \<and> header_end p r"
  using assms by (auto simp add: headerLength_hdrcrc_def header_end_def Let_def)

lemma headerLength_comment_total:
  assumes "10 \<le> h" "h \<le> int (length p)"
  shows "\<exists>r. headerLength_comment p f h = Some r \<and> header_end p r"
proof (cases "f AND flagComment \<noteq> 0")
  case False
  then show ?thesis
    using headerLength_hdrcrc_total [OF assms] by (simp add: headerLength_comment_def)
next
  case True
  let ?rest = "drop (nat h) p"
  have rest: "slice_from p h = Some ?rest"
    using assms by (simp add: slice_from_def slice_def)
  have rng: "- 1 \<le> IndexByte ?rest 0" "IndexByte ?rest 0 < int (length ?rest)"
    using IndexByte_range [of ?rest 0] by simp_all
  show ?thesis
  proof (cases "IndexByte ?rest 0 < 0")
    case True
    with \<open>f AND flagComment \<noteq> 0\<close> rest show ?thesis
      by (simp add: headerLength_comment_def header_end_def)
  next
    case False
    let ?h = "h + IndexByte ?rest 0"
    from False rng assms have h': "10 \<le> ?h" "?h \<le> int (length p)"
      by auto
    from headerLength_hdrcrc_total [OF h'] False \<open>f AND flagComment \<noteq> 0\<close> rest h'
    show ?thesis
      by (simp add: headerLength_comment_def Let_def)
  qed
qed

lemma headerLength_name_total:
  assumes "10 \<le> h" "h \<le> int (length p)"
  shows "\<exists>r. headerLength_name p f h = Some r \<and> header_end p r"
proof (cases "f AND flagName \<noteq> 0")
  case False
  then show ?thesis
    using headerLength_comment_total [OF assms] by (simp add: headerLength_name_def)
next
  case True
  let ?rest = "drop (nat h) p"
  have rest: "slice_from p h = Some ?rest"
    using assms by (simp add: slice_from_def slice_def)
  have rng: "- 1 \<le> IndexByte ?rest 0" "IndexByte ?rest 0 < int (length ?rest)"
    using IndexByte_range [of ?rest 0] by simp_all
  show ?thesis
  proof (cases "IndexByte ?rest 0 < 0")
    case True
    with \<open>f AND flagName \<noteq> 0\<close> rest show ?thesis
      by (simp add: headerLength_name_def header_end_def)
  next
    case False
    let ?h = "h + IndexByte ?rest 0"
    from False rng assms have h': "10 \<le> ?h" "?h \<le> int (length p)"
      by auto
    from headerLength_comment_total [OF h'] False \<open>f AND flagName \<noteq> 0\<close> rest h'
    show ?thesis
      by (simp add: headerLength_name_def Let_def)
  qed
qed

lemma headerLength_extra_total:
  assumes "10 \<le> int (length p)"
  shows "\<exists>r. headerLength_extra p f 10 = Some r \<and> header_end p r"
proof (cases "f AND flagExtra \<noteq> 0")
  case False
  then show ?thesis
    using headerLength_name_total [of 10 p f] assms by (simp add: headerLength_extra_def)
next
  case True
  show ?thesis
  proof (cases "int (length p) < 12")
    case True
    with \<open>f AND flagExtra \<noteq> 0\<close> show ?thesis
      by (simp add: headerLength_extra_def header_end_def)
  next
    case False
    let ?field = "take 2 (drop 10 p)"
    have field: "slice p 10 12 = Some ?field"
      using False by (simp add: slice_def)
    have len: "length ?field = 2"
      using False by simp
    then obtain x where x: "Uint16 ?field = Some x"
      by (simp add: Uint16_def)
    show ?thesis
    proof (cases "int (length p) < 12 + uint x")
      case True
      with \<open>f AND flagExtra \<noteq> 0\<close> False field x show ?thesis
        by (simp add: headerLength_extra_def header_end_def)
    next
      case long: False
      have "10 \<le> 12 + uint x" by simp
      from headerLength_name_total [OF this, of p f] long
        \<open>f AND flagExtra \<noteq> 0\<close> False field x
      show ?thesis
        by (simp add: headerLength_extra_def)
    qed
  qed
qed

lemma getHeaderLength_total:
  "\<exists>r. getHeaderLength p = Some r \<and> header_end p r"
proof (cases "int (length p) < 10")
  case True
  then show ?thesis by (simp add: getHeaderLength_def header_end_def)
next
  case False
  then have idx: "index_at p 0 = Some (p ! 0)" "index_at p 1 = Some (p ! 1)"
    "index_at p 2 = Some (p ! 2)" "index_at p 3 = Some (p ! 3)"
    by (auto simp add: index_at_def)
  from False have "10 \<le> int (length p)" by simp
  from headerLength_extra_total [OF this, of "p ! 3"] False idx
  show ?thesis
    by (auto simp add: getHeaderLength_def header_end_def)
qed

lemma getDeflateSlice_total:
  "\<exists>c ok. getDeflateSlice p = Some (c, ok)"
proof -
  obtain r where r: "getHeaderLength p = Some r" "header_end p r"
    using getHeaderLength_total by blast
  then show ?thesis
    by (auto simp add: getDeflateSlice_def header_end_def slice_def)
qed

lemma Uint32_total: "length b = 4 \<Longrightarrow> \<exists>x. Uint32 b = Some x"
  by (simp add: Uint32_def)

lemma crc32Combine_total: "\<exists>d. crc32Combine a b (uint (n :: uint32)) = Some d"
  by (simp add: crc32Combine_def Let_def)

lemma WriteCompressed_blob_total: "\<exists>r. WriteCompressed_blob n p z = Some r"
proof (cases "int (length p) < 18")
  case True
  then show ?thesis by (simp add: WriteCompressed_blob_def)
next
  case False
  let ?l = "int (length p)"
  have s1: "slice p (?l - 8) (?l - 4) = Some (take 4 (drop (nat (?l - 8)) p))"
    using False by (simp add: slice_def)
  have s2: "slice_from p (?l - 4) = Some (take 4 (drop (nat (?l - 4)) p))"
    using False by (simp add: slice_from_def slice_def)
  have "length (take 4 (drop (nat (?l - 8)) p)) = 4" using False by simp
  then obtain c1 where c1: "Uint32 (take 4 (drop (nat (?l - 8)) p)) = Some c1"
    using Uint32_total by blast
  have "length (take 4 (drop (nat (?l - 4)) p)) = 4" using False by simp
  then obtain c2 where c2: "Uint32 (take 4 (drop (nat (?l - 4)) p)) = Some c2"
    using Uint32_total by blast
  obtain c ok where g: "getDeflateSlice p = Some (c, ok)"
    using getDeflateSlice_total by blast
  obtain d where d: "crc32Combine (digest z) c1 (uint c2) = Some d"
    using crc32Combine_total by blast
  show ?thesis
    using False s1 s2 c1 c2 g d
    by (simp add: WriteCompressed_blob_def split: prod.splits)
qed

section \<open>Effects of the calls on the destination\<close>

lemma call_effect: "call ev s = (r, s') \<Longrightarrow> calls s' = calls s @ [ev]"
  by (auto simp add: call_def next_result_def split: list.splits)

lemma w_Write_effect:
  "w_Write k b s = ((n, e), s') \<Longrightarrow> calls s' = calls s @ [SinkWrite k b] \<and> (e = None \<longrightarrow> n = int (length b))"
  by (auto simp add: w_Write_def split: prod.splits option.splits dest: call_effect)

lemma flate_Write_effect:
  "flate_Write b s = ((n, e), s') \<Longrightarrow> calls s' = calls s @ [FlateWrite b] \<and> (e = None \<longrightarrow> n = int (length b))"
  by (auto simp add: flate_Write_def split: prod.splits option.splits dest: call_effect)

lemma flate_Flush_effect: "flate_Flush s = (e, s') \<Longrightarrow> calls s' = calls s @ [FlateFlush]"
  by (auto simp add: flate_Flush_def split: prod.splits dest: call_effect)

lemma flate_Close_effect: "flate_Close s = (e, s') \<Longrightarrow> calls s' = calls s @ [FlateClose]"
  by (auto simp add: flate_Close_def split: prod.splits dest: call_effect)

lemma writeHeaderBytes_effect:
  assumes "writeHeaderBytes b z = (e, z')"
  shows "\<exists>s evs. z' = z\<lparr>w := s\<rparr> \<and> calls s = calls (w z) @ evs \<and> list_all is_header_write evs"
proof (cases "length b > 0xffff")
  case True
  with assms have "z' = z\<lparr>w := w z\<rparr>" by (simp add: writeHeaderBytes_def)
  then show ?thesis by (intro exI [of _ "w z"] exI [of _ "[]"]) simp
next
  case False
  obtain n1 e1 s1 where w1: "w_Write HeaderField (PutUint16 (of_nat (length b))) (w z) = ((n1, e1), s1)"
    by (metis prod.exhaust)
  obtain n2 e2 s2 where w2: "w_Write HeaderField b s1 = ((n2, e2), s2)"
    by (metis prod.exhaust)
  note c1 = w_Write_effect [OF w1] and c2 = w_Write_effect [OF w2]
  show ?thesis
  proof (cases e1)
    case (Some x)
    with assms False w1 have "z' = z\<lparr>w := s1\<rparr>"
      by (simp add: writeHeaderBytes_def Let_def)
    with c1 show ?thesis by (intro exI [of _ s1] exI [of _ "[SinkWrite HeaderField (PutUint16 (of_nat (length b)))]"]) simp
  next
    case None
    with assms False w1 w2 have "z' = z\<lparr>w := s2\<rparr>"
      by (cases e2) (simp_all add: writeHeaderBytes_def Let_def)
    with c1 c2 show ?thesis
      by (intro exI [of _ s2]
          exI [of _ "[SinkWrite HeaderField (PutUint16 (of_nat (length b))), SinkWrite HeaderField b]"]) simp
  qed
qed

lemma writeHeaderString_effect:
  assumes "writeHeaderString str z = (e, z')"
  shows "\<exists>s evs. z' = z\<lparr>w := s\<rparr> \<and> calls s = calls (w z) @ evs \<and> list_all is_header_write evs"
proof (cases "nonLatin1 str")
  case True
  with assms have "z' = z\<lparr>w := w z\<rparr>" by (simp add: writeHeaderString_def)
  then show ?thesis by (intro exI [of _ "w z"] exI [of _ "[]"]) simp
next
  case False
  obtain n1 e1 s1 where w1: "w_Write HeaderField (map of_nat str) (w z) = ((n1, e1), s1)"
    by (metis prod.exhaust)
  obtain n2 e2 s2 where w2: "w_Write HeaderField [0] s1 = ((n2, e2), s2)"
    by (metis prod.exhaust)
  note c1 = w_Write_effect [OF w1] and c2 = w_Write_effect [OF w2]
  show ?thesis
  proof (cases e1)
    case (Some x)
    with assms False w1 have "z' = z\<lparr>w := s1\<rparr>"
      by (simp add: writeHeaderString_def Let_def)
    with c1 show ?thesis by (intro exI [of _ s1] exI [of _ "[SinkWrite HeaderField (map of_nat str)]"]) simp
  next
    case None
    with assms False w1 w2 have "z' = z\<lparr>w := s2\<rparr>"
      by (cases e2) (simp_all add: writeHeaderString_def Let_def)
    with c1 c2 show ?thesis
      by (intro exI [of _ s2]
          exI [of _ "[SinkWrite HeaderField (map of_nat str), SinkWrite HeaderField [0]]"]) simp
  qed
qed

lemma header_extI:
  "z' = z\<lparr>w := s, err := e\<rparr> \<Longrightarrow> calls s = calls (w z) @ evs \<Longrightarrow> list_all is_header_write evs
   \<Longrightarrow> header_ext z z'"
  by (simp add: header_ext_def)

lemma header_extD:
  assumes "header_ext z z'"
  shows "\<exists>s e evs. z' = z\<lparr>w := s, err := e\<rparr> \<and> calls s = calls (w z) @ evs \<and> list_all is_header_write evs"
proof -
  let ?evs = "drop (length (calls (w z))) (calls (w z'))"
  from assms have "take (length (calls (w z))) (calls (w z')) = calls (w z)"
    by (simp add: header_ext_def)
  then have "calls (w z') = calls (w z) @ ?evs"
    using append_take_drop_id [of "length (calls (w z))" "calls (w z')"] by simp
  moreover from assms have "z' = z\<lparr>w := w z', err := err z'\<rparr>" "list_all is_header_write ?evs"
    by (simp_all add: header_ext_def)
  ultimately show ?thesis by blast
qed

lemma header_ext_refl: "header_ext z z"
  by (simp add: header_ext_def)

lemma header_ext_trans:
  assumes "header_ext a b" "header_ext b c"
  shows "header_ext a c"
proof -
  from header_extD [OF assms(1)] obtain s1 e1 evs1 where
    1: "b = a\<lparr>w := s1, err := e1\<rparr>" "calls s1 = calls (w a) @ evs1" "list_all is_header_write evs1"
    by blast
  from header_extD [OF assms(2)] obtain s2 e2 evs2 where
    2: "c = b\<lparr>w := s2, err := e2\<rparr>" "calls s2 = calls (w b) @ evs2" "list_all is_header_write evs2"
    by blast
  have "c = a\<lparr>w := s2, err := e2\<rparr>"
    using 1(1) 2(1) by simp
  moreover have "calls s2 = calls (w a) @ (evs1 @ evs2)"
    using 1 2(2) by simp
  moreover have "list_all is_header_write (evs1 @ evs2)"
    using 1(3) 2(3) by simp
  ultimately show ?thesis by (rule header_extI)
qed

lemma header_ext_err: "header_ext z z' \<Longrightarrow> header_ext z (z'\<lparr>err := e\<rparr>)"
proof -
  assume "header_ext z z'"
  from header_extD [OF this] obtain s1 e1 evs1 where
    1: "z' = z\<lparr>w := s1, err := e1\<rparr>" "calls s1 = calls (w z) @ evs1" "list_all is_header_write evs1"
    by blast
  have "z'\<lparr>err := e\<rparr> = z\<lparr>w := s1, err := e\<rparr>" using 1(1) by simp
  from header_extI [OF this 1(2) 1(3)] show ?thesis .
qed

lemma header_ext_bytes: "header_ext z (case writeHeaderBytes b z of (e, z') \<Rightarrow> z'\<lparr>err := e\<rparr>)"
proof -
  obtain e z' where r: "writeHeaderBytes b z = (e, z')" by (cases "writeHeaderBytes b z")
  from writeHeaderBytes_effect [OF r] obtain s evs where
    "z' = z\<lparr>w := s\<rparr>" "calls s = calls (w z) @ evs" "list_all is_header_write evs" by blast
  then have "header_ext z (z'\<lparr>err := e\<rparr>)"
    by (intro header_extI [where s = s and e = e and evs = evs]) simp_all
  with r show ?thesis by simp
qed

lemma header_ext_string: "header_ext z (case writeHeaderString str z of (e, z') \<Rightarrow> z'\<lparr>err := e\<rparr>)"
proof -
  obtain e z' where r: "writeHeaderString str z = (e, z')" by (cases "writeHeaderString str z")
  from writeHeaderString_effect [OF r] obtain s evs where
    "z' = z\<lparr>w := s\<rparr>" "calls s = calls (w z) @ evs" "list_all is_header_write evs" by blast
  then have "header_ext z (z'\<lparr>err := e\<rparr>)"
    by (intro header_extI [where s = s and e = e and evs = evs]) simp_all
  with r show ?thesis by simp
qed

lemma length_header_buf: "length (header_buf z) = 10"
  by (simp add: header_buf_def PutUint32_def Let_def)

lemma header_buf_setWroteHeader: "header_buf (setWroteHeader v z) = header_buf z"
  by (simp add: header_buf_def setWroteHeader_def Let_def)

lemma header_ext_fields:
  assumes "header_ext z z'"
  shows "digest z' = digest z" "size_u32 z' = size_u32 z" "level z' = level z"
    "stateFlags z' = stateFlags z" "compressor z' = compressor z"
    "Extra z' = Extra z" "Name z' = Name z" "Comment z' = Comment z"
    "ModTime z' = ModTime z" "OS z' = OS z"
proof -
  from header_extD [OF assms] obtain s e evs where "z' = z\<lparr>w := s, err := e\<rparr>" by blast
  then show "digest z' = digest z" "size_u32 z' = size_u32 z" "level z' = level z"
    "stateFlags z' = stateFlags z" "compressor z' = compressor z"
    "Extra z' = Extra z" "Name z' = Name z" "Comment z' = Comment z"
    "ModTime z' = ModTime z" "OS z' = OS z"
    by simp_all
qed

lemma writeHeader_effect:
  assumes "writeHeader z = ((n, e), z')"
  shows "\<exists>zz evs. header_ext (setWroteHeader True z) zz \<and> err zz = e \<and>
           z' = zz\<lparr>compressor := (if e = None \<and> compressor z = None
                                    then flate_NewWriter (level z) else compressor z)\<rparr> \<and>
           calls (w zz) = calls (w z) @ SinkWrite HeaderField (header_buf z) # evs \<and>
           list_all is_header_write evs \<and>
           (e = None \<longrightarrow> n = 10)"
proof -
  define z1 where "z1 = setWroteHeader True z"
  obtain n0 e0 s0 where w0: "w_Write HeaderField (header_buf z1) (w z1) = ((n0, e0), s0)"
    by (metis prod.exhaust)
  define z2 where "z2 = z1\<lparr>w := s0, err := e0\<rparr>"
  define z3 where "z3 = (case Extra z2 of None \<Rightarrow> z2
                         | Some b \<Rightarrow> (case writeHeaderBytes b z2 of (e, z') \<Rightarrow> z'\<lparr>err := e\<rparr>))"
  define z4 where "z4 = (if Name z3 \<noteq> []
                         then (case writeHeaderString (Name z3) z3 of (e, z') \<Rightarrow> z'\<lparr>err := e\<rparr>)
                         else z3)"
  define z5 where "z5 = (if Comment z4 \<noteq> []
                         then (case writeHeaderString (Comment z4) z4 of (e, z') \<Rightarrow> z'\<lparr>err := e\<rparr>)
                         else z4)"
  define z6 where "z6 = (if compressor z5 = None
                         then z5\<lparr>compressor := flate_NewWriter (level z5)\<rparr> else z5)"
  have "writeHeader z =
      (if err z2 \<noteq> None then ((n0, err z2), z2)
       else if err z3 \<noteq> None then ((n0, err z3), z3)
       else if err z4 \<noteq> None then ((n0, err z4), z4)
       else if err z5 \<noteq> None then ((n0, err z5), z5)
       else ((n0, err z6), z6))"
    using w0 unfolding z6_def z5_def z4_def z3_def z2_def z1_def writeHeader_def Let_def
    by simp
  with assms have res: "((n, e), z') =
      (if err z2 \<noteq> None then ((n0, err z2), z2)
       else if err z3 \<noteq> None then ((n0, err z3), z3)
       else if err z4 \<noteq> None then ((n0, err z4), z4)
       else if err z5 \<noteq> None then ((n0, err z5), z5)
       else ((n0, err z6), z6))"
    by simp
  have c0: "calls s0 = calls (w z) @ [SinkWrite HeaderField (header_buf z)]"
    and n0: "e0 = None \<longrightarrow> n0 = 10"
  proof -
    have "w z1 = w z" by (simp add: z1_def setWroteHeader_def Let_def)
    moreover have "header_buf z1 = header_buf z" by (simp add: z1_def header_buf_setWroteHeader)
    ultimately show "calls s0 = calls (w z) @ [SinkWrite HeaderField (header_buf z)]"
      and "e0 = None \<longrightarrow> n0 = 10"
      using w_Write_effect [OF w0] by (simp_all add: length_header_buf)
  qed
  have w1: "calls (w z1) = calls (w z)"
    by (simp add: z1_def setWroteHeader_def Let_def)
  have e12: "header_ext z1 z2"
    using c0 w1 by (intro header_extI [where s = s0 and e = e0
        and evs = "[SinkWrite HeaderField (header_buf z)]"]) (simp_all add: z2_def)
  have e23: "header_ext z2 z3"
    unfolding z3_def by (cases "Extra z2") (simp_all add: header_ext_refl header_ext_bytes)
  have e34: "header_ext z3 z4"
    unfolding z4_def by (simp add: header_ext_refl header_ext_string)
  have e45: "header_ext z4 z5"
    unfolding z5_def by (simp add: header_ext_refl header_ext_string)
  note e13 = header_ext_trans [OF e12 e23]
  note e14 = header_ext_trans [OF e13 e34]
  note e15 = header_ext_trans [OF e14 e45]
  have grow: "\<exists>evs. calls (w zz) = calls (w z) @ SinkWrite HeaderField (header_buf z) # evs \<and>
           list_all is_header_write evs" if "header_ext z2 zz" for zz
  proof -
    from header_extD [OF that] obtain s e evs where
      "zz = z2\<lparr>w := s, err := e\<rparr>" "calls s = calls (w z2) @ evs" "list_all is_header_write evs"
      by blast
    then show ?thesis using c0 by (simp add: z2_def)
  qed
  have comp: "compressor zz = compressor z" "level zz = level z" if "header_ext z1 zz" for zz
    using header_ext_fields [OF that] by (simp_all add: z1_def setWroteHeader_def Let_def)
  have same: "zz = zz\<lparr>compressor := compressor z\<rparr>" if "header_ext z1 zz" for zz
    using comp(1) [OF that, symmetric] by simp
  have en: "err z2 = e0" by (simp add: z2_def)
  consider (a) "err z2 \<noteq> None" | (b) "err z2 = None" "err z3 \<noteq> None"
    | (c) "err z2 = None" "err z3 = None" "err z4 \<noteq> None"
    | (d) "err z2 = None" "err z3 = None" "err z4 = None" "err z5 \<noteq> None"
    | (e) "err z2 = None" "err z3 = None" "err z4 = None" "err z5 = None"
    by blast
  then show ?thesis
  proof cases
    case a
    with res have "n = n0" "e = err z2" "z' = z2" by simp_all
    with a e12 grow [OF header_ext_refl] same [OF e12] show ?thesis
      unfolding z1_def by (intro exI [of _ z2]) auto
  next
    case b
    with res have "n = n0" "e = err z3" "z' = z3" by simp_all
    with b e13 grow [OF e23] same [OF e13] show ?thesis
      unfolding z1_def by (intro exI [of _ z3]) auto
  next
    case c
    with res have "n = n0" "e = err z4" "z' = z4" by simp_all
    with c e14 grow [OF header_ext_trans [OF e23 e34]] same [OF e14] show ?thesis
      unfolding z1_def by (intro exI [of _ z4]) auto
  next
    case d
    with res have "n = n0" "e = err z5" "z' = z5" by simp_all
    with d e15 grow [OF header_ext_trans [OF header_ext_trans [OF e23 e34] e45]] same [OF e15]
    show ?thesis
      unfolding z1_def by (intro exI [of _ z5]) auto
  next
    case e
    with res have r: "n = n0" "e = err z6" "z' = z6" by simp_all
    have e6: "err z6 = None" using e by (simp add: z6_def)
    have "z6 = z5\<lparr>compressor := (if compressor z = None then flate_NewWriter (level z)
                                   else compressor z)\<rparr>"
      using comp [OF e15] same [OF e15] by (simp add: z6_def)
    with r e e6 e15 en n0 grow [OF header_ext_trans [OF header_ext_trans [OF e23 e34] e45]]
    show ?thesis
      unfolding z1_def by (intro exI [of _ z5]) auto
  qed
qed

section \<open>What each operation does\<close>

text \<open>
  One lemma per operation lists the ways it can end, with the writer it leaves as a
  record update of the writer it started from and the calls it added to the destination.
\<close>

lemma setWroteHeader_fields:
  "setWroteHeader v z = z\<lparr>stateFlags := stateFlags (setWroteHeader v z)\<rparr>"
  by (simp add: setWroteHeader_def Let_def)

lemma setClosed_fields:
  "setClosed v z = z\<lparr>stateFlags := stateFlags (setClosed v z)\<rparr>"
  by (simp add: setClosed_def Let_def)

lemma setActiveDeflateStream_fields:
  "setActiveDeflateStream v z = z\<lparr>stateFlags := stateFlags (setActiveDeflateStream v z)\<rparr>"
  by (simp add: setActiveDeflateStream_def Let_def)

lemma stateFlags_setWroteHeader_idem:
  "checkWroteHeader z \<Longrightarrow> stateFlags (setWroteHeader True z) = stateFlags z"
  by (rule bit_eqI) (simp add: bit_setWroteHeader checkWroteHeader_bit)

lemma stateFlags_setActiveDeflateStream_idem:
  "\<not> checkActiveDeflateStream z \<Longrightarrow> stateFlags (setActiveDeflateStream False z) = stateFlags z"
  by (rule bit_eqI) (simp add: bit_setActiveDeflateStream checkActiveDeflateStream_bit)

lemma writeHeader_result:
  assumes "writeHeader z = ((n, e), z')"
  obtains s hdr where
    "z' = z\<lparr>w := s,
             compressor := (if e = None \<and> compressor z = None
                            then flate_NewWriter (level z) else compressor z),
             err := e, stateFlags := stateFlags (setWroteHeader True z)\<rparr>"
    "calls s = calls (w z) @ hdr" "header_events z hdr" "e = None \<longrightarrow> n = 10"
proof -
  from writeHeader_effect [OF assms] obtain zz evs where
    zz: "header_ext (setWroteHeader True z) zz" "err zz = e"
      "z' = zz\<lparr>compressor := (if e = None \<and> compressor z = None
                                then flate_NewWriter (level z) else compressor z)\<rparr>"
      "calls (w zz) = calls (w z) @ SinkWrite HeaderField (header_buf z) # evs"
      "list_all is_header_write evs" "e = None \<longrightarrow> n = 10"
    by (elim exE conjE) (rule that)
  from header_extD [OF zz(1)] obtain s e' evs' where
    s: "zz = (setWroteHeader True z)\<lparr>w := s, err := e'\<rparr>" by blast
  from s zz(2) have "e' = e" by simp
  with s have zz': "zz = z\<lparr>w := s, err := e, stateFlags := stateFlags (setWroteHeader True z)\<rparr>"
    by (subst (asm) setWroteHeader_fields) simp
  have ws: "w zz = s" by (subst zz') simp
  show thesis
  proof (rule that [of s "SinkWrite HeaderField (header_buf z) # evs"])
    show "z' = z\<lparr>w := s,
             compressor := (if e = None \<and> compressor z = None
                            then flate_NewWriter (level z) else compressor z),
             err := e, stateFlags := stateFlags (setWroteHeader True z)\<rparr>"
      by (subst zz(3), subst zz') simp
    show "calls s = calls (w z) @ SinkWrite HeaderField (header_buf z) # evs"
      using zz(4) ws by simp
    show "header_events z (SinkWrite HeaderField (header_buf z) # evs)"
      using zz(5) by (simp add: header_events_def)
    show "e = None \<longrightarrow> n = 10" by (rule zz(6))
  qed
qed

lemma stateFlags_setActive_cong:
  "stateFlags a = stateFlags b \<Longrightarrow>
   stateFlags (setActiveDeflateStream v a) = stateFlags (setActiveDeflateStream v b)"
  by (simp add: setActiveDeflateStream_def Let_def)

lemma stateFlags_setActiveDeflateStream_upd:
  "stateFlags (setActiveDeflateStream v (z\<lparr>w := s, compressor := c, err := e, stateFlags := f\<rparr>))
   = stateFlags (setActiveDeflateStream v (z\<lparr>stateFlags := f\<rparr>))"
  by (simp add: setActiveDeflateStream_def Let_def)

lemma setWroteHeader_proj:
  "w (setWroteHeader v a) = w a" "compressor (setWroteHeader v a) = compressor a"
  "err (setWroteHeader v a) = err a" "digest (setWroteHeader v a) = digest a"
  "size_u32 (setWroteHeader v a) = size_u32 a" "level (setWroteHeader v a) = level a"
  by (simp_all add: setWroteHeader_def Let_def)

lemma setClosed_proj:
  "w (setClosed v a) = w a" "compressor (setClosed v a) = compressor a"
  "err (setClosed v a) = err a" "digest (setClosed v a) = digest a"
  "size_u32 (setClosed v a) = size_u32 a" "level (setClosed v a) = level a"
  by (simp_all add: setClosed_def Let_def)

lemma setActiveDeflateStream_proj:
  "w (setActiveDeflateStream v a) = w a" "compressor (setActiveDeflateStream v a) = compressor a"
  "err (setActiveDeflateStream v a) = err a" "digest (setActiveDeflateStream v a) = digest a"
  "size_u32 (setActiveDeflateStream v a) = size_u32 a" "level (setActiveDeflateStream v a) = level a"
  by (simp_all add: setActiveDeflateStream_def Let_def)

lemma Write_cases:
  assumes "err z = None" "Write p z = Some ((n, e), z')"
  obtains (header_failed) s hdr where
      "\<not> checkWroteHeader z" "e \<noteq> None"
      "z' = z\<lparr>w := s, err := e, stateFlags := stateFlags (setWroteHeader True z)\<rparr>"
      "calls s = calls (w z) @ hdr" "header_events z hdr"
  | (written) s hdr c where
      "z' = z\<lparr>w := s, compressor := Some c, err := e, digest := crc32_Update (digest z) p,
              size_u32 := size_u32 z + of_nat (length p),
              stateFlags := stateFlags (setActiveDeflateStream True (setWroteHeader True z))\<rparr>"
      "calls s = calls (w z) @ hdr @ [FlateWrite p]"
      "if checkWroteHeader z then hdr = [] else header_events z hdr"
      "e = None \<longrightarrow> n = int (length p)"
proof (cases "checkWroteHeader z")
  case True
  let ?z4 = "setActiveDeflateStream True
      (z\<lparr>size_u32 := size_u32 z + of_nat (length p), digest := crc32_Update (digest z) p\<rparr>)"
  have c4: "compressor ?z4 = compressor z" "w ?z4 = w z"
    by (simp_all add: setActiveDeflateStream_def Let_def)
  from assms True obtain c where c: "compressor z = Some c"
    by (cases "compressor z") (simp_all add: Write_def Let_def setActiveDeflateStream_proj)
  obtain n' e' s where fw: "flate_Write p (w z) = ((n', e'), s)"
    by (metis prod.exhaust)
  from assms True c fw have r: "n = n'" "e = e'" "z' = ?z4\<lparr>w := s, err := e'\<rparr>"
    by (auto simp add: Write_def Let_def setActiveDeflateStream_proj)
  have fl: "stateFlags ?z4 = stateFlags (setActiveDeflateStream True (setWroteHeader True z))"
    by (simp add: setActiveDeflateStream_def Let_def stateFlags_setWroteHeader_idem [OF True])
  show ?thesis
  proof (rule written [where s = s and c = c and hdr = "[]"])
    show "z' = z\<lparr>w := s, compressor := Some c, err := e, digest := crc32_Update (digest z) p,
              size_u32 := size_u32 z + of_nat (length p),
              stateFlags := stateFlags (setActiveDeflateStream True (setWroteHeader True z))\<rparr>"
      unfolding r fl [symmetric] using c
      by (subst setActiveDeflateStream_fields) (simp add: c [symmetric])
    show "calls s = calls (w z) @ [] @ [FlateWrite p]"
      using flate_Write_effect [OF fw] by simp
    show "if checkWroteHeader z then [] = [] else header_events z []"
      using True by simp
    show "e = None \<longrightarrow> n = int (length p)"
      using flate_Write_effect [OF fw] r by simp
  qed
next
  case False
  obtain n0 e0 zh where wh: "writeHeader z = ((n0, e0), zh)"
    by (metis prod.exhaust)
  from writeHeader_result [OF wh] obtain s0 hdr where
    zh: "zh = z\<lparr>w := s0,
             compressor := (if e0 = None \<and> compressor z = None
                            then flate_NewWriter (level z) else compressor z),
             err := e0, stateFlags := stateFlags (setWroteHeader True z)\<rparr>"
    and h: "calls s0 = calls (w z) @ hdr" "header_events z hdr" "e0 = None \<longrightarrow> n0 = 10"
    by blast
  have ezh: "err zh = e0" by (subst zh) simp
  show ?thesis
  proof (cases e0)
    case (Some x)
    with assms False wh ezh have r: "n = n0" "e = e0" "z' = zh"
      by (auto simp add: Write_def Let_def)
    show ?thesis
    proof (rule header_failed [where s = s0 and hdr = hdr])
      show "z' = z\<lparr>w := s0, err := e, stateFlags := stateFlags (setWroteHeader True z)\<rparr>"
        unfolding r by (subst zh) (simp add: Some)
    qed (use False Some r h in simp_all)
  next
    case None
    let ?z4 = "setActiveDeflateStream True
      (zh\<lparr>size_u32 := size_u32 zh + of_nat (length p), digest := crc32_Update (digest zh) p\<rparr>)"
    have c4: "compressor ?z4 = compressor zh" "w ?z4 = w zh"
      by (simp_all add: setActiveDeflateStream_def Let_def)
    have zhe: "zh\<lparr>err := None\<rparr> = zh" using ezh None by simp
    from assms False wh None ezh obtain c where c: "compressor zh = Some c"
      by (cases "compressor zh") (simp_all add: Write_def Let_def setActiveDeflateStream_proj zhe)
    have wzh: "w zh = s0" "digest zh = digest z" "size_u32 zh = size_u32 z"
      by (subst zh, simp)+
    obtain n' e' s where fw: "flate_Write p s0 = ((n', e'), s)"
      by (metis prod.exhaust)
    from assms False wh None ezh c fw wzh have r: "n = n'" "e = e'" "z' = ?z4\<lparr>w := s, err := e'\<rparr>"
      by (auto simp add: Write_def Let_def setActiveDeflateStream_proj zhe)
    have "compressor zh = (if e0 = None \<and> compressor z = None
                            then flate_NewWriter (level z) else compressor z)"
      by (subst zh) simp
    with c have "(if e0 = None \<and> compressor z = None
                  then flate_NewWriter (level z) else compressor z) = Some c"
      by simp
    then have zh': "zh = z\<lparr>w := s0, compressor := Some c, err := None,
                           stateFlags := stateFlags (setWroteHeader True z)\<rparr>"
      using None by (subst zh) simp
    show ?thesis
    proof (rule written [where s = s and c = c and hdr = hdr])
      show "z' = z\<lparr>w := s, compressor := Some c, err := e, digest := crc32_Update (digest z) p,
              size_u32 := size_u32 z + of_nat (length p),
              stateFlags := stateFlags (setActiveDeflateStream True (setWroteHeader True z))\<rparr>"
        unfolding r zh' by (simp add: setActiveDeflateStream_def Let_def)
      show "calls s = calls (w z) @ hdr @ [FlateWrite p]"
        using flate_Write_effect [OF fw] h by simp
      show "if checkWroteHeader z then hdr = [] else header_events z hdr"
        using False h by simp
      show "e = None \<longrightarrow> n = int (length p)"
        using flate_Write_effect [OF fw] r by simp
    qed
  qed
qed

lemma WriteCompressed_blob_cases:
  assumes "WriteCompressed_blob n p z = Some ((n', e), z')"
  obtains (rejected) "e = Some ErrBlob" "z' = z" "n' = n"
      "int (length p) < 18 \<or> (\<exists>c. getDeflateSlice p = Some (c, False))"
  | (spliced) content tc tl d s where
      "18 \<le> int (length p)" "getDeflateSlice p = Some (content, True)"
      "Uint32 (take 4 (drop (length p - 8) p)) = Some tc"
      "Uint32 (take 4 (drop (length p - 4) p)) = Some tl"
      "crc32Combine (digest z) tc (uint tl) = Some d"
      "z' = z\<lparr>w := s, err := e, digest := d, size_u32 := size_u32 z + tl\<rparr>"
      "calls s = calls (w z) @ [SinkWrite Payload content]"
      "e = None \<longrightarrow> n' = int (length content)"
proof (cases "int (length p) < 18")
  case True
  with assms show ?thesis by (intro rejected) (auto simp add: WriteCompressed_blob_def)
next
  case False
  let ?l = "int (length p)"
  have s1: "slice p (?l - 8) (?l - 4) = Some (take 4 (drop (length p - 8) p))"
    using False by (simp add: slice_def nat_diff_distrib)
  have s2: "slice_from p (?l - 4) = Some (take 4 (drop (length p - 4) p))"
    using False by (simp add: slice_from_def slice_def nat_diff_distrib)
  have "length (take 4 (drop (length p - 8) p)) = 4" using False by simp
  then obtain tc where tc: "Uint32 (take 4 (drop (length p - 8) p)) = Some tc"
    using Uint32_total by blast
  have "length (take 4 (drop (length p - 4) p)) = 4" using False by simp
  then obtain tl where tl: "Uint32 (take 4 (drop (length p - 4) p)) = Some tl"
    using Uint32_total by blast
  obtain content ok where g: "getDeflateSlice p = Some (content, ok)"
    using getDeflateSlice_total by blast
  obtain d where d: "crc32Combine (digest z) tc (uint tl) = Some d"
    using crc32Combine_total by blast
  show ?thesis
  proof (cases ok)
    case False
    with assms \<open>\<not> ?l < 18\<close> s1 s2 tc tl g show ?thesis
      by (intro rejected) (auto simp add: WriteCompressed_blob_def)
  next
    case True
    obtain n2 e2 s where ww: "w_Write Payload content (w z) = ((n2, e2), s)"
      by (metis prod.exhaust)
    from assms \<open>\<not> ?l < 18\<close> s1 s2 tc tl g d True ww
    have r: "n' = n2" "e = e2" "z' = z\<lparr>size_u32 := size_u32 z + tl, digest := d, w := s, err := e2\<rparr>"
      by (auto simp add: WriteCompressed_blob_def Let_def)
    show ?thesis
    proof (rule spliced [where content = content and tc = tc and tl = tl and d = d and s = s])
      show "z' = z\<lparr>w := s, err := e, digest := d, size_u32 := size_u32 z + tl\<rparr>"
        unfolding r by simp
    qed (use False True g tc tl d r w_Write_effect [OF ww] in simp_all)
  qed
qed

lemma checkActive_setWroteHeader:
  "checkActiveDeflateStream (setWroteHeader v z) = checkActiveDeflateStream z"
  by (simp add: checkActiveDeflateStream_bit bit_setWroteHeader)

lemma WriteCompressed_cases:
  assumes "err z = None" "WriteCompressed p z = Some ((n, e), z')"
  obtains (header_failed) s hdr where
      "e \<noteq> None"
      "z' = z\<lparr>w := s, err := e, stateFlags := stateFlags (setWroteHeader True z)\<rparr>"
      "calls s = calls (w z) @ hdr" "header_events z hdr"
  | (flush_failed) s hdr c where
      "checkActiveDeflateStream z" "e \<noteq> None"
      "z' = z\<lparr>w := s, compressor := Some c, err := e,
               stateFlags := stateFlags (setWroteHeader True z)\<rparr>"
      "calls s = calls (w z) @ hdr @ [FlateFlush]" "header_events z hdr"
  | (rejected) s hdr where
      "e = Some ErrBlob" "n = 10"
      "int (length p) < 18 \<or> (\<exists>c. getDeflateSlice p = Some (c, False))"
      "z' = z\<lparr>w := s,
               compressor := (if compressor z = None then flate_NewWriter (level z)
                              else compressor z),
               err := None,
               stateFlags := stateFlags (setActiveDeflateStream False (setWroteHeader True z))\<rparr>"
      "calls s = calls (w z) @ hdr @ (if checkActiveDeflateStream z then [FlateFlush] else [])"
      "header_events z hdr"
  | (spliced) s hdr content tc tl d where
      "18 \<le> int (length p)" "getDeflateSlice p = Some (content, True)"
      "Uint32 (take 4 (drop (length p - 8) p)) = Some tc"
      "Uint32 (take 4 (drop (length p - 4) p)) = Some tl"
      "crc32Combine (digest z) tc (uint tl) = Some d"
      "z' = z\<lparr>w := s,
               compressor := (if compressor z = None then flate_NewWriter (level z)
                              else compressor z),
               err := e, digest := d, size_u32 := size_u32 z + tl,
               stateFlags := stateFlags (setActiveDeflateStream False (setWroteHeader True z))\<rparr>"
      "calls s = calls (w z) @ hdr @ (if checkActiveDeflateStream z then [FlateFlush] else [])
                 @ [SinkWrite Payload content]"
      "header_events z hdr" "e = None \<longrightarrow> n = int (length content)"
proof -
  let ?SFH = "stateFlags (setWroteHeader True z)"
  let ?SFA = "stateFlags (setActiveDeflateStream False (setWroteHeader True z))"
  let ?cmp = "if compressor z = None then flate_NewWriter (level z) else compressor z"
  obtain n0 e0 zh where wh: "writeHeader z = ((n0, e0), zh)"
    by (metis prod.exhaust)
  from writeHeader_result [OF wh] obtain s0 hdr where
    zh: "zh = z\<lparr>w := s0,
             compressor := (if e0 = None \<and> compressor z = None
                            then flate_NewWriter (level z) else compressor z),
             err := e0, stateFlags := ?SFH\<rparr>"
    and h: "calls s0 = calls (w z) @ hdr" "header_events z hdr" "e0 = None \<longrightarrow> n0 = 10"
    by blast
  show ?thesis
  proof (cases e0)
    case (Some x)
    have "zh = z\<lparr>w := s0, err := e0, stateFlags := ?SFH\<rparr>"
      using Some by (subst zh) simp
    moreover from this assms wh Some have "n = n0" "e = e0" "z' = zh"
      by (auto simp add: WriteCompressed_def Let_def)
    ultimately show ?thesis
      using Some h by (intro header_failed [where s = s0 and hdr = hdr]) simp_all
  next
    case None
    have zh': "zh = z\<lparr>w := s0, compressor := ?cmp, err := None, stateFlags := ?SFH\<rparr>"
      using None by (subst zh) simp
    have n0: "n0 = 10" using h None by simp
    have act: "checkActiveDeflateStream zh = checkActiveDeflateStream z"
      unfolding zh' by (simp add: checkActiveDeflateStream_bit bit_setWroteHeader)
    have proj: "err zh = None" "compressor zh = ?cmp" "w zh = s0" "zh\<lparr>err := None\<rparr> = zh"
      unfolding zh' by simp_all
    show ?thesis
    proof (cases "checkActiveDeflateStream z")
      case False
      have idem: "?SFA = ?SFH"
        using False by (intro stateFlags_setActiveDeflateStream_idem)
          (simp add: checkActive_setWroteHeader)
      from assms wh None proj act False n0
      have blob: "WriteCompressed_blob 10 p zh = Some ((n, e), z')"
        by (simp add: WriteCompressed_def Let_def)
      from blob show ?thesis
      proof (cases rule: WriteCompressed_blob_cases)
        case rejected
        show ?thesis
        proof (rule that(3) [where s = s0 and hdr = hdr])
          show "z' = z\<lparr>w := s0, compressor := ?cmp, err := None, stateFlags := ?SFA\<rparr>"
            unfolding rejected(2) idem by (rule zh')
        qed (use rejected h False in simp_all)
      next
        case (spliced content tc tl d s)
        show ?thesis
        proof (rule that(4) [where s = s and hdr = hdr and content = content and tc = tc
              and tl = tl and d = d])
          show "z' = z\<lparr>w := s, compressor := ?cmp, err := e, digest := d,
                  size_u32 := size_u32 z + tl, stateFlags := ?SFA\<rparr>"
            unfolding spliced(6) idem zh' by simp
          show "crc32Combine (digest z) tc (uint tl) = Some d"
            using spliced(5) unfolding zh' by simp
          show "calls s = calls (w z) @ hdr @ (if checkActiveDeflateStream z then [FlateFlush] else [])
                 @ [SinkWrite Payload content]"
            using spliced(7) h False proj by simp
        qed (use spliced h in simp_all)
      qed
    next
      case True
      from assms wh None proj act True obtain c where c: "?cmp = Some c"
        by (cases ?cmp) (simp_all add: WriteCompressed_def Let_def)
      obtain e1 s1 where ff: "flate_Flush s0 = (e1, s1)"
        by (metis prod.exhaust)
      have c1: "calls s1 = calls (w z) @ hdr @ [FlateFlush]"
        using flate_Flush_effect [OF ff] h by simp
      show ?thesis
      proof (cases e1)
        case (Some x)
        from assms wh None proj act True c ff Some
        have r: "n = n0" "e = e1" "z' = zh\<lparr>w := s1, err := e1\<rparr>"
          by (auto simp add: WriteCompressed_def Let_def)
        show ?thesis
        proof (rule flush_failed [where s = s1 and hdr = hdr and c = c])
          show "z' = z\<lparr>w := s1, compressor := Some c, err := e, stateFlags := ?SFH\<rparr>"
            unfolding r zh' c by simp
        qed (use True Some r c1 h in simp_all)
      next
        case e1: None
        let ?zf = "setActiveDeflateStream False (zh\<lparr>w := s1, err := None\<rparr>)"
        have zf: "?zf = z\<lparr>w := s1, compressor := ?cmp, err := None, stateFlags := ?SFA\<rparr>"
          unfolding zh' by (simp add: setActiveDeflateStream_def Let_def)
        from assms wh None proj act True c ff e1 n0
        have blob: "WriteCompressed_blob 10 p ?zf = Some ((n, e), z')"
          by (simp add: WriteCompressed_def Let_def)
        from blob show ?thesis
        proof (cases rule: WriteCompressed_blob_cases)
          case rejected
          show ?thesis
          proof (rule that(3) [where s = s1 and hdr = hdr])
            show "z' = z\<lparr>w := s1, compressor := ?cmp, err := None, stateFlags := ?SFA\<rparr>"
              unfolding rejected(2) by (rule zf)
          qed (use rejected h True c1 in simp_all)
        next
          case (spliced content tc tl d s)
          show ?thesis
          proof (rule that(4) [where s = s and hdr = hdr and content = content and tc = tc
                and tl = tl and d = d])
            show "z' = z\<lparr>w := s, compressor := ?cmp, err := e, digest := d,
                  size_u32 := size_u32 z + tl, stateFlags := ?SFA\<rparr>"
              unfolding spliced(6) zf by simp
            show "crc32Combine (digest z) tc (uint tl) = Some d"
              using spliced(5) unfolding zf by simp
            show "calls s = calls (w z) @ hdr @ (if checkActiveDeflateStream z then [FlateFlush] else [])
                 @ [SinkWrite Payload content]"
              using spliced(7) c1 True unfolding zf by simp
          qed (use spliced h in simp_all)
        qed
      qed
    qed
  qed
qed

lemma checkWroteHeader_setClosed:
  "checkWroteHeader (setClosed v z) = checkWroteHeader z"
  by (simp add: checkWroteHeader_bit bit_setClosed)

lemma header_buf_setClosed: "header_buf (setClosed v z) = header_buf z"
  by (simp add: header_buf_def setClosed_def Let_def)

lemma header_events_setClosed: "header_events (setClosed v z) hdr = header_events z hdr"
  unfolding header_events_def header_buf_setClosed ..

lemma stateFlags_setWroteHeader_upd:
  "stateFlags (setWroteHeader v (z\<lparr>stateFlags := f\<rparr>)) = (f AND NOT 0x0001) OR (if v then 1 else 0)"
  by (simp add: setWroteHeader_def Let_def)

lemma stateFlags_setActive_upd:
  "stateFlags (setActiveDeflateStream v (z\<lparr>stateFlags := f\<rparr>)) = (f AND NOT 0x0004) OR push_bit 2 (if v then 1 else 0)"
  by (simp add: setActiveDeflateStream_def Let_def)

lemma Close_cases:
  assumes "err z = None" "\<not> checkClosed z" "Close z = Some (e, z')"
  obtains (header_failed) s hdr where
      "\<not> checkWroteHeader z" "e \<noteq> None"
      "z' = z\<lparr>w := s, err := e,
               stateFlags := stateFlags (setWroteHeader True (setClosed True z))\<rparr>"
      "calls s = calls (w z) @ hdr" "header_events z hdr"
  | (write_failed) s hdr c where
      "\<not> checkWroteHeader z" "e \<noteq> None"
      "z' = z\<lparr>w := s, compressor := Some c, err := e,
               stateFlags := stateFlags (setActiveDeflateStream True
                                (setWroteHeader True (setClosed True z)))\<rparr>"
      "calls s = calls (w z) @ hdr @ [FlateWrite []]" "header_events z hdr"
  | (finalised) s pre c rest where
      "z' = z\<lparr>w := s, compressor := Some c, err := e,
               stateFlags := (if checkWroteHeader z then stateFlags (setClosed True z)
                              else stateFlags (setActiveDeflateStream True
                                     (setWroteHeader True (setClosed True z))))\<rparr>"
      "calls s = calls (w z) @ pre @ FlateClose # rest"
      "if checkWroteHeader z then pre = []
       else (\<exists>hdr. pre = hdr @ [FlateWrite []] \<and> header_events z hdr)"
      "if e = None then rest = [SinkWrite Trailer (PutUint32 (digest z) @ PutUint32 (size_u32 z))]
       else rest = [] \<or> rest = [SinkWrite Trailer (PutUint32 (digest z) @ PutUint32 (size_u32 z))]"
proof -
  let ?z1 = "setClosed True z"
  let ?tr = "PutUint32 (digest z) @ PutUint32 (size_u32 z)"
  have z1: "?z1 = z\<lparr>stateFlags := stateFlags ?z1\<rparr>" by (rule setClosed_fields)
  have e1: "err ?z1 = None" using assms(1) by (simp add: setClosed_proj)
  have wh1: "checkWroteHeader ?z1 = checkWroteHeader z" by (rule checkWroteHeader_setClosed)
  have tail: thesis
    if zb: "zb = z\<lparr>w := sb, compressor := Some c, err := None,
               stateFlags := (if checkWroteHeader z then stateFlags (setClosed True z)
                              else stateFlags (setActiveDeflateStream True
                                     (setWroteHeader True (setClosed True z))))\<rparr>"
      and cb: "calls sb = calls (w z) @ pre"
      and pre: "if checkWroteHeader z then pre = []
                else (\<exists>hdr. pre = hdr @ [FlateWrite []] \<and> header_events z hdr)"
      and res: "Some (e, z') =
         (case flate_Close (w zb) of
            (e, s) \<Rightarrow>
              (let z3 = zb\<lparr>w := s, err := e\<rparr>
               in if err z3 \<noteq> None then Some (err z3, z3)
                  else let buf = PutUint32 (digest z3) @ PutUint32 (size_u32 z3)
                       in case w_Write Trailer buf (w z3) of
                            ((n, e'), s') \<Rightarrow>
                              (let z4 = z3\<lparr>w := s', err := e'\<rparr>
                               in Some (err z4, z4))))"
    for zb sb c pre
  proof -
    obtain e3 s3 where fc: "flate_Close sb = (e3, s3)" by (metis prod.exhaust)
    have c3: "calls s3 = calls (w z) @ pre @ [FlateClose]"
      using flate_Close_effect [OF fc] cb by simp
    have wb: "w zb = sb" "digest zb = digest z" "size_u32 zb = size_u32 z"
      unfolding zb by simp_all
    show thesis
    proof (cases e3)
      case (Some x)
      with res fc wb have r: "e = e3" "z' = zb\<lparr>w := s3, err := e3\<rparr>"
        by (auto simp add: Let_def)
      show thesis
      proof (rule finalised [where s = s3 and pre = pre and c = c and rest = "[]"])
        show "z' = z\<lparr>w := s3, compressor := Some c, err := e,
               stateFlags := (if checkWroteHeader z then stateFlags (setClosed True z)
                              else stateFlags (setActiveDeflateStream True
                                     (setWroteHeader True (setClosed True z))))\<rparr>"
          unfolding r zb by simp
      qed (use Some r c3 pre in simp_all)
    next
      case None
      obtain n4 e4 s4 where tw: "w_Write Trailer ?tr s3 = ((n4, e4), s4)"
        by (metis prod.exhaust)
      from res fc wb None tw have r: "e = e4" "z' = zb\<lparr>w := s4, err := e4\<rparr>"
        by (auto simp add: Let_def)
      have c4: "calls s4 = calls (w z) @ pre @ FlateClose # [SinkWrite Trailer ?tr]"
        using w_Write_effect [OF tw] c3 by simp
      show thesis
      proof (rule finalised [where s = s4 and pre = pre and c = c
            and rest = "[SinkWrite Trailer ?tr]"])
        show "z' = z\<lparr>w := s4, compressor := Some c, err := e,
               stateFlags := (if checkWroteHeader z then stateFlags (setClosed True z)
                              else stateFlags (setActiveDeflateStream True
                                     (setWroteHeader True (setClosed True z))))\<rparr>"
          unfolding r zb by simp
      qed (use r c4 pre in simp_all)
    qed
  qed
  show ?thesis
  proof (cases "checkWroteHeader z")
    case True
    from assms True wh1 e1 obtain c where c: "compressor z = Some c"
      by (cases "compressor z") (simp_all add: Close_def Let_def setClosed_proj)
    show ?thesis
    proof (rule tail [where zb = ?z1 and sb = "w z" and c = c and pre = "[]"])
      show "?z1 = z\<lparr>w := w z, compressor := Some c, err := None,
               stateFlags := (if checkWroteHeader z then stateFlags (setClosed True z)
                              else stateFlags (setActiveDeflateStream True
                                     (setWroteHeader True (setClosed True z))))\<rparr>"
        using True c [symmetric] assms(1) [symmetric] by (subst z1) simp
      show "Some (e, z') =
         (case flate_Close (w ?z1) of
            (e, s) \<Rightarrow>
              (let z3 = ?z1\<lparr>w := s, err := e\<rparr>
               in if err z3 \<noteq> None then Some (err z3, z3)
                  else let buf = PutUint32 (digest z3) @ PutUint32 (size_u32 z3)
                       in case w_Write Trailer buf (w z3) of
                            ((n, e'), s') \<Rightarrow>
                              (let z4 = z3\<lparr>w := s', err := e'\<rparr>
                               in Some (err z4, z4))))"
        using assms True wh1 e1 c by (simp add: Close_def Let_def setClosed_proj)
    qed (use True in simp_all)
  next
    case False
    from assms False wh1 e1 obtain r2 where wr: "Write [] ?z1 = Some r2"
      by (cases "Write [] ?z1") (simp_all add: Close_def Let_def)
    obtain n2 e2 z2 where r2: "r2 = ((n2, e2), z2)" by (metis prod.exhaust)
    from e1 wr [unfolded r2] show ?thesis
    proof (cases rule: Write_cases)
      case (header_failed s hdr)
      have ez2: "err z2 = e2" unfolding header_failed(3) by simp
      from assms False wh1 e1 wr r2 header_failed(2) ez2 have r: "e = e2" "z' = z2"
        by (auto simp add: Close_def Let_def)
      show ?thesis
      proof (rule that(1) [where s = s and hdr = hdr])
        show "z' = z\<lparr>w := s, err := e,
               stateFlags := stateFlags (setWroteHeader True (setClosed True z))\<rparr>"
          unfolding r header_failed(3) by (subst z1) simp
      qed (use False r header_failed in \<open>simp_all add: setClosed_proj header_events_setClosed\<close>)
    next
      case (written s hdr c)
      have z2: "z2 = z\<lparr>w := s, compressor := Some c, err := e2,
               stateFlags := stateFlags (setActiveDeflateStream True
                                (setWroteHeader True (setClosed True z)))\<rparr>"
        unfolding written(1) by (subst z1) (simp add: crc32_Update_Nil setClosed_proj)
      have hdr: "header_events z hdr"
        using written(3) False wh1 by (simp add: header_events_setClosed)
      have c2: "calls s = calls (w z) @ hdr @ [FlateWrite []]"
        using written(2) by (simp add: setClosed_proj)
      have ez2: "err z2 = e2" "compressor z2 = Some c" "w z2 = s" unfolding z2 by simp_all
      show ?thesis
      proof (cases e2)
        case (Some x)
        from assms False wh1 e1 wr r2 Some ez2 have r: "e = e2" "z' = z2"
          by (auto simp add: Close_def Let_def)
        show ?thesis
          by (rule that(2) [where s = s and hdr = hdr and c = c])
            (use False Some r z2 hdr c2 in simp_all)
      next
        case None
        show ?thesis
        proof (rule tail [where zb = z2 and sb = s and c = c and pre = "hdr @ [FlateWrite []]"])
          show "z2 = z\<lparr>w := s, compressor := Some c, err := None,
               stateFlags := (if checkWroteHeader z then stateFlags (setClosed True z)
                              else stateFlags (setActiveDeflateStream True
                                     (setWroteHeader True (setClosed True z))))\<rparr>"
            using False None by (subst z2) simp
          show "Some (e, z') =
            (case flate_Close (w z2) of
               (e, s) \<Rightarrow>
                 (let z3 = z2\<lparr>w := s, err := e\<rparr>
                  in if err z3 \<noteq> None then Some (err z3, z3)
                     else let buf = PutUint32 (digest z3) @ PutUint32 (size_u32 z3)
                          in case w_Write Trailer buf (w z3) of
                               ((n, e'), s') \<Rightarrow>
                                 (let z4 = z3\<lparr>w := s', err := e'\<rparr>
                                  in Some (err z4, z4))))"
            using assms False wh1 e1 wr r2 None ez2 by (simp add: Close_def Let_def)
        qed (use False hdr c2 in auto)
      qed
    qed
  qed
qed



section \<open>Reset\<close>

lemma init_eq:
  "init dst lvl z =
     \<lparr>Comment = [], Extra = None, ModTime = zero_Time, Name = [], OS = 255,
      w = (case compressor z of None \<Rightarrow> dst | Some c \<Rightarrow> dst\<lparr>calls := calls dst @ [FlateReset]\<rparr>),
      compressor = compressor z, level = lvl, err = None, digest = 0, size_u32 = 0,
      stateFlags = 0\<rparr>"
  by (cases "compressor z") (simp_all add: init_def flate_Reset_def Let_def)

lemma Reset_eq:
  "Reset dst z =
     \<lparr>Comment = [], Extra = None, ModTime = zero_Time, Name = [], OS = 255,
      w = (case compressor z of None \<Rightarrow> dst | Some c \<Rightarrow> dst\<lparr>calls := calls dst @ [FlateReset]\<rparr>),
      compressor = compressor z, level = level z, err = None, digest = 0, size_u32 = 0,
      stateFlags = 0\<rparr>"
  by (simp add: Reset_def init_eq setClosed_def setWroteHeader_def
      setActiveDeflateStream_def Let_def)

text \<open>
  Claim C8. For every writer and every new destination, \<^verbatim>\<open>Reset\<close> keeps the compression
  level and the cached compressor, which it resets onto the new destination when there
  is one, and clears everything else: the three state flags are false (the whole bit
  field is 0), the digest and the size are 0, no error is latched, and the header fields
  have their defaults, with \<open>OS = 255\<close>.
\<close>

theorem Reset_clears:
  "Reset dst z =
     \<lparr>Comment = [], Extra = None, ModTime = zero_Time, Name = [], OS = 255,
      w = (case compressor z of None \<Rightarrow> dst | Some c \<Rightarrow> dst\<lparr>calls := calls dst @ [FlateReset]\<rparr>),
      compressor = compressor z, level = level z, err = None, digest = 0, size_u32 = 0,
      stateFlags = 0\<rparr>
   \<and> \<not> checkWroteHeader (Reset dst z) \<and> \<not> checkClosed (Reset dst z)
   \<and> \<not> checkActiveDeflateStream (Reset dst z)"
  by (simp add: Reset_eq checkWroteHeader_bit checkClosed_bit checkActiveDeflateStream_bit)

section \<open>No panic while parsing a blob\<close>

lemma WriteCompressed_total:
  assumes "compressor z \<noteq> None"
  shows "WriteCompressed p z \<noteq> None"
proof (cases "err z")
  case (Some x)
  then show ?thesis by (simp add: WriteCompressed_def)
next
  case None
  obtain n0 e0 zh where wh: "writeHeader z = ((n0, e0), zh)"
    by (metis prod.exhaust)
  from writeHeader_result [OF wh] obtain s0 hdr where
    zh: "zh = z\<lparr>w := s0,
             compressor := (if e0 = None \<and> compressor z = None
                            then flate_NewWriter (level z) else compressor z),
             err := e0, stateFlags := stateFlags (setWroteHeader True z)\<rparr>"
    by blast
  from assms obtain c where c: "compressor z = Some c" by blast
  have proj: "err zh = e0" "compressor zh = Some c" "zh\<lparr>err := e0\<rparr> = zh"
    unfolding zh using c by simp_all
  obtain e1 s1 where ff: "flate_Flush (w zh) = (e1, s1)" by (metis prod.exhaust)
  have tot: "\<exists>a b ba. WriteCompressed_blob m p y = Some ((a, b), ba)" for m y
    using WriteCompressed_blob_total [of m p y] by auto
  show ?thesis
    using None wh proj c ff
    by (simp add: WriteCompressed_def Let_def tot)
qed

text \<open>
  Claim C9. For every byte slice, the blob-parsing path indexes and slices in bounds
  only: \<^verbatim>\<open>getHeaderLength\<close>, \<^verbatim>\<open>getDeflateSlice\<close> and the part of \<^verbatim>\<open>WriteCompressed\<close>
  that reads the trailer never reach the panic of the model, and \<^verbatim>\<open>WriteCompressed\<close> as
  a whole does not either when the writer has a compressor. A blob shorter than the fixed
  header gives \<open>-1\<close>, a header length of \<open>-1\<close> gives not-ok, and a blob shorter than 18
  bytes or not ok gives \<^verbatim>\<open>ErrBlob\<close> with the writer unchanged.
\<close>

theorem blob_parsing_in_bounds:
  "(\<exists>r. getHeaderLength p = Some r \<and> header_end p r)
   \<and> (\<exists>c ok. getDeflateSlice p = Some (c, ok))
   \<and> (\<exists>r. WriteCompressed_blob n p z = Some r)
   \<and> (compressor z \<noteq> None \<longrightarrow> WriteCompressed p z \<noteq> None)
   \<and> (int (length p) < 10 \<longrightarrow> getHeaderLength p = Some (- 1))
   \<and> (getHeaderLength p = Some (- 1) \<longrightarrow> getDeflateSlice p = Some ([], False))
   \<and> (int (length p) < 18 \<or> getDeflateSlice p = Some ([], False)
        \<longrightarrow> WriteCompressed_blob n p z = Some ((n, Some ErrBlob), z))"
proof (intro conjI impI)
  show "\<exists>r. getHeaderLength p = Some r \<and> header_end p r" by (rule getHeaderLength_total)
  show "\<exists>c ok. getDeflateSlice p = Some (c, ok)" by (rule getDeflateSlice_total)
  show "\<exists>r. WriteCompressed_blob n p z = Some r" by (rule WriteCompressed_blob_total)
  show "WriteCompressed p z \<noteq> None" if "compressor z \<noteq> None"
    using that by (rule WriteCompressed_total)
  show "getHeaderLength p = Some (- 1)" if "int (length p) < 10"
    using that by (simp add: getHeaderLength_def)
  show "getDeflateSlice p = Some ([], False)" if "getHeaderLength p = Some (- 1)"
    using that by (simp add: getDeflateSlice_def)
  show "WriteCompressed_blob n p z = Some ((n, Some ErrBlob), z)"
    if "int (length p) < 18 \<or> getDeflateSlice p = Some ([], False)"
  proof (cases "int (length p) < 18")
    case True
    then show ?thesis by (simp add: WriteCompressed_blob_def)
  next
    case False
    with that have g: "getDeflateSlice p = Some ([], False)" by simp
    obtain r where r: "WriteCompressed_blob n p z = Some r"
      using WriteCompressed_blob_total by blast
    obtain n' e z' where r': "r = ((n', e), z')" by (metis prod.exhaust)
    from r [unfolded r'] show ?thesis
    proof (cases rule: WriteCompressed_blob_cases)
      case rejected
      with r r' show ?thesis by simp
    next
      case (spliced content tc tl d s)
      with g show ?thesis by simp
    qed
  qed
qed

text \<open>The theorem at the two-byte blob \<open>1f 8b\<close> and at a writer that went through a reset.\<close>

theorem blob_parsing_in_bounds_witness:
  "compressor (Reset (fresh_dest []) (the (step (OpWrite []) (NewGzipStreamWriter (fresh_dest []))))) \<noteq> None
   \<and> WriteCompressed [0x1f, 0x8b] (Reset (fresh_dest []) (the (step (OpWrite []) (NewGzipStreamWriter (fresh_dest []))))) \<noteq> None
   \<and> int (length [0x1f :: byte, 0x8b]) < 10
   \<and> getHeaderLength [0x1f, 0x8b] = Some (- 1)
   \<and> getDeflateSlice [0x1f, 0x8b] = Some ([], False)
   \<and> WriteCompressed_blob 10 [0x1f, 0x8b] (NewGzipStreamWriter (fresh_dest []))
       = Some ((10, Some ErrBlob), NewGzipStreamWriter (fresh_dest []))"
proof -
  let ?z = "Reset (fresh_dest []) (the (step (OpWrite []) (NewGzipStreamWriter (fresh_dest []))))"
  have c: "compressor ?z \<noteq> None" by code_simp
  have l: "int (length [0x1f :: byte, 0x8b]) < 10" by simp
  note t = blob_parsing_in_bounds [of "[0x1f, 0x8b]" 10 "NewGzipStreamWriter (fresh_dest [])"]
  note u = blob_parsing_in_bounds [of "[0x1f, 0x8b]" 10 ?z]
  from t l have h: "getHeaderLength [0x1f, 0x8b] = Some (- 1)" by blast
  with t have g: "getDeflateSlice [0x1f, 0x8b] = Some ([], False)" by blast
  with t have b: "WriteCompressed_blob 10 [0x1f, 0x8b] (NewGzipStreamWriter (fresh_dest []))
       = Some ((10, Some ErrBlob), NewGzipStreamWriter (fresh_dest []))" by blast
  from u c have "WriteCompressed [0x1f, 0x8b] ?z \<noteq> None" by blast
  with c l h g b show ?thesis by blast
qed

section \<open>The name and comment fields of a blob\<close>

text \<open>
  Claim C3. With FNAME set, the parser is to scan for the NUL from the current offset,
  reject the blob when there is none before position \<open>len - 8\<close>, and advance past the
  NUL, so that the payload starts after it. The code adds the index of the NUL to the
  offset and stops there. On a 22-byte blob with the name \<open>a\<close>, whose NUL is at offset
  11, the header length is 11 and the payload slice starts with the NUL; on a 19-byte
  blob whose name field has no NUL, the first byte of the trailer is taken for the
  terminator and the blob is accepted.
\<close>

theorem name_field_offset_stops_at_NUL:
  "getHeaderLength [0x1f, 0x8b, 0x08, 0x08, 0, 0, 0, 0, 0, 0xff, 0x61, 0x00, 0x03, 0x00,
                    0, 0, 0, 0, 0, 0, 0, 0] = Some 11
   \<and> index_at [0x1f, 0x8b, 0x08, 0x08, 0, 0, 0, 0, 0, 0xff, 0x61, 0x00, 0x03, 0x00,
                0, 0, 0, 0, 0, 0, 0, 0 :: byte] 11 = Some 0
   \<and> getDeflateSlice [0x1f, 0x8b, 0x08, 0x08, 0, 0, 0, 0, 0, 0xff, 0x61, 0x00, 0x03, 0x00,
                       0, 0, 0, 0, 0, 0, 0, 0] = Some ([0x00, 0x03, 0x00], True)
   \<and> IndexByte (take 1 (drop 10 [0x1f, 0x8b, 0x08, 0x08, 0, 0, 0, 0, 0, 0xff, 0x61,
                                  0, 0, 0, 0, 0, 0, 0, 0])) 0 = - 1
   \<and> getDeflateSlice [0x1f, 0x8b, 0x08, 0x08, 0, 0, 0, 0, 0, 0xff, 0x61,
                       0, 0, 0, 0, 0, 0, 0, 0] = Some ([], True)"
  by code_simp

section \<open>Errors\<close>

text \<open>
  Claim C4. Every error an operation observes, \<^verbatim>\<open>ErrBlob\<close> included, is to be latched,
  so that the calls that follow return it. On a new writer, \<^verbatim>\<open>WriteCompressed\<close> of an
  empty blob returns \<^verbatim>\<open>ErrBlob\<close> and leaves no error latched: the \<^verbatim>\<open>Close\<close> that
  follows returns nil and writes the trailer.
\<close>

theorem ErrBlob_is_not_latched:
  "(case WriteCompressed [] (NewGzipStreamWriter (fresh_dest [])) of
      None \<Rightarrow> False
    | Some ((n, e), z1) \<Rightarrow>
        e = Some ErrBlob \<and> err z1 = None \<and>
        (case Close z1 of
           None \<Rightarrow> False
         | Some (e', z2) \<Rightarrow>
             e' = None \<and>
             calls (w z2) = [SinkWrite HeaderField [0x1f, 0x8b, 8, 0, 0, 0, 0, 0, 0, 0xff],
                             FlateClose,
                             SinkWrite Trailer [0, 0, 0, 0, 0, 0, 0, 0]]))"
  by code_simp

section \<open>Close\<close>

text \<open>
  Claim C5. When the last bytes the destination received came from a spliced blob,
  \<^verbatim>\<open>Close\<close> is to write the eight trailer bytes only, without finalising the compressor:
  the final block of the spliced payload has already ended the DEFLATE stream. The code
  calls \<^verbatim>\<open>z.compressor.Close()\<close> on every path. On a new writer, after the splice of the
  20-byte gzip member of the empty string, whose payload \<open>03 00\<close> is the last call the
  destination received, \<^verbatim>\<open>Close\<close> returns nil and adds the compressor's \<^verbatim>\<open>Close\<close>, hence
  a further final block, between that payload and the trailer.
\<close>

theorem Close_after_splice_closes_compressor:
  "(case WriteCompressed [0x1f, 0x8b, 0x08, 0, 0, 0, 0, 0, 0, 0xff, 0x03, 0x00,
                          0, 0, 0, 0, 0, 0, 0, 0] (NewGzipStreamWriter (fresh_dest [])) of
      None \<Rightarrow> False
    | Some ((n, e), z1) \<Rightarrow>
        e = None \<and> last (calls (w z1)) = SinkWrite Payload [0x03, 0x00] \<and>
        (case Close z1 of
           None \<Rightarrow> False
         | Some (e', z2) \<Rightarrow>
             e' = None \<and>
             calls (w z2) = calls (w z1) @
               [FlateClose, SinkWrite Trailer [0, 0, 0, 0, 0, 0, 0, 0]]))"
  by code_simp

text \<open>
  Claim C6. A second \<^verbatim>\<open>Close\<close> returns what the first returned, the latched error or
  nil, and leaves the writer as the first left it, the calls received by the destination
  included.
\<close>

theorem Close_idempotent:
  assumes "Close z = Some (e, z')"
  shows "Close z' = Some (e, z')"
proof (cases "err z \<noteq> None \<or> checkClosed z")
  case True
  with assms have "z' = z" "e = err z"
    by (auto simp add: Close_def split: if_splits)
  with assms show ?thesis by simp
next
  case False
  then have a: "err z = None" "\<not> checkClosed z" by simp_all
  from a assms show ?thesis
  proof (cases rule: Close_cases)
    case (header_failed s hdr)
    have "err z' = e" unfolding header_failed(3) by simp
    with header_failed(2) show ?thesis by (simp add: Close_def)
  next
    case (write_failed s hdr c)
    have "err z' = e" unfolding write_failed(3) by simp
    with write_failed(2) show ?thesis by (simp add: Close_def)
  next
    case (finalised s pre c rest)
    have e: "err z' = e" unfolding finalised(1) by simp
    have "bit (stateFlags z') 1"
      unfolding finalised(1)
      by (simp add: bit_setActiveDeflateStream bit_setWroteHeader bit_setClosed)
    then have "checkClosed z'" by (simp add: checkClosed_bit)
    with e show ?thesis by (simp add: Close_def)
  qed
qed

text \<open>The theorem on a new writer: the second \<^verbatim>\<open>Close\<close> adds no call to the four of the first.\<close>

theorem Close_idempotent_witness:
  "Close (NewGzipStreamWriter (fresh_dest [])) = Some (None, the (step OpClose (NewGzipStreamWriter (fresh_dest []))))
   \<and> Close (the (step OpClose (NewGzipStreamWriter (fresh_dest [])))) = Some (None, the (step OpClose (NewGzipStreamWriter (fresh_dest []))))
   \<and> calls (w (the (step OpClose (NewGzipStreamWriter (fresh_dest []))))) =
       [SinkWrite HeaderField [0x1f, 0x8b, 8, 0, 0, 0, 0, 0, 0, 0xff], FlateWrite [],
        FlateClose, SinkWrite Trailer [0, 0, 0, 0, 0, 0, 0, 0]]"
proof -
  let ?z = "NewGzipStreamWriter (fresh_dest [])"
  have 1: "Close ?z = Some (None, the (step OpClose ?z))" by code_simp
  have 2: "calls (w (the (step OpClose ?z))) =
       [SinkWrite HeaderField [0x1f, 0x8b, 8, 0, 0, 0, 0, 0, 0, 0xff], FlateWrite [],
        FlateClose, SinkWrite Trailer [0, 0, 0, 0, 0, 0, 0, 0]]" by code_simp
  show ?thesis by (intro conjI 1 2 Close_idempotent [OF 1])
qed

section \<open>Write of an empty slice\<close>



lemma header_events_hd: "header_events z hdr \<Longrightarrow> \<exists>more. hdr = SinkWrite HeaderField (header_buf z) # more"
  by (cases hdr) (simp_all add: header_events_def)

lemma w_Write_quiet:
  "script s = [] \<Longrightarrow>
   w_Write k b s = ((int (length b), None), s\<lparr>calls := calls s @ [SinkWrite k b]\<rparr>)"
  by (simp add: w_Write_def call_def next_result_def)

lemma flate_Write_quiet:
  "script s = [] \<Longrightarrow>
   flate_Write b s = ((int (length b), None), s\<lparr>calls := calls s @ [FlateWrite b]\<rparr>)"
  by (simp add: flate_Write_def call_def next_result_def)

lemma writeHeaderBytes_quiet:
  assumes "script (w z) = []" "length b \<le> 0xffff"
  shows "writeHeaderBytes b z =
    (None, z\<lparr>w := (w z)\<lparr>calls := calls (w z) @
       [SinkWrite HeaderField (PutUint16 (of_nat (length b))), SinkWrite HeaderField b]\<rparr>\<rparr>)"
  using assms by (simp add: writeHeaderBytes_def w_Write_quiet Let_def)

lemma writeHeaderString_quiet:
  assumes "script (w z) = []" "\<not> nonLatin1 str"
  shows "writeHeaderString str z =
    (None, z\<lparr>w := (w z)\<lparr>calls := calls (w z) @
       [SinkWrite HeaderField (map of_nat str), SinkWrite HeaderField [0]]\<rparr>\<rparr>)"
  using assms by (simp add: writeHeaderString_def w_Write_quiet Let_def)

lemma writeHeader_quiet:
  assumes "script (w z) = []" "encodable z"
  shows "writeHeader z =
    ((10, None),
     z\<lparr>w := (w z)\<lparr>calls := calls (w z) @ header_calls z\<rparr>,
       compressor := (case compressor z of None \<Rightarrow> flate_NewWriter (level z)
                      | Some c \<Rightarrow> Some c),
       err := None, stateFlags := stateFlags (setWroteHeader True z)\<rparr>)"
proof -
  define f where "f = stateFlags (setWroteHeader True z)"
  have sw: "setWroteHeader True z = z\<lparr>stateFlags := f\<rparr>"
    unfolding f_def by (simp add: setWroteHeader_def Let_def)
  have hb: "header_buf (z\<lparr>stateFlags := f\<rparr>) = header_buf z"
    by (simp add: header_buf_def Let_def)
  have len: "int (length (header_buf z)) = 10"
    by (simp add: header_buf_def PutUint32_def Let_def)
  show ?thesis
    using assms
    unfolding writeHeader_def Let_def sw hb f_def [symmetric]
    by (cases "Extra z"; cases "compressor z")
       (simp_all add: w_Write_quiet writeHeaderBytes_quiet writeHeaderString_quiet
        encodable_def header_calls_def len)
qed






section \<open>Sync-flushes\<close>











subsection \<open>No operation panics on a reachable writer\<close>


















subsection \<open>Where the sync-flushes are\<close>




section \<open>The checksum and the size in the trailer\<close>

lemma Uint32_PutUint32: "Uint32 (PutUint32 v) = Some v"
proof -
  have "ucast (ucast v :: byte) OR push_bit 8 (ucast (ucast (drop_bit 8 v) :: byte)) OR
        push_bit 16 (ucast (ucast (drop_bit 16 v) :: byte)) OR
        push_bit 24 (ucast (ucast (drop_bit 24 v) :: byte)) = v"
  proof (rule bit_eqI)
    fix n
    assume "possible_bit TYPE(uint32) n"
    then have n: "n < 32" by simp
    consider "n < 8" | "8 \<le> n" "n < 16" | "16 \<le> n" "n < 24" | "24 \<le> n" by linarith
    then show "bit ((ucast (ucast v :: byte) :: uint32) OR push_bit 8 (ucast (ucast (drop_bit 8 v) :: byte)) OR
        push_bit 16 (ucast (ucast (drop_bit 16 v) :: byte)) OR
        push_bit 24 (ucast (ucast (drop_bit 24 v) :: byte))) n = bit v n"
      using n by cases (auto simp add: bit_simps)
  qed
  then show ?thesis by (simp add: Uint32_def PutUint32_def)
qed

lemma length_PutUint32: "length (PutUint32 v) = 4"
  by (simp add: PutUint32_def)

lemma gzip_of_trailer:
  assumes "gzip_of b d"
  shows "Uint32 (take 4 (drop (length b - 8) b)) = Some (ChecksumIEEE d)"
    and "Uint32 (take 4 (drop (length b - 4) b)) = Some (of_nat (length d))"
proof -
  let ?t = "drop (length b - 8) b"
  from assms have t: "?t = PutUint32 (ChecksumIEEE d) @ PutUint32 (of_nat (length d))"
    and l: "18 \<le> length b" by (simp_all add: gzip_of_def)
  from t show "Uint32 (take 4 ?t) = Some (ChecksumIEEE d)"
    by (simp add: length_PutUint32 Uint32_PutUint32)
  have "drop (length b - 4) b = drop 4 ?t"
    using l by simp
  also have "\<dots> = PutUint32 (of_nat (length d))"
    by (simp add: t length_PutUint32)
  finally show "Uint32 (take 4 (drop (length b - 4) b)) = Some (of_nat (length d))"
    by (simp add: length_PutUint32 Uint32_PutUint32)
qed

lemma run_latched:
  "err z \<noteq> None \<Longrightarrow> run (map input_op ins) z = Some z1 \<Longrightarrow> z1 = z"
proof (induction ins)
  case Nil
  then show ?case by simp
next
  case (Cons i ins)
  then show ?case
    by (cases i) (auto simp add: Write_def WriteCompressed_def split: option.splits)
qed

lemma Write_digest:
  assumes "err z = None" "Write p z = Some (r, z')" "err z' = None"
  shows "digest z' = crc32_Update (digest z) p \<and> size_u32 z' = size_u32 z + of_nat (length p)
         \<and> checkClosed z' = checkClosed z"
proof -
  obtain n e where r: "r = (n, e)" by (cases r)
  from assms(1) assms(2) [unfolded r] show ?thesis
  proof (cases rule: Write_cases)
    case (header_failed s hdr)
    have "err z' = e" unfolding header_failed(3) by simp
    with header_failed(2) assms(3) show ?thesis by simp
  next
    case (written s hdr c)
    show ?thesis unfolding written(1)
      by (simp add: checkClosed_bit bit_setActiveDeflateStream bit_setWroteHeader)
  qed
qed

lemma WriteCompressed_digest:
  assumes "err z = None" "WriteCompressed b z = Some (r, z')" "err z' = None"
    "gzip_of b d" "length d < 2 ^ 32"
  shows "digest z' = crc32_Update (digest z) d \<and> size_u32 z' = size_u32 z + of_nat (length d)
         \<and> checkClosed z' = checkClosed z"
proof -
  obtain n e where r: "r = (n, e)" by (cases r)
  from assms(1) assms(2) [unfolded r] show ?thesis
  proof (cases rule: WriteCompressed_cases)
    case (header_failed s hdr)
    have "err z' = e" unfolding header_failed(2) by simp
    with header_failed(1) assms(3) show ?thesis by simp
  next
    case (flush_failed s hdr c)
    have "err z' = e" unfolding flush_failed(3) by simp
    with flush_failed(2) assms(3) show ?thesis by simp
  next
    case (rejected s hdr)
    from assms(4) have "18 \<le> length b" "map_option snd (getDeflateSlice b) = Some True"
      by (simp_all add: gzip_of_def)
    with rejected(3) show ?thesis by auto
  next
    case (spliced s hdr c tc tl dg)
    from gzip_of_trailer [OF assms(4)] spliced(3,4)
    have tc: "tc = ChecksumIEEE d" and tl: "tl = of_nat (length d)" by simp_all
    have "uint tl = int (length d)"
      unfolding tl using assms(5) by (simp add: uint_nat unat_of_nat take_bit_nat_eq_self)
    with spliced(5) crc32Combine_Update [of "digest z" d] tc
    have "dg = crc32_Update (digest z) d" by simp
    then show ?thesis unfolding spliced(6) tl
      by (simp add: checkClosed_bit bit_setActiveDeflateStream bit_setWroteHeader)
  qed
qed

lemma run_digest:
  assumes "list_all admissible ins" "run (map input_op ins) z = Some z1" "err z1 = None"
  shows "err z = None \<and> digest z1 = crc32_Update (digest z) (content ins)
         \<and> size_u32 z1 = size_u32 z + of_nat (length (content ins))
         \<and> checkClosed z1 = checkClosed z"
  using assms
proof (induction ins arbitrary: z)
  case Nil
  then show ?case by (simp add: crc32_Update_Nil)
next
  case (Cons i ins)
  have ez: "err z = None"
  proof (rule ccontr)
    assume "err z \<noteq> None"
    from run_latched [OF this Cons.prems(2)] Cons.prems(3) this show False by simp
  qed
  from Cons.prems(2) obtain z' where st: "step (input_op i) z = Some z'"
    and rn: "run (map input_op ins) z' = Some z1"
    by (auto split: option.splits)
  from Cons.prems(1) have adm: "admissible i" "list_all admissible ins" by simp_all
  from Cons.IH [OF adm(2) rn Cons.prems(3)]
  have ih: "err z' = None" "digest z1 = crc32_Update (digest z') (content ins)"
    "size_u32 z1 = size_u32 z' + of_nat (length (content ins))"
    "checkClosed z1 = checkClosed z'" by simp_all
  show ?case
  proof (cases i)
    case (Raw p)
    with st obtain r where "Write p z = Some (r, z')" by auto
    from Write_digest [OF ez this ih(1)] ih ez Raw show ?thesis
      by (simp add: crc32_Update_append)
  next
    case (Spliced b d)
    with st obtain r where wc: "WriteCompressed b z = Some (r, z')" by auto
    from adm(1) Spliced have "gzip_of b d" "length d < 2 ^ 32" by simp_all
    from WriteCompressed_digest [OF ez wc ih(1) this] ih ez Spliced show ?thesis
      by (simp add: crc32_Update_append)
  qed
qed

text \<open>
  Where every spliced blob has the framing of a gzip member and holds fewer than \<open>2^32\<close>
  bytes of content, the digest and the size at a successful \<^verbatim>\<open>Close\<close> are those of the
  whole content, and the trailer holds them.
\<close>

lemma trailer_identity_below_4GiB:
  assumes "list_all admissible ins"
    and "NewGzipStreamWriterLevel dst lvl = Inr z0"
    and "run (map input_op ins) z0 = Some z1"
    and "Close z1 = Some (None, z2)"
  shows "digest z1 = ChecksumIEEE (content ins)
     \<and> size_u32 z1 = of_nat (length (content ins))
     \<and> (\<exists>evs. calls (w z2) =
            evs @ [SinkWrite Trailer (PutUint32 (ChecksumIEEE (content ins)) @
                                      PutUint32 (of_nat (length (content ins))))])"
proof -
  from assms(2) have z0: "z0 = init dst lvl new_GzipStreamWriter"
    by (simp add: NewGzipStreamWriterLevel_def split: if_splits)
  then have z0': "digest z0 = 0" "size_u32 z0 = 0" "\<not> checkClosed z0"
    by (simp_all add: init_eq checkClosed_bit)
  have e1: "err z1 = None"
  proof (rule ccontr)
    assume "err z1 \<noteq> None"
    with assms(4) show False by (simp add: Close_def)
  qed
  from run_digest [OF assms(1,3) e1] z0'
  have d: "digest z1 = ChecksumIEEE (content ins)"
    "size_u32 z1 = of_nat (length (content ins))" "\<not> checkClosed z1"
    by (simp_all add: ChecksumIEEE_def)
  from e1 d(3) assms(4) have "\<exists>evs. calls (w z2) =
      evs @ [SinkWrite Trailer (PutUint32 (digest z1) @ PutUint32 (size_u32 z1))]"
  proof (cases rule: Close_cases)
    case (header_failed s hdr)
    then show ?thesis by simp
  next
    case (write_failed s hdr c)
    then show ?thesis by simp
  next
    case (finalised s pre c rest)
    have "w z2 = s" unfolding finalised(1) by simp
    with finalised(2,4) show ?thesis
      by (intro exI [of _ "calls (w z1) @ pre @ [FlateClose]"]) simp
  qed
  with d show ?thesis by simp
qed

subsection \<open>Zero bytes as a linear map\<close>

lemma mapply_xor: "mapply M (a XOR b) = mapply M a XOR mapply M b"
proof (induction M arbitrary: a b)
  case Nil
  then show ?case by simp
next
  case (Cons m M)
  have "drop_bit 1 (a XOR b) = drop_bit 1 a XOR drop_bit 1 b"
    by (rule bit_eqI) (simp add: bit_simps)
  then show ?case
    by (simp add: Cons.IH bit_xor_iff xor.assoc xor.commute xor.left_commute)
qed

lemma mapply_zero: "mapply M 0 = 0"
  by (induction M) simp_all

lemma mapply_compose: "mapply M (mapply N c) = mapply (map (mapply M) N) c"
proof (induction N arbitrary: c)
  case Nil
  then show ?case by (simp add: mapply_zero)
next
  case (Cons n N)
  then show ?case by (simp add: mapply_xor mapply_zero)
qed

lemma unit_vectors:
  fixes f :: "uint32 \<Rightarrow> uint32"
  assumes lin: "\<And>a b. f (a XOR b) = f a XOR f b"
  shows "mapply (map (\<lambda>i. f (push_bit (k + i) 1)) [0..<n]) c = f (push_bit k (take_bit n c))"
proof (induction n arbitrary: k c)
  case 0
  have "f 0 = 0" using lin [of 0 0] by simp
  then show ?case by simp
next
  case (Suc n)
  have f0: "f 0 = 0" using lin [of 0 0] by simp
  have l: "map (\<lambda>i. f (push_bit (k + i) 1)) [0..<Suc n] =
        f (push_bit k 1) # map (\<lambda>i. f (push_bit (Suc k + i) 1)) [0..<n]"
    by (simp add: upt_conv_Cons map_Suc_upt [symmetric] del: upt_Suc)
  have w: "push_bit k (take_bit (Suc n) c) =
        (if bit c 0 then push_bit k 1 else 0) XOR push_bit (Suc k) (take_bit n (drop_bit 1 c))"
  proof (rule bit_eqI)
    fix j
    assume "possible_bit TYPE(uint32) j"
    show "bit (push_bit k (take_bit (Suc n) c)) j =
          bit ((if bit c 0 then push_bit k 1 else 0) XOR
               push_bit (Suc k) (take_bit n (drop_bit 1 c))) j"
    proof (cases "j < k")
      case True
      then show ?thesis by (auto simp add: bit_simps)
    next
      case False
      then obtain d where d: "j = k + d" by (metis le_add_diff_inverse not_less)
      show ?thesis
        unfolding d by (cases d) (auto simp add: bit_simps simp del: push_bit_Suc)
    qed
  qed
  show ?case
    unfolding l w by (simp only: mapply.simps Suc.IH lin if_distrib [of f] f0)
qed

lemma linear_as_matrix:
  fixes f :: "uint32 \<Rightarrow> uint32"
  assumes "\<And>a b. f (a XOR b) = f a XOR f b"
  shows "f c = mapply (map (\<lambda>i. f (push_bit i 1)) [0..<32]) c"
  using unit_vectors [of f 0 32 c, OF assms] by (simp add: take_bit_word_eq_self)

lemma zero_ext_xor: "zero_ext n (a XOR b) = zero_ext n a XOR zero_ext n b"
  using crc_loop_xor [of a b "replicate n 0"] by (simp add: zero_ext_def)

lemma zero_ext_add: "zero_ext (m + n) c = zero_ext n (zero_ext m c)"
  by (simp add: zero_ext_def replicate_add crc_loop_append)

lemma zero_ext_double:
  assumes "\<And>c. zero_ext n c = mapply M c"
  shows "zero_ext (2 * n) c = mapply (msquare M) c"
  using zero_ext_add [of n n c] by (simp add: assms mapply_compose msquare_def mult_2)

lemma funpow8: "(f ^^ 8) x = f (f (f (f (f (f (f (f x)))))))"
  by (simp add: eval_nat_numeral)

lemma unit_vector_list: "map (\<lambda>i. push_bit i (1 :: uint32)) [0..<32] =
    [0x1, 0x2, 0x4, 0x8, 0x10, 0x20, 0x40, 0x80, 0x100, 0x200, 0x400, 0x800, 0x1000, 0x2000,
     0x4000, 0x8000, 0x10000, 0x20000, 0x40000, 0x80000, 0x100000, 0x200000, 0x400000,
     0x800000, 0x1000000, 0x2000000, 0x4000000, 0x8000000, 0x10000000, 0x20000000, 0x40000000,
     0x80000000]"
  by code_simp

lemma linear_as_matrix_list:
  fixes f :: "uint32 \<Rightarrow> uint32"
  assumes "\<And>a b. f (a XOR b) = f a XOR f b"
  shows "f c = mapply (map f
    [0x1, 0x2, 0x4, 0x8, 0x10, 0x20, 0x40, 0x80, 0x100, 0x200, 0x400, 0x800, 0x1000, 0x2000,
     0x4000, 0x8000, 0x10000, 0x20000, 0x40000, 0x80000, 0x100000, 0x200000, 0x400000,
     0x800000, 0x1000000, 0x2000000, 0x4000000, 0x8000000, 0x10000000, 0x20000000, 0x40000000,
     0x80000000]) c"
proof -
  have "map (\<lambda>i. f (push_bit i 1)) [0..<32] = map f (map (\<lambda>i. push_bit i 1) [0..<32])"
    by (simp only: map_map comp_def)
  with linear_as_matrix [of f c, OF assms] show ?thesis
    by (simp only: unit_vector_list)
qed

text \<open>One zero byte, then the squares: \<open>2\<close>, \<open>4\<close>, ... up to \<open>2 ^ 32\<close> zero bytes.\<close>

lemma zero_ext_1: "zero_ext 1 c = mapply
    [0x77073096, 0xee0e612c, 0x76dc419, 0xedb8832, 0x1db71064, 0x3b6e20c8, 0x76dc4190,
     0xedb88320, 0x1, 0x2, 0x4, 0x8, 0x10, 0x20, 0x40, 0x80, 0x100, 0x200, 0x400, 0x800,
     0x1000, 0x2000, 0x4000, 0x8000, 0x10000, 0x20000, 0x40000, 0x80000, 0x100000, 0x200000,
     0x400000, 0x800000] c"
proof -
  have "map (zero_ext 1)
    [0x1, 0x2, 0x4, 0x8, 0x10, 0x20, 0x40, 0x80, 0x100, 0x200, 0x400, 0x800, 0x1000, 0x2000,
     0x4000, 0x8000, 0x10000, 0x20000, 0x40000, 0x80000, 0x100000, 0x200000, 0x400000,
     0x800000, 0x1000000, 0x2000000, 0x4000000, 0x8000000, 0x10000000, 0x20000000, 0x40000000,
     0x80000000] =
    [0x77073096, 0xee0e612c, 0x76dc419, 0xedb8832, 0x1db71064, 0x3b6e20c8, 0x76dc4190,
     0xedb88320, 0x1, 0x2, 0x4, 0x8, 0x10, 0x20, 0x40, 0x80, 0x100, 0x200, 0x400, 0x800,
     0x1000, 0x2000, 0x4000, 0x8000, 0x10000, 0x20000, 0x40000, 0x80000, 0x100000, 0x200000,
     0x400000, 0x800000]"
    by (simp add: zero_ext_def IEEETable_def crc_round_def IEEE_def funpow8)
  with linear_as_matrix_list [of "zero_ext 1" c, OF zero_ext_xor] show ?thesis
    by (simp only:)
qed

lemma zero_ext_2: "zero_ext 2 c = mapply
    [0x191b3141, 0x32366282, 0x646cc504, 0xc8d98a08, 0x4ac21251, 0x958424a2, 0xf0794f05,
     0x3b83984b, 0x77073096, 0xee0e612c, 0x76dc419, 0xedb8832, 0x1db71064, 0x3b6e20c8,
     0x76dc4190, 0xedb88320, 0x1, 0x2, 0x4, 0x8, 0x10, 0x20, 0x40, 0x80, 0x100, 0x200, 0x400,
     0x800, 0x1000, 0x2000, 0x4000, 0x8000] c"
proof -
  have n: "2 * (1 :: nat) = 2" by simp
  have m: "msquare
    [0x77073096, 0xee0e612c, 0x76dc419, 0xedb8832, 0x1db71064, 0x3b6e20c8, 0x76dc4190,
     0xedb88320, 0x1, 0x2, 0x4, 0x8, 0x10, 0x20, 0x40, 0x80, 0x100, 0x200, 0x400, 0x800,
     0x1000, 0x2000, 0x4000, 0x8000, 0x10000, 0x20000, 0x40000, 0x80000, 0x100000, 0x200000,
     0x400000, 0x800000] =
    [0x191b3141, 0x32366282, 0x646cc504, 0xc8d98a08, 0x4ac21251, 0x958424a2, 0xf0794f05,
     0x3b83984b, 0x77073096, 0xee0e612c, 0x76dc419, 0xedb8832, 0x1db71064, 0x3b6e20c8,
     0x76dc4190, 0xedb88320, 0x1, 0x2, 0x4, 0x8, 0x10, 0x20, 0x40, 0x80, 0x100, 0x200, 0x400,
     0x800, 0x1000, 0x2000, 0x4000, 0x8000]"
    by code_simp
  from zero_ext_double [OF zero_ext_1] show ?thesis
    by (simp only: m n)
qed

lemma zero_ext_4: "zero_ext 4 c = mapply
    [0xb8bc6765, 0xaa09c88b, 0x8f629757, 0xc5b428ef, 0x5019579f, 0xa032af3e, 0x9b14583d,
     0xed59b63b, 0x1c26a37, 0x384d46e, 0x709a8dc, 0xe1351b8, 0x1c26a370, 0x384d46e0,
     0x709a8dc0, 0xe1351b80, 0x191b3141, 0x32366282, 0x646cc504, 0xc8d98a08, 0x4ac21251,
     0x958424a2, 0xf0794f05, 0x3b83984b, 0x77073096, 0xee0e612c, 0x76dc419, 0xedb8832,
     0x1db71064, 0x3b6e20c8, 0x76dc4190, 0xedb88320] c"
proof -
  have n: "2 * (2 :: nat) = 4" by simp
  have m: "msquare
    [0x191b3141, 0x32366282, 0x646cc504, 0xc8d98a08, 0x4ac21251, 0x958424a2, 0xf0794f05,
     0x3b83984b, 0x77073096, 0xee0e612c, 0x76dc419, 0xedb8832, 0x1db71064, 0x3b6e20c8,
     0x76dc4190, 0xedb88320, 0x1, 0x2, 0x4, 0x8, 0x10, 0x20, 0x40, 0x80, 0x100, 0x200, 0x400,
     0x800, 0x1000, 0x2000, 0x4000, 0x8000] =
    [0xb8bc6765, 0xaa09c88b, 0x8f629757, 0xc5b428ef, 0x5019579f, 0xa032af3e, 0x9b14583d,
     0xed59b63b, 0x1c26a37, 0x384d46e, 0x709a8dc, 0xe1351b8, 0x1c26a370, 0x384d46e0,
     0x709a8dc0, 0xe1351b80, 0x191b3141, 0x32366282, 0x646cc504, 0xc8d98a08, 0x4ac21251,
     0x958424a2, 0xf0794f05, 0x3b83984b, 0x77073096, 0xee0e612c, 0x76dc419, 0xedb8832,
     0x1db71064, 0x3b6e20c8, 0x76dc4190, 0xedb88320]"
    by code_simp
  from zero_ext_double [OF zero_ext_2] show ?thesis
    by (simp only: m n)
qed

lemma zero_ext_8: "zero_ext 8 c = mapply
    [0xccaa009e, 0x4225077d, 0x844a0efa, 0xd3e51bb5, 0x7cbb312b, 0xf9766256, 0x299dc2ed,
     0x533b85da, 0xa6770bb4, 0x979f1129, 0xf44f2413, 0x33ef4e67, 0x67de9cce, 0xcfbd399c,
     0x440b7579, 0x8816eaf2, 0xcb5cd3a5, 0x4dc8a10b, 0x9b914216, 0xec53826d, 0x3d6029b,
     0x7ac0536, 0xf580a6c, 0x1eb014d8, 0x3d6029b0, 0x7ac05360, 0xf580a6c0, 0x30704bc1,
     0x60e09782, 0xc1c12f04, 0x58f35849, 0xb1e6b092] c"
proof -
  have n: "2 * (4 :: nat) = 8" by simp
  have m: "msquare
    [0xb8bc6765, 0xaa09c88b, 0x8f629757, 0xc5b428ef, 0x5019579f, 0xa032af3e, 0x9b14583d,
     0xed59b63b, 0x1c26a37, 0x384d46e, 0x709a8dc, 0xe1351b8, 0x1c26a370, 0x384d46e0,
     0x709a8dc0, 0xe1351b80, 0x191b3141, 0x32366282, 0x646cc504, 0xc8d98a08, 0x4ac21251,
     0x958424a2, 0xf0794f05, 0x3b83984b, 0x77073096, 0xee0e612c, 0x76dc419, 0xedb8832,
     0x1db71064, 0x3b6e20c8, 0x76dc4190, 0xedb88320] =
    [0xccaa009e, 0x4225077d, 0x844a0efa, 0xd3e51bb5, 0x7cbb312b, 0xf9766256, 0x299dc2ed,
     0x533b85da, 0xa6770bb4, 0x979f1129, 0xf44f2413, 0x33ef4e67, 0x67de9cce, 0xcfbd399c,
     0x440b7579, 0x8816eaf2, 0xcb5cd3a5, 0x4dc8a10b, 0x9b914216, 0xec53826d, 0x3d6029b,
     0x7ac0536, 0xf580a6c, 0x1eb014d8, 0x3d6029b0, 0x7ac05360, 0xf580a6c0, 0x30704bc1,
     0x60e09782, 0xc1c12f04, 0x58f35849, 0xb1e6b092]"
    by code_simp
  from zero_ext_double [OF zero_ext_4] show ?thesis
    by (simp only: m n)
qed

lemma zero_ext_16: "zero_ext 16 c = mapply
    [0xae689191, 0x87a02563, 0xd4314c87, 0x73139f4f, 0xe6273e9e, 0x173f7b7d, 0x2e7ef6fa,
     0x5cfdedf4, 0xb9fbdbe8, 0xa886b191, 0x8a7c6563, 0xcf89cc87, 0x44629f4f, 0x88c53e9e,
     0xcafb7b7d, 0x4e87f0bb, 0x9d0fe176, 0xe16ec4ad, 0x19ac8f1b, 0x33591e36, 0x66b23c6c,
     0xcd6478d8, 0x41b9f7f1, 0x8373efe2, 0xdd96d985, 0x605cb54b, 0xc0b96a96, 0x5a03d36d,
     0xb407a6da, 0xb37e4bf5, 0xbd8d91ab, 0xa06a2517] c"
proof -
  have n: "2 * (8 :: nat) = 16" by simp
  have m: "msquare
    [0xccaa009e, 0x4225077d, 0x844a0efa, 0xd3e51bb5, 0x7cbb312b, 0xf9766256, 0x299dc2ed,
     0x533b85da, 0xa6770bb4, 0x979f1129, 0xf44f2413, 0x33ef4e67, 0x67de9cce, 0xcfbd399c,
     0x440b7579, 0x8816eaf2, 0xcb5cd3a5, 0x4dc8a10b, 0x9b914216, 0xec53826d, 0x3d6029b,
     0x7ac0536, 0xf580a6c, 0x1eb014d8, 0x3d6029b0, 0x7ac05360, 0xf580a6c0, 0x30704bc1,
     0x60e09782, 0xc1c12f04, 0x58f35849, 0xb1e6b092] =
    [0xae689191, 0x87a02563, 0xd4314c87, 0x73139f4f, 0xe6273e9e, 0x173f7b7d, 0x2e7ef6fa,
     0x5cfdedf4, 0xb9fbdbe8, 0xa886b191, 0x8a7c6563, 0xcf89cc87, 0x44629f4f, 0x88c53e9e,
     0xcafb7b7d, 0x4e87f0bb, 0x9d0fe176, 0xe16ec4ad, 0x19ac8f1b, 0x33591e36, 0x66b23c6c,
     0xcd6478d8, 0x41b9f7f1, 0x8373efe2, 0xdd96d985, 0x605cb54b, 0xc0b96a96, 0x5a03d36d,
     0xb407a6da, 0xb37e4bf5, 0xbd8d91ab, 0xa06a2517]"
    by code_simp
  from zero_ext_double [OF zero_ext_8] show ?thesis
    by (simp only: m n)
qed

lemma zero_ext_32: "zero_ext 32 c = mapply
    [0xf1da05aa, 0x38c50d15, 0x718a1a2a, 0xe3143454, 0x1d596ee9, 0x3ab2ddd2, 0x7565bba4,
     0xeacb7748, 0xee7e8d1, 0x1dcfd1a2, 0x3b9fa344, 0x773f4688, 0xee7e8d10, 0x78c1c61,
     0xf1838c2, 0x1e307184, 0x3c60e308, 0x78c1c610, 0xf1838c20, 0x38761e01, 0x70ec3c02,
     0xe1d87804, 0x18c1f649, 0x3183ec92, 0x6307d924, 0xc60fb248, 0x576e62d1, 0xaedcc5a2,
     0x86c88d05, 0xd6e01c4b, 0x76b13ed7, 0xed627dae] c"
proof -
  have n: "2 * (16 :: nat) = 32" by simp
  have m: "msquare
    [0xae689191, 0x87a02563, 0xd4314c87, 0x73139f4f, 0xe6273e9e, 0x173f7b7d, 0x2e7ef6fa,
     0x5cfdedf4, 0xb9fbdbe8, 0xa886b191, 0x8a7c6563, 0xcf89cc87, 0x44629f4f, 0x88c53e9e,
     0xcafb7b7d, 0x4e87f0bb, 0x9d0fe176, 0xe16ec4ad, 0x19ac8f1b, 0x33591e36, 0x66b23c6c,
     0xcd6478d8, 0x41b9f7f1, 0x8373efe2, 0xdd96d985, 0x605cb54b, 0xc0b96a96, 0x5a03d36d,
     0xb407a6da, 0xb37e4bf5, 0xbd8d91ab, 0xa06a2517] =
    [0xf1da05aa, 0x38c50d15, 0x718a1a2a, 0xe3143454, 0x1d596ee9, 0x3ab2ddd2, 0x7565bba4,
     0xeacb7748, 0xee7e8d1, 0x1dcfd1a2, 0x3b9fa344, 0x773f4688, 0xee7e8d10, 0x78c1c61,
     0xf1838c2, 0x1e307184, 0x3c60e308, 0x78c1c610, 0xf1838c20, 0x38761e01, 0x70ec3c02,
     0xe1d87804, 0x18c1f649, 0x3183ec92, 0x6307d924, 0xc60fb248, 0x576e62d1, 0xaedcc5a2,
     0x86c88d05, 0xd6e01c4b, 0x76b13ed7, 0xed627dae]"
    by code_simp
  from zero_ext_double [OF zero_ext_16] show ?thesis
    by (simp only: m n)
qed

lemma zero_ext_64: "zero_ext 64 c = mapply
    [0x8f352d95, 0xc51b5d6b, 0x5147bc97, 0xa28f792e, 0x9e6ff41d, 0xe7aeee7b, 0x142cdab7,
     0x2859b56e, 0x50b36adc, 0xa166d5b8, 0x99bcad31, 0xe8085c23, 0xb61be07, 0x16c37c0e,
     0x2d86f81c, 0x5b0df038, 0xb61be070, 0xb746c6a1, 0xb5fc8b03, 0xb0881047, 0xba6126cf,
     0xafb34bdf, 0x841791ff, 0xd35e25bf, 0x7dcd4d3f, 0xfb9a9a7e, 0x2c4432bd, 0x5888657a,
     0xb110caf4, 0xb95093a9, 0xa9d02113, 0x88d14467] c"
proof -
  have n: "2 * (32 :: nat) = 64" by simp
  have m: "msquare
    [0xf1da05aa, 0x38c50d15, 0x718a1a2a, 0xe3143454, 0x1d596ee9, 0x3ab2ddd2, 0x7565bba4,
     0xeacb7748, 0xee7e8d1, 0x1dcfd1a2, 0x3b9fa344, 0x773f4688, 0xee7e8d10, 0x78c1c61,
     0xf1838c2, 0x1e307184, 0x3c60e308, 0x78c1c610, 0xf1838c20, 0x38761e01, 0x70ec3c02,
     0xe1d87804, 0x18c1f649, 0x3183ec92, 0x6307d924, 0xc60fb248, 0x576e62d1, 0xaedcc5a2,
     0x86c88d05, 0xd6e01c4b, 0x76b13ed7, 0xed627dae] =
    [0x8f352d95, 0xc51b5d6b, 0x5147bc97, 0xa28f792e, 0x9e6ff41d, 0xe7aeee7b, 0x142cdab7,
     0x2859b56e, 0x50b36adc, 0xa166d5b8, 0x99bcad31, 0xe8085c23, 0xb61be07, 0x16c37c0e,
     0x2d86f81c, 0x5b0df038, 0xb61be070, 0xb746c6a1, 0xb5fc8b03, 0xb0881047, 0xba6126cf,
     0xafb34bdf, 0x841791ff, 0xd35e25bf, 0x7dcd4d3f, 0xfb9a9a7e, 0x2c4432bd, 0x5888657a,
     0xb110caf4, 0xb95093a9, 0xa9d02113, 0x88d14467]"
    by code_simp
  from zero_ext_double [OF zero_ext_32] show ?thesis
    by (simp only: m n)
qed

lemma zero_ext_128: "zero_ext 128 c = mapply
    [0x33fff533, 0x67ffea66, 0xcfffd4cc, 0x448eafd9, 0x891d5fb2, 0xc94bb925, 0x49e6740b,
     0x93cce816, 0xfce8d66d, 0x22a0aa9b, 0x45415536, 0x8a82aa6c, 0xce745299, 0x4799a373,
     0x8f3346e6, 0xc5178b8d, 0x515e115b, 0xa2bc22b6, 0x9e09432d, 0xe763801b, 0x15b60677,
     0x2b6c0cee, 0x56d819dc, 0xadb033b8, 0x80116131, 0xdb53c423, 0x6dd68e07, 0xdbad1c0e,
     0x6c2b3e5d, 0xd8567cba, 0x6bddff35, 0xd7bbfe6a] c"
proof -
  have n: "2 * (64 :: nat) = 128" by simp
  have m: "msquare
    [0x8f352d95, 0xc51b5d6b, 0x5147bc97, 0xa28f792e, 0x9e6ff41d, 0xe7aeee7b, 0x142cdab7,
     0x2859b56e, 0x50b36adc, 0xa166d5b8, 0x99bcad31, 0xe8085c23, 0xb61be07, 0x16c37c0e,
     0x2d86f81c, 0x5b0df038, 0xb61be070, 0xb746c6a1, 0xb5fc8b03, 0xb0881047, 0xba6126cf,
     0xafb34bdf, 0x841791ff, 0xd35e25bf, 0x7dcd4d3f, 0xfb9a9a7e, 0x2c4432bd, 0x5888657a,
     0xb110caf4, 0xb95093a9, 0xa9d02113, 0x88d14467] =
    [0x33fff533, 0x67ffea66, 0xcfffd4cc, 0x448eafd9, 0x891d5fb2, 0xc94bb925, 0x49e6740b,
     0x93cce816, 0xfce8d66d, 0x22a0aa9b, 0x45415536, 0x8a82aa6c, 0xce745299, 0x4799a373,
     0x8f3346e6, 0xc5178b8d, 0x515e115b, 0xa2bc22b6, 0x9e09432d, 0xe763801b, 0x15b60677,
     0x2b6c0cee, 0x56d819dc, 0xadb033b8, 0x80116131, 0xdb53c423, 0x6dd68e07, 0xdbad1c0e,
     0x6c2b3e5d, 0xd8567cba, 0x6bddff35, 0xd7bbfe6a]"
    by code_simp
  from zero_ext_double [OF zero_ext_64] show ?thesis
    by (simp only: m n)
qed

lemma zero_ext_256: "zero_ext 256 c = mapply
    [0xce3371cb, 0x4717e5d7, 0x8e2fcbae, 0xc72e911d, 0x552c247b, 0xaa5848f6, 0x8fc197ad,
     0xc4f2291b, 0x52955477, 0xa52aa8ee, 0x9124579d, 0xf939a97b, 0x290254b7, 0x5204a96e,
     0xa40952dc, 0x9363a3f9, 0xfdb641b3, 0x201d8527, 0x403b0a4e, 0x8076149c, 0xdb9d2f79,
     0x6c4b58b3, 0xd896b166, 0x6a5c648d, 0xd4b8c91a, 0x72009475, 0xe40128ea, 0x13735795,
     0x26e6af2a, 0x4dcd5e54, 0x9b9abca8, 0xec447f11] c"
proof -
  have n: "2 * (128 :: nat) = 256" by simp
  have m: "msquare
    [0x33fff533, 0x67ffea66, 0xcfffd4cc, 0x448eafd9, 0x891d5fb2, 0xc94bb925, 0x49e6740b,
     0x93cce816, 0xfce8d66d, 0x22a0aa9b, 0x45415536, 0x8a82aa6c, 0xce745299, 0x4799a373,
     0x8f3346e6, 0xc5178b8d, 0x515e115b, 0xa2bc22b6, 0x9e09432d, 0xe763801b, 0x15b60677,
     0x2b6c0cee, 0x56d819dc, 0xadb033b8, 0x80116131, 0xdb53c423, 0x6dd68e07, 0xdbad1c0e,
     0x6c2b3e5d, 0xd8567cba, 0x6bddff35, 0xd7bbfe6a] =
    [0xce3371cb, 0x4717e5d7, 0x8e2fcbae, 0xc72e911d, 0x552c247b, 0xaa5848f6, 0x8fc197ad,
     0xc4f2291b, 0x52955477, 0xa52aa8ee, 0x9124579d, 0xf939a97b, 0x290254b7, 0x5204a96e,
     0xa40952dc, 0x9363a3f9, 0xfdb641b3, 0x201d8527, 0x403b0a4e, 0x8076149c, 0xdb9d2f79,
     0x6c4b58b3, 0xd896b166, 0x6a5c648d, 0xd4b8c91a, 0x72009475, 0xe40128ea, 0x13735795,
     0x26e6af2a, 0x4dcd5e54, 0x9b9abca8, 0xec447f11]"
    by code_simp
  from zero_ext_double [OF zero_ext_128] show ?thesis
    by (simp only: m n)
qed

lemma zero_ext_512: "zero_ext 512 c = mapply
    [0x1072db28, 0x20e5b650, 0x41cb6ca0, 0x8396d940, 0xdc5cb4c1, 0x63c86fc3, 0xc790df86,
     0x5450b94d, 0xa8a1729a, 0x8a33e375, 0xcf16c0ab, 0x455c8717, 0x8ab90e2e, 0xce031a1d,
     0x4777327b, 0x8eee64f6, 0xc6adcfad, 0x562a991b, 0xac553236, 0x83db622d, 0xdcc7c21b,
     0x62fe8277, 0xc5fd04ee, 0x508b0f9d, 0xa1161f3a, 0x995d3835, 0xe9cb762b, 0x8e7ea17,
     0x11cfd42e, 0x239fa85c, 0x473f50b8, 0x8e7ea170] c"
proof -
  have n: "2 * (256 :: nat) = 512" by simp
  have m: "msquare
    [0xce3371cb, 0x4717e5d7, 0x8e2fcbae, 0xc72e911d, 0x552c247b, 0xaa5848f6, 0x8fc197ad,
     0xc4f2291b, 0x52955477, 0xa52aa8ee, 0x9124579d, 0xf939a97b, 0x290254b7, 0x5204a96e,
     0xa40952dc, 0x9363a3f9, 0xfdb641b3, 0x201d8527, 0x403b0a4e, 0x8076149c, 0xdb9d2f79,
     0x6c4b58b3, 0xd896b166, 0x6a5c648d, 0xd4b8c91a, 0x72009475, 0xe40128ea, 0x13735795,
     0x26e6af2a, 0x4dcd5e54, 0x9b9abca8, 0xec447f11] =
    [0x1072db28, 0x20e5b650, 0x41cb6ca0, 0x8396d940, 0xdc5cb4c1, 0x63c86fc3, 0xc790df86,
     0x5450b94d, 0xa8a1729a, 0x8a33e375, 0xcf16c0ab, 0x455c8717, 0x8ab90e2e, 0xce031a1d,
     0x4777327b, 0x8eee64f6, 0xc6adcfad, 0x562a991b, 0xac553236, 0x83db622d, 0xdcc7c21b,
     0x62fe8277, 0xc5fd04ee, 0x508b0f9d, 0xa1161f3a, 0x995d3835, 0xe9cb762b, 0x8e7ea17,
     0x11cfd42e, 0x239fa85c, 0x473f50b8, 0x8e7ea170]"
    by code_simp
  from zero_ext_double [OF zero_ext_256] show ?thesis
    by (simp only: m n)
qed

lemma zero_ext_1024: "zero_ext 1024 c = mapply
    [0xf891f16f, 0x2a52e49f, 0x54a5c93e, 0xa94b927c, 0x89e622b9, 0xc8bd4333, 0x4a0b8027,
     0x9417004e, 0xf35f06dd, 0x3dcf0bfb, 0x7b9e17f6, 0xf73c2fec, 0x35095999, 0x6a12b332,
     0xd4256664, 0x733bca89, 0xe6779512, 0x179e2c65, 0x2f3c58ca, 0x5e78b194, 0xbcf16328,
     0xa293c011, 0x9e568663, 0xe7dc0a87, 0x14c9134f, 0x2992269e, 0x53244d3c, 0xa6489a78,
     0x97e032b1, 0xf4b16323, 0x3213c007, 0x6427800e] c"
proof -
  have n: "2 * (512 :: nat) = 1024" by simp
  have m: "msquare
    [0x1072db28, 0x20e5b650, 0x41cb6ca0, 0x8396d940, 0xdc5cb4c1, 0x63c86fc3, 0xc790df86,
     0x5450b94d, 0xa8a1729a, 0x8a33e375, 0xcf16c0ab, 0x455c8717, 0x8ab90e2e, 0xce031a1d,
     0x4777327b, 0x8eee64f6, 0xc6adcfad, 0x562a991b, 0xac553236, 0x83db622d, 0xdcc7c21b,
     0x62fe8277, 0xc5fd04ee, 0x508b0f9d, 0xa1161f3a, 0x995d3835, 0xe9cb762b, 0x8e7ea17,
     0x11cfd42e, 0x239fa85c, 0x473f50b8, 0x8e7ea170] =
    [0xf891f16f, 0x2a52e49f, 0x54a5c93e, 0xa94b927c, 0x89e622b9, 0xc8bd4333, 0x4a0b8027,
     0x9417004e, 0xf35f06dd, 0x3dcf0bfb, 0x7b9e17f6, 0xf73c2fec, 0x35095999, 0x6a12b332,
     0xd4256664, 0x733bca89, 0xe6779512, 0x179e2c65, 0x2f3c58ca, 0x5e78b194, 0xbcf16328,
     0xa293c011, 0x9e568663, 0xe7dc0a87, 0x14c9134f, 0x2992269e, 0x53244d3c, 0xa6489a78,
     0x97e032b1, 0xf4b16323, 0x3213c007, 0x6427800e]"
    by code_simp
  from zero_ext_double [OF zero_ext_512] show ?thesis
    by (simp only: m n)
qed

lemma zero_ext_2048: "zero_ext 2048 c = mapply
    [0x88b6ba63, 0xca1c7287, 0x4f49e34f, 0x9e93c69e, 0xe6568b7d, 0x17dc10bb, 0x2fb82176,
     0x5f7042ec, 0xbee085d8, 0xa6b00df1, 0x96111da3, 0xf7533d07, 0x35d77c4f, 0x6baef89e,
     0xd75df13c, 0x75cae439, 0xeb95c872, 0xc5a96a5, 0x18b52d4a, 0x316a5a94, 0x62d4b528,
     0xc5a96a50, 0x5023d2e1, 0xa047a5c2, 0x9bfe4dc5, 0xec8d9dcb, 0x26a3dd7, 0x4d47bae,
     0x9a8f75c, 0x1351eeb8, 0x26a3dd70, 0x4d47bae0] c"
proof -
  have n: "2 * (1024 :: nat) = 2048" by simp
  have m: "msquare
    [0xf891f16f, 0x2a52e49f, 0x54a5c93e, 0xa94b927c, 0x89e622b9, 0xc8bd4333, 0x4a0b8027,
     0x9417004e, 0xf35f06dd, 0x3dcf0bfb, 0x7b9e17f6, 0xf73c2fec, 0x35095999, 0x6a12b332,
     0xd4256664, 0x733bca89, 0xe6779512, 0x179e2c65, 0x2f3c58ca, 0x5e78b194, 0xbcf16328,
     0xa293c011, 0x9e568663, 0xe7dc0a87, 0x14c9134f, 0x2992269e, 0x53244d3c, 0xa6489a78,
     0x97e032b1, 0xf4b16323, 0x3213c007, 0x6427800e] =
    [0x88b6ba63, 0xca1c7287, 0x4f49e34f, 0x9e93c69e, 0xe6568b7d, 0x17dc10bb, 0x2fb82176,
     0x5f7042ec, 0xbee085d8, 0xa6b00df1, 0x96111da3, 0xf7533d07, 0x35d77c4f, 0x6baef89e,
     0xd75df13c, 0x75cae439, 0xeb95c872, 0xc5a96a5, 0x18b52d4a, 0x316a5a94, 0x62d4b528,
     0xc5a96a50, 0x5023d2e1, 0xa047a5c2, 0x9bfe4dc5, 0xec8d9dcb, 0x26a3dd7, 0x4d47bae,
     0x9a8f75c, 0x1351eeb8, 0x26a3dd70, 0x4d47bae0]"
    by code_simp
  from zero_ext_double [OF zero_ext_1024] show ?thesis
    by (simp only: m n)
qed

lemma zero_ext_4096: "zero_ext 4096 c = mapply
    [0x5ad8a92c, 0xb5b15258, 0xb013a2f1, 0xbb5643a3, 0xaddd8107, 0x80ca044f, 0xdae50edf,
     0x6ebb1bff, 0xdd7637fe, 0x619d69bd, 0xc33ad37a, 0x5d04a0b5, 0xba09416a, 0xaf638495,
     0x85b60f6b, 0xd01d1897, 0x7b4b376f, 0xf6966ede, 0x365ddbfd, 0x6cbbb7fa, 0xd9776ff4,
     0x699fd9a9, 0xd33fb352, 0x7d0e60e5, 0xfa1cc1ca, 0x2f4885d5, 0x5e910baa, 0xbd221754,
     0xa13528e9, 0x991b5793, 0xe947a967, 0x9fe548f] c"
proof -
  have n: "2 * (2048 :: nat) = 4096" by simp
  have m: "msquare
    [0x88b6ba63, 0xca1c7287, 0x4f49e34f, 0x9e93c69e, 0xe6568b7d, 0x17dc10bb, 0x2fb82176,
     0x5f7042ec, 0xbee085d8, 0xa6b00df1, 0x96111da3, 0xf7533d07, 0x35d77c4f, 0x6baef89e,
     0xd75df13c, 0x75cae439, 0xeb95c872, 0xc5a96a5, 0x18b52d4a, 0x316a5a94, 0x62d4b528,
     0xc5a96a50, 0x5023d2e1, 0xa047a5c2, 0x9bfe4dc5, 0xec8d9dcb, 0x26a3dd7, 0x4d47bae,
     0x9a8f75c, 0x1351eeb8, 0x26a3dd70, 0x4d47bae0] =
    [0x5ad8a92c, 0xb5b15258, 0xb013a2f1, 0xbb5643a3, 0xaddd8107, 0x80ca044f, 0xdae50edf,
     0x6ebb1bff, 0xdd7637fe, 0x619d69bd, 0xc33ad37a, 0x5d04a0b5, 0xba09416a, 0xaf638495,
     0x85b60f6b, 0xd01d1897, 0x7b4b376f, 0xf6966ede, 0x365ddbfd, 0x6cbbb7fa, 0xd9776ff4,
     0x699fd9a9, 0xd33fb352, 0x7d0e60e5, 0xfa1cc1ca, 0x2f4885d5, 0x5e910baa, 0xbd221754,
     0xa13528e9, 0x991b5793, 0xe947a967, 0x9fe548f]"
    by code_simp
  from zero_ext_double [OF zero_ext_2048] show ?thesis
    by (simp only: m n)
qed

lemma zero_ext_8192: "zero_ext 8192 c = mapply
    [0xb566f6e2, 0xb1bceb85, 0xb808d14b, 0xab60a4d7, 0x8db04fef, 0xc011999f, 0x5b52357f,
     0xb6a46afe, 0xb639d3bd, 0xb702a13b, 0xb5744437, 0xb1998e2f, 0xb8421a1f, 0xabf5327f,
     0x8c9b62bf, 0xc247c33f, 0x5ffe803f, 0xbffd007e, 0xa48b06bd, 0x92670b3b, 0xffbf1037,
     0x240f262f, 0x481e4c5e, 0x903c98bc, 0xfb083739, 0x2d616833, 0x5ac2d066, 0xb585a0cc,
     0xb07a47d9, 0xbb8589f3, 0xac7a15a7, 0x83852d0f] c"
proof -
  have n: "2 * (4096 :: nat) = 8192" by simp
  have m: "msquare
    [0x5ad8a92c, 0xb5b15258, 0xb013a2f1, 0xbb5643a3, 0xaddd8107, 0x80ca044f, 0xdae50edf,
     0x6ebb1bff, 0xdd7637fe, 0x619d69bd, 0xc33ad37a, 0x5d04a0b5, 0xba09416a, 0xaf638495,
     0x85b60f6b, 0xd01d1897, 0x7b4b376f, 0xf6966ede, 0x365ddbfd, 0x6cbbb7fa, 0xd9776ff4,
     0x699fd9a9, 0xd33fb352, 0x7d0e60e5, 0xfa1cc1ca, 0x2f4885d5, 0x5e910baa, 0xbd221754,
     0xa13528e9, 0x991b5793, 0xe947a967, 0x9fe548f] =
    [0xb566f6e2, 0xb1bceb85, 0xb808d14b, 0xab60a4d7, 0x8db04fef, 0xc011999f, 0x5b52357f,
     0xb6a46afe, 0xb639d3bd, 0xb702a13b, 0xb5744437, 0xb1998e2f, 0xb8421a1f, 0xabf5327f,
     0x8c9b62bf, 0xc247c33f, 0x5ffe803f, 0xbffd007e, 0xa48b06bd, 0x92670b3b, 0xffbf1037,
     0x240f262f, 0x481e4c5e, 0x903c98bc, 0xfb083739, 0x2d616833, 0x5ac2d066, 0xb585a0cc,
     0xb07a47d9, 0xbb8589f3, 0xac7a15a7, 0x83852d0f]"
    by code_simp
  from zero_ext_double [OF zero_ext_4096] show ?thesis
    by (simp only: m n)
qed

lemma zero_ext_16384: "zero_ext 16384 c = mapply
    [0x9d9129bf, 0xe053553f, 0x1bd7ac3f, 0x37af587e, 0x6f5eb0fc, 0xdebd61f8, 0x660bc5b1,
     0xcc178b62, 0x435e1085, 0x86bc210a, 0xd6094455, 0x77638eeb, 0xeec71dd6, 0x6ff3ded,
     0xdfe7bda, 0x1bfcf7b4, 0x37f9ef68, 0x6ff3ded0, 0xdfe7bda0, 0x64be7d01, 0xc97cfa02,
     0x4988f245, 0x9311e48a, 0xfd52cf55, 0x21d498eb, 0x43a931d6, 0x875263ac, 0xd5d5c119,
     0x70da8473, 0xe1b508e6, 0x181b178d, 0x30362f1a] c"
proof -
  have n: "2 * (8192 :: nat) = 16384" by simp
  have m: "msquare
    [0xb566f6e2, 0xb1bceb85, 0xb808d14b, 0xab60a4d7, 0x8db04fef, 0xc011999f, 0x5b52357f,
     0xb6a46afe, 0xb639d3bd, 0xb702a13b, 0xb5744437, 0xb1998e2f, 0xb8421a1f, 0xabf5327f,
     0x8c9b62bf, 0xc247c33f, 0x5ffe803f, 0xbffd007e, 0xa48b06bd, 0x92670b3b, 0xffbf1037,
     0x240f262f, 0x481e4c5e, 0x903c98bc, 0xfb083739, 0x2d616833, 0x5ac2d066, 0xb585a0cc,
     0xb07a47d9, 0xbb8589f3, 0xac7a15a7, 0x83852d0f] =
    [0x9d9129bf, 0xe053553f, 0x1bd7ac3f, 0x37af587e, 0x6f5eb0fc, 0xdebd61f8, 0x660bc5b1,
     0xcc178b62, 0x435e1085, 0x86bc210a, 0xd6094455, 0x77638eeb, 0xeec71dd6, 0x6ff3ded,
     0xdfe7bda, 0x1bfcf7b4, 0x37f9ef68, 0x6ff3ded0, 0xdfe7bda0, 0x64be7d01, 0xc97cfa02,
     0x4988f245, 0x9311e48a, 0xfd52cf55, 0x21d498eb, 0x43a931d6, 0x875263ac, 0xd5d5c119,
     0x70da8473, 0xe1b508e6, 0x181b178d, 0x30362f1a]"
    by code_simp
  from zero_ext_double [OF zero_ext_8192] show ?thesis
    by (simp only: m n)
qed

lemma zero_ext_32768: "zero_ext 32768 c = mapply
    [0x2ee43a2c, 0x5dc87458, 0xbb90e8b0, 0xac50d721, 0x83d0a803, 0xdcd05647, 0x62d1aacf,
     0xc5a3559e, 0x5037ad7d, 0xa06f5afa, 0x9bafb3b5, 0xec2e612b, 0x32dc417, 0x65b882e,
     0xcb7105c, 0x196e20b8, 0x32dc4170, 0x65b882e0, 0xcb7105c0, 0x4d930dc1, 0x9b261b82,
     0xed3d3145, 0x10b64cb, 0x216c996, 0x42d932c, 0x85b2658, 0x10b64cb0, 0x216c9960,
     0x42d932c0, 0x85b26580, 0xd015cd41, 0x7b5a9cc3] c"
proof -
  have n: "2 * (16384 :: nat) = 32768" by simp
  have m: "msquare
    [0x9d9129bf, 0xe053553f, 0x1bd7ac3f, 0x37af587e, 0x6f5eb0fc, 0xdebd61f8, 0x660bc5b1,
     0xcc178b62, 0x435e1085, 0x86bc210a, 0xd6094455, 0x77638eeb, 0xeec71dd6, 0x6ff3ded,
     0xdfe7bda, 0x1bfcf7b4, 0x37f9ef68, 0x6ff3ded0, 0xdfe7bda0, 0x64be7d01, 0xc97cfa02,
     0x4988f245, 0x9311e48a, 0xfd52cf55, 0x21d498eb, 0x43a931d6, 0x875263ac, 0xd5d5c119,
     0x70da8473, 0xe1b508e6, 0x181b178d, 0x30362f1a] =
    [0x2ee43a2c, 0x5dc87458, 0xbb90e8b0, 0xac50d721, 0x83d0a803, 0xdcd05647, 0x62d1aacf,
     0xc5a3559e, 0x5037ad7d, 0xa06f5afa, 0x9bafb3b5, 0xec2e612b, 0x32dc417, 0x65b882e,
     0xcb7105c, 0x196e20b8, 0x32dc4170, 0x65b882e0, 0xcb7105c0, 0x4d930dc1, 0x9b261b82,
     0xed3d3145, 0x10b64cb, 0x216c996, 0x42d932c, 0x85b2658, 0x10b64cb0, 0x216c9960,
     0x42d932c0, 0x85b26580, 0xd015cd41, 0x7b5a9cc3]"
    by code_simp
  from zero_ext_double [OF zero_ext_16384] show ?thesis
    by (simp only: m n)
qed

lemma zero_ext_65536: "zero_ext 65536 c = mapply
    [0x1b4511ee, 0x368a23dc, 0x6d1447b8, 0xda288f70, 0x6f2018a1, 0xde403142, 0x67f164c5,
     0xcfe2c98a, 0x44b49555, 0x89692aaa, 0xc9a35315, 0x4837a06b, 0x906f40d6, 0xfbaf87ed,
     0x2c2e099b, 0x585c1336, 0xb0b8266c, 0xba014a99, 0xaf739373, 0x859620a7, 0xd05d470f,
     0x7bcb885f, 0xf79710be, 0x345f273d, 0x68be4e7a, 0xd17c9cf4, 0x79883fa9, 0xf3107f52,
     0x3d51f8e5, 0x7aa3f1ca, 0xf547e394, 0x31fec169] c"
proof -
  have n: "2 * (32768 :: nat) = 65536" by simp
  have m: "msquare
    [0x2ee43a2c, 0x5dc87458, 0xbb90e8b0, 0xac50d721, 0x83d0a803, 0xdcd05647, 0x62d1aacf,
     0xc5a3559e, 0x5037ad7d, 0xa06f5afa, 0x9bafb3b5, 0xec2e612b, 0x32dc417, 0x65b882e,
     0xcb7105c, 0x196e20b8, 0x32dc4170, 0x65b882e0, 0xcb7105c0, 0x4d930dc1, 0x9b261b82,
     0xed3d3145, 0x10b64cb, 0x216c996, 0x42d932c, 0x85b2658, 0x10b64cb0, 0x216c9960,
     0x42d932c0, 0x85b26580, 0xd015cd41, 0x7b5a9cc3] =
    [0x1b4511ee, 0x368a23dc, 0x6d1447b8, 0xda288f70, 0x6f2018a1, 0xde403142, 0x67f164c5,
     0xcfe2c98a, 0x44b49555, 0x89692aaa, 0xc9a35315, 0x4837a06b, 0x906f40d6, 0xfbaf87ed,
     0x2c2e099b, 0x585c1336, 0xb0b8266c, 0xba014a99, 0xaf739373, 0x859620a7, 0xd05d470f,
     0x7bcb885f, 0xf79710be, 0x345f273d, 0x68be4e7a, 0xd17c9cf4, 0x79883fa9, 0xf3107f52,
     0x3d51f8e5, 0x7aa3f1ca, 0xf547e394, 0x31fec169]"
    by code_simp
  from zero_ext_double [OF zero_ext_32768] show ?thesis
    by (simp only: m n)
qed

lemma zero_ext_131072: "zero_ext 131072 c = mapply
    [0xbce15202, 0xa2b3a245, 0x9e1642cb, 0xe75d83d7, 0x15ca01ef, 0x2b9403de, 0x572807bc,
     0xae500f78, 0x87d118b1, 0xd4d33723, 0x72d76807, 0xe5aed00e, 0x102ca65d, 0x20594cba,
     0x40b29974, 0x816532e8, 0xd9bb6391, 0x6807c163, 0xd00f82c6, 0x7b6e03cd, 0xf6dc079a,
     0x36c90975, 0x6d9212ea, 0xdb2425d4, 0x6d394de9, 0xda729bd2, 0x6f9431e5, 0xdf2863ca,
     0x6521c1d5, 0xca4383aa, 0x4ff60115, 0x9fec022a] c"
proof -
  have n: "2 * (65536 :: nat) = 131072" by simp
  have m: "msquare
    [0x1b4511ee, 0x368a23dc, 0x6d1447b8, 0xda288f70, 0x6f2018a1, 0xde403142, 0x67f164c5,
     0xcfe2c98a, 0x44b49555, 0x89692aaa, 0xc9a35315, 0x4837a06b, 0x906f40d6, 0xfbaf87ed,
     0x2c2e099b, 0x585c1336, 0xb0b8266c, 0xba014a99, 0xaf739373, 0x859620a7, 0xd05d470f,
     0x7bcb885f, 0xf79710be, 0x345f273d, 0x68be4e7a, 0xd17c9cf4, 0x79883fa9, 0xf3107f52,
     0x3d51f8e5, 0x7aa3f1ca, 0xf547e394, 0x31fec169] =
    [0xbce15202, 0xa2b3a245, 0x9e1642cb, 0xe75d83d7, 0x15ca01ef, 0x2b9403de, 0x572807bc,
     0xae500f78, 0x87d118b1, 0xd4d33723, 0x72d76807, 0xe5aed00e, 0x102ca65d, 0x20594cba,
     0x40b29974, 0x816532e8, 0xd9bb6391, 0x6807c163, 0xd00f82c6, 0x7b6e03cd, 0xf6dc079a,
     0x36c90975, 0x6d9212ea, 0xdb2425d4, 0x6d394de9, 0xda729bd2, 0x6f9431e5, 0xdf2863ca,
     0x6521c1d5, 0xca4383aa, 0x4ff60115, 0x9fec022a]"
    by code_simp
  from zero_ext_double [OF zero_ext_65536] show ?thesis
    by (simp only: m n)
qed

lemma zero_ext_262144: "zero_ext 262144 c = mapply
    [0xff08e5ef, 0x2560cd9f, 0x4ac19b3e, 0x9583367c, 0xf0776ab9, 0x3b9fd333, 0x773fa666,
     0xee7f4ccc, 0x78f9fd9, 0xf1f3fb2, 0x1e3e7f64, 0x3c7cfec8, 0x78f9fd90, 0xf1f3fb20,
     0x3896f001, 0x712de002, 0xe25bc004, 0x1fc68649, 0x3f8d0c92, 0x7f1a1924, 0xfe343248,
     0x271962d1, 0x4e32c5a2, 0x9c658b44, 0xe3ba10c9, 0x1c0527d3, 0x380a4fa6, 0x70149f4c,
     0xe0293e98, 0x1b237b71, 0x3646f6e2, 0x6c8dedc4] c"
proof -
  have n: "2 * (131072 :: nat) = 262144" by simp
  have m: "msquare
    [0xbce15202, 0xa2b3a245, 0x9e1642cb, 0xe75d83d7, 0x15ca01ef, 0x2b9403de, 0x572807bc,
     0xae500f78, 0x87d118b1, 0xd4d33723, 0x72d76807, 0xe5aed00e, 0x102ca65d, 0x20594cba,
     0x40b29974, 0x816532e8, 0xd9bb6391, 0x6807c163, 0xd00f82c6, 0x7b6e03cd, 0xf6dc079a,
     0x36c90975, 0x6d9212ea, 0xdb2425d4, 0x6d394de9, 0xda729bd2, 0x6f9431e5, 0xdf2863ca,
     0x6521c1d5, 0xca4383aa, 0x4ff60115, 0x9fec022a] =
    [0xff08e5ef, 0x2560cd9f, 0x4ac19b3e, 0x9583367c, 0xf0776ab9, 0x3b9fd333, 0x773fa666,
     0xee7f4ccc, 0x78f9fd9, 0xf1f3fb2, 0x1e3e7f64, 0x3c7cfec8, 0x78f9fd90, 0xf1f3fb20,
     0x3896f001, 0x712de002, 0xe25bc004, 0x1fc68649, 0x3f8d0c92, 0x7f1a1924, 0xfe343248,
     0x271962d1, 0x4e32c5a2, 0x9c658b44, 0xe3ba10c9, 0x1c0527d3, 0x380a4fa6, 0x70149f4c,
     0xe0293e98, 0x1b237b71, 0x3646f6e2, 0x6c8dedc4]"
    by code_simp
  from zero_ext_double [OF zero_ext_131072] show ?thesis
    by (simp only: m n)
qed

lemma zero_ext_524288: "zero_ext 524288 c = mapply
    [0x6f76172e, 0xdeec2e5c, 0x66a95af9, 0xcd52b5f2, 0x41d46da5, 0x83a8db4a, 0xdc20b0d5,
     0x633067eb, 0xc660cfd6, 0x57b099ed, 0xaf6133da, 0x85b361f5, 0xd017c5ab, 0x7b5e8d17,
     0xf6bd1a2e, 0x360b321d, 0x6c16643a, 0xd82cc874, 0x6b2896a9, 0xd6512d52, 0x77d35ce5,
     0xefa6b9ca, 0x43c75d5, 0x878ebaa, 0x10f1d754, 0x21e3aea8, 0x43c75d50, 0x878ebaa0,
     0xd46c7301, 0x73a9e043, 0xe753c086, 0x15d6874d] c"
proof -
  have n: "2 * (262144 :: nat) = 524288" by simp
  have m: "msquare
    [0xff08e5ef, 0x2560cd9f, 0x4ac19b3e, 0x9583367c, 0xf0776ab9, 0x3b9fd333, 0x773fa666,
     0xee7f4ccc, 0x78f9fd9, 0xf1f3fb2, 0x1e3e7f64, 0x3c7cfec8, 0x78f9fd90, 0xf1f3fb20,
     0x3896f001, 0x712de002, 0xe25bc004, 0x1fc68649, 0x3f8d0c92, 0x7f1a1924, 0xfe343248,
     0x271962d1, 0x4e32c5a2, 0x9c658b44, 0xe3ba10c9, 0x1c0527d3, 0x380a4fa6, 0x70149f4c,
     0xe0293e98, 0x1b237b71, 0x3646f6e2, 0x6c8dedc4] =
    [0x6f76172e, 0xdeec2e5c, 0x66a95af9, 0xcd52b5f2, 0x41d46da5, 0x83a8db4a, 0xdc20b0d5,
     0x633067eb, 0xc660cfd6, 0x57b099ed, 0xaf6133da, 0x85b361f5, 0xd017c5ab, 0x7b5e8d17,
     0xf6bd1a2e, 0x360b321d, 0x6c16643a, 0xd82cc874, 0x6b2896a9, 0xd6512d52, 0x77d35ce5,
     0xefa6b9ca, 0x43c75d5, 0x878ebaa, 0x10f1d754, 0x21e3aea8, 0x43c75d50, 0x878ebaa0,
     0xd46c7301, 0x73a9e043, 0xe753c086, 0x15d6874d]"
    by code_simp
  from zero_ext_double [OF zero_ext_262144] show ?thesis
    by (simp only: m n)
qed

lemma zero_ext_1048576: "zero_ext 1048576 c = mapply
    [0x56f5cab9, 0xadeb9572, 0x80a62ca5, 0xda3d5f0b, 0x6f0bb857, 0xde1770ae, 0x675fe71d,
     0xcebfce3a, 0x460e9a35, 0x8c1d346a, 0xc34b6e95, 0x5de7db6b, 0xbbcfb6d6, 0xacee6bed,
     0x82add19b, 0xde2aa577, 0x67244caf, 0xce48995e, 0x47e034fd, 0x8fc069fa, 0xc4f1d5b5,
     0x5292ad2b, 0xa5255a56, 0x913bb2ed, 0xf906639b, 0x297dc177, 0x52fb82ee, 0xa5f705dc,
     0x909f0df9, 0xfa4f1db3, 0x2fef3d27, 0x5fde7a4e] c"
proof -
  have n: "2 * (524288 :: nat) = 1048576" by simp
  have m: "msquare
    [0x6f76172e, 0xdeec2e5c, 0x66a95af9, 0xcd52b5f2, 0x41d46da5, 0x83a8db4a, 0xdc20b0d5,
     0x633067eb, 0xc660cfd6, 0x57b099ed, 0xaf6133da, 0x85b361f5, 0xd017c5ab, 0x7b5e8d17,
     0xf6bd1a2e, 0x360b321d, 0x6c16643a, 0xd82cc874, 0x6b2896a9, 0xd6512d52, 0x77d35ce5,
     0xefa6b9ca, 0x43c75d5, 0x878ebaa, 0x10f1d754, 0x21e3aea8, 0x43c75d50, 0x878ebaa0,
     0xd46c7301, 0x73a9e043, 0xe753c086, 0x15d6874d] =
    [0x56f5cab9, 0xadeb9572, 0x80a62ca5, 0xda3d5f0b, 0x6f0bb857, 0xde1770ae, 0x675fe71d,
     0xcebfce3a, 0x460e9a35, 0x8c1d346a, 0xc34b6e95, 0x5de7db6b, 0xbbcfb6d6, 0xacee6bed,
     0x82add19b, 0xde2aa577, 0x67244caf, 0xce48995e, 0x47e034fd, 0x8fc069fa, 0xc4f1d5b5,
     0x5292ad2b, 0xa5255a56, 0x913bb2ed, 0xf906639b, 0x297dc177, 0x52fb82ee, 0xa5f705dc,
     0x909f0df9, 0xfa4f1db3, 0x2fef3d27, 0x5fde7a4e]"
    by code_simp
  from zero_ext_double [OF zero_ext_524288] show ?thesis
    by (simp only: m n)
qed

lemma zero_ext_2097152: "zero_ext 2097152 c = mapply
    [0x385993ac, 0x70b32758, 0xe1664eb0, 0x19bd9b21, 0x337b3642, 0x66f66c84, 0xcdecd908,
     0x40a8b451, 0x815168a2, 0xd9d3d705, 0x68d6a84b, 0xd1ad5096, 0x782ba76d, 0xf0574eda,
     0x3bdf9bf5, 0x77bf37ea, 0xef7e6fd4, 0x58dd9e9, 0xb1bb3d2, 0x163767a4, 0x2c6ecf48,
     0x58dd9e90, 0xb1bb3d20, 0xb8077c01, 0xab7ffe43, 0x8d8efac7, 0xc06cf3cf, 0x5ba8e1df,
     0xb751c3be, 0xb5d2813d, 0xb0d4043b, 0xbad90e37] c"
proof -
  have n: "2 * (1048576 :: nat) = 2097152" by simp
  have m: "msquare
    [0x56f5cab9, 0xadeb9572, 0x80a62ca5, 0xda3d5f0b, 0x6f0bb857, 0xde1770ae, 0x675fe71d,
     0xcebfce3a, 0x460e9a35, 0x8c1d346a, 0xc34b6e95, 0x5de7db6b, 0xbbcfb6d6, 0xacee6bed,
     0x82add19b, 0xde2aa577, 0x67244caf, 0xce48995e, 0x47e034fd, 0x8fc069fa, 0xc4f1d5b5,
     0x5292ad2b, 0xa5255a56, 0x913bb2ed, 0xf906639b, 0x297dc177, 0x52fb82ee, 0xa5f705dc,
     0x909f0df9, 0xfa4f1db3, 0x2fef3d27, 0x5fde7a4e] =
    [0x385993ac, 0x70b32758, 0xe1664eb0, 0x19bd9b21, 0x337b3642, 0x66f66c84, 0xcdecd908,
     0x40a8b451, 0x815168a2, 0xd9d3d705, 0x68d6a84b, 0xd1ad5096, 0x782ba76d, 0xf0574eda,
     0x3bdf9bf5, 0x77bf37ea, 0xef7e6fd4, 0x58dd9e9, 0xb1bb3d2, 0x163767a4, 0x2c6ecf48,
     0x58dd9e90, 0xb1bb3d20, 0xb8077c01, 0xab7ffe43, 0x8d8efac7, 0xc06cf3cf, 0x5ba8e1df,
     0xb751c3be, 0xb5d2813d, 0xb0d4043b, 0xbad90e37]"
    by code_simp
  from zero_ext_double [OF zero_ext_1048576] show ?thesis
    by (simp only: m n)
qed

lemma zero_ext_4194304: "zero_ext 4194304 c = mapply
    [0xb4247b20, 0xb339f001, 0xbd02e643, 0xa174cac7, 0x999893cf, 0xe84021df, 0xbf145ff,
     0x17e28bfe, 0x2fc517fc, 0x5f8a2ff8, 0xbf145ff0, 0xa559b9a1, 0x91c27503, 0xf8f5ec47,
     0x2a9adecf, 0x5535bd9e, 0xaa6b7b3c, 0x8fa7f039, 0xc43ee633, 0x530cca27, 0xa619944e,
     0x97422edd, 0xf5f55bfb, 0x309bb1b7, 0x6137636e, 0xc26ec6dc, 0x5fac8bf9, 0xbf5917f2,
     0xa5c329a5, 0x90f7550b, 0xfa9fac57, 0x2e4e5eef] c"
proof -
  have n: "2 * (2097152 :: nat) = 4194304" by simp
  have m: "msquare
    [0x385993ac, 0x70b32758, 0xe1664eb0, 0x19bd9b21, 0x337b3642, 0x66f66c84, 0xcdecd908,
     0x40a8b451, 0x815168a2, 0xd9d3d705, 0x68d6a84b, 0xd1ad5096, 0x782ba76d, 0xf0574eda,
     0x3bdf9bf5, 0x77bf37ea, 0xef7e6fd4, 0x58dd9e9, 0xb1bb3d2, 0x163767a4, 0x2c6ecf48,
     0x58dd9e90, 0xb1bb3d20, 0xb8077c01, 0xab7ffe43, 0x8d8efac7, 0xc06cf3cf, 0x5ba8e1df,
     0xb751c3be, 0xb5d2813d, 0xb0d4043b, 0xbad90e37] =
    [0xb4247b20, 0xb339f001, 0xbd02e643, 0xa174cac7, 0x999893cf, 0xe84021df, 0xbf145ff,
     0x17e28bfe, 0x2fc517fc, 0x5f8a2ff8, 0xbf145ff0, 0xa559b9a1, 0x91c27503, 0xf8f5ec47,
     0x2a9adecf, 0x5535bd9e, 0xaa6b7b3c, 0x8fa7f039, 0xc43ee633, 0x530cca27, 0xa619944e,
     0x97422edd, 0xf5f55bfb, 0x309bb1b7, 0x6137636e, 0xc26ec6dc, 0x5fac8bf9, 0xbf5917f2,
     0xa5c329a5, 0x90f7550b, 0xfa9fac57, 0x2e4e5eef]"
    by code_simp
  from zero_ext_double [OF zero_ext_2097152] show ?thesis
    by (simp only: m n)
qed

lemma zero_ext_8388608: "zero_ext 8388608 c = mapply
    [0x695186a7, 0xd2a30d4e, 0x7e371cdd, 0xfc6e39ba, 0x23ad7535, 0x475aea6a, 0x8eb5d4d4,
     0xc61aafe9, 0x57445993, 0xae88b326, 0x8660600d, 0xd7b1c65b, 0x74128af7, 0xe82515ee,
     0xb3b2d9d, 0x16765b3a, 0x2cecb674, 0x59d96ce8, 0xb3b2d9d0, 0xbc14b5e1, 0xa3586d83,
     0x9dc1dd47, 0xe0f2bccf, 0x1a947fdf, 0x3528ffbe, 0x6a51ff7c, 0xd4a3fef8, 0x7236fbb1,
     0xe46df762, 0x13aae885, 0x2755d10a, 0x4eaba214] c"
proof -
  have n: "2 * (4194304 :: nat) = 8388608" by simp
  have m: "msquare
    [0xb4247b20, 0xb339f001, 0xbd02e643, 0xa174cac7, 0x999893cf, 0xe84021df, 0xbf145ff,
     0x17e28bfe, 0x2fc517fc, 0x5f8a2ff8, 0xbf145ff0, 0xa559b9a1, 0x91c27503, 0xf8f5ec47,
     0x2a9adecf, 0x5535bd9e, 0xaa6b7b3c, 0x8fa7f039, 0xc43ee633, 0x530cca27, 0xa619944e,
     0x97422edd, 0xf5f55bfb, 0x309bb1b7, 0x6137636e, 0xc26ec6dc, 0x5fac8bf9, 0xbf5917f2,
     0xa5c329a5, 0x90f7550b, 0xfa9fac57, 0x2e4e5eef] =
    [0x695186a7, 0xd2a30d4e, 0x7e371cdd, 0xfc6e39ba, 0x23ad7535, 0x475aea6a, 0x8eb5d4d4,
     0xc61aafe9, 0x57445993, 0xae88b326, 0x8660600d, 0xd7b1c65b, 0x74128af7, 0xe82515ee,
     0xb3b2d9d, 0x16765b3a, 0x2cecb674, 0x59d96ce8, 0xb3b2d9d0, 0xbc14b5e1, 0xa3586d83,
     0x9dc1dd47, 0xe0f2bccf, 0x1a947fdf, 0x3528ffbe, 0x6a51ff7c, 0xd4a3fef8, 0x7236fbb1,
     0xe46df762, 0x13aae885, 0x2755d10a, 0x4eaba214]"
    by code_simp
  from zero_ext_double [OF zero_ext_4194304] show ?thesis
    by (simp only: m n)
qed

lemma zero_ext_16777216: "zero_ext 16777216 c = mapply
    [0x66bc001e, 0xcd78003c, 0x41810639, 0x83020c72, 0xdd751ea5, 0x619b3b0b, 0xc3367616,
     0x5d1dea6d, 0xba3bd4da, 0xaf06aff5, 0x857c59ab, 0xd189b517, 0x78626c6f, 0xf0c4d8de,
     0x3af8b7fd, 0x75f16ffa, 0xebe2dff4, 0xcb4b9a9, 0x19697352, 0x32d2e6a4, 0x65a5cd48,
     0xcb4b9a90, 0x4de63361, 0x9bcc66c2, 0xece9cbc5, 0x2a291cb, 0x5452396, 0xa8a472c,
     0x15148e58, 0x2a291cb0, 0x54523960, 0xa8a472c0] c"
proof -
  have n: "2 * (8388608 :: nat) = 16777216" by simp
  have m: "msquare
    [0x695186a7, 0xd2a30d4e, 0x7e371cdd, 0xfc6e39ba, 0x23ad7535, 0x475aea6a, 0x8eb5d4d4,
     0xc61aafe9, 0x57445993, 0xae88b326, 0x8660600d, 0xd7b1c65b, 0x74128af7, 0xe82515ee,
     0xb3b2d9d, 0x16765b3a, 0x2cecb674, 0x59d96ce8, 0xb3b2d9d0, 0xbc14b5e1, 0xa3586d83,
     0x9dc1dd47, 0xe0f2bccf, 0x1a947fdf, 0x3528ffbe, 0x6a51ff7c, 0xd4a3fef8, 0x7236fbb1,
     0xe46df762, 0x13aae885, 0x2755d10a, 0x4eaba214] =
    [0x66bc001e, 0xcd78003c, 0x41810639, 0x83020c72, 0xdd751ea5, 0x619b3b0b, 0xc3367616,
     0x5d1dea6d, 0xba3bd4da, 0xaf06aff5, 0x857c59ab, 0xd189b517, 0x78626c6f, 0xf0c4d8de,
     0x3af8b7fd, 0x75f16ffa, 0xebe2dff4, 0xcb4b9a9, 0x19697352, 0x32d2e6a4, 0x65a5cd48,
     0xcb4b9a90, 0x4de63361, 0x9bcc66c2, 0xece9cbc5, 0x2a291cb, 0x5452396, 0xa8a472c,
     0x15148e58, 0x2a291cb0, 0x54523960, 0xa8a472c0]"
    by code_simp
  from zero_ext_double [OF zero_ext_8388608] show ?thesis
    by (simp only: m n)
qed

lemma zero_ext_33554432: "zero_ext 33554432 c = mapply
    [0xb58b27b3, 0xb0674927, 0xbbbf940f, 0xac0e2e5f, 0x836d5aff, 0xddabb3bf, 0x6026613f,
     0xc04cc27e, 0x5be882bd, 0xb7d1057a, 0xb4d30cb5, 0xb2d71f2b, 0xbedf3817, 0xa6cf766f,
     0x96efea9f, 0xf6aed37f, 0x362ca0bf, 0x6c59417e, 0xd8b282fc, 0x6a1403b9, 0xd4280772,
     0x732108a5, 0xe642114a, 0x17f524d5, 0x2fea49aa, 0x5fd49354, 0xbfa926a8, 0xa4234b11,
     0x93379063, 0xfd1e2687, 0x214d4b4f, 0x429a969e] c"
proof -
  have n: "2 * (16777216 :: nat) = 33554432" by simp
  have m: "msquare
    [0x66bc001e, 0xcd78003c, 0x41810639, 0x83020c72, 0xdd751ea5, 0x619b3b0b, 0xc3367616,
     0x5d1dea6d, 0xba3bd4da, 0xaf06aff5, 0x857c59ab, 0xd189b517, 0x78626c6f, 0xf0c4d8de,
     0x3af8b7fd, 0x75f16ffa, 0xebe2dff4, 0xcb4b9a9, 0x19697352, 0x32d2e6a4, 0x65a5cd48,
     0xcb4b9a90, 0x4de63361, 0x9bcc66c2, 0xece9cbc5, 0x2a291cb, 0x5452396, 0xa8a472c,
     0x15148e58, 0x2a291cb0, 0x54523960, 0xa8a472c0] =
    [0xb58b27b3, 0xb0674927, 0xbbbf940f, 0xac0e2e5f, 0x836d5aff, 0xddabb3bf, 0x6026613f,
     0xc04cc27e, 0x5be882bd, 0xb7d1057a, 0xb4d30cb5, 0xb2d71f2b, 0xbedf3817, 0xa6cf766f,
     0x96efea9f, 0xf6aed37f, 0x362ca0bf, 0x6c59417e, 0xd8b282fc, 0x6a1403b9, 0xd4280772,
     0x732108a5, 0xe642114a, 0x17f524d5, 0x2fea49aa, 0x5fd49354, 0xbfa926a8, 0xa4234b11,
     0x93379063, 0xfd1e2687, 0x214d4b4f, 0x429a969e]"
    by code_simp
  from zero_ext_double [OF zero_ext_16777216] show ?thesis
    by (simp only: m n)
qed

lemma zero_ext_67108864: "zero_ext 67108864 c = mapply
    [0xfe273162, 0x273f6485, 0x4e7ec90a, 0x9cfd9214, 0xe28a2269, 0x1e654293, 0x3cca8526,
     0x79950a4c, 0xf32a1498, 0x3d252f71, 0x7a4a5ee2, 0xf494bdc4, 0x32587dc9, 0x64b0fb92,
     0xc961f724, 0x49b2e809, 0x9365d012, 0xfdbaa665, 0x20044a8b, 0x40089516, 0x80112a2c,
     0xdb535219, 0x6dd7a273, 0xdbaf44e6, 0x6c2f8f8d, 0xd85f1f1a, 0x6bcf3875, 0xd79e70ea,
     0x744de795, 0xe89bcf2a, 0xa469815, 0x148d302a] c"
proof -
  have n: "2 * (33554432 :: nat) = 67108864" by simp
  have m: "msquare
    [0xb58b27b3, 0xb0674927, 0xbbbf940f, 0xac0e2e5f, 0x836d5aff, 0xddabb3bf, 0x6026613f,
     0xc04cc27e, 0x5be882bd, 0xb7d1057a, 0xb4d30cb5, 0xb2d71f2b, 0xbedf3817, 0xa6cf766f,
     0x96efea9f, 0xf6aed37f, 0x362ca0bf, 0x6c59417e, 0xd8b282fc, 0x6a1403b9, 0xd4280772,
     0x732108a5, 0xe642114a, 0x17f524d5, 0x2fea49aa, 0x5fd49354, 0xbfa926a8, 0xa4234b11,
     0x93379063, 0xfd1e2687, 0x214d4b4f, 0x429a969e] =
    [0xfe273162, 0x273f6485, 0x4e7ec90a, 0x9cfd9214, 0xe28a2269, 0x1e654293, 0x3cca8526,
     0x79950a4c, 0xf32a1498, 0x3d252f71, 0x7a4a5ee2, 0xf494bdc4, 0x32587dc9, 0x64b0fb92,
     0xc961f724, 0x49b2e809, 0x9365d012, 0xfdbaa665, 0x20044a8b, 0x40089516, 0x80112a2c,
     0xdb535219, 0x6dd7a273, 0xdbaf44e6, 0x6c2f8f8d, 0xd85f1f1a, 0x6bcf3875, 0xd79e70ea,
     0x744de795, 0xe89bcf2a, 0xa469815, 0x148d302a]"
    by code_simp
  from zero_ext_double [OF zero_ext_33554432] show ?thesis
    by (simp only: m n)
qed

lemma zero_ext_134217728: "zero_ext 134217728 c = mapply
    [0xd3c98813, 0x7ce21667, 0xf9c42cce, 0x28f95fdd, 0x51f2bfba, 0xa3e57f74, 0x9cbbf8a9,
     0xe206f713, 0x1f7ce867, 0x3ef9d0ce, 0x7df3a19c, 0xfbe74338, 0x2cbf8031, 0x597f0062,
     0xb2fe00c4, 0xbe8d07c9, 0xa66b09d3, 0x97a715e7, 0xf43f2d8f, 0x330f5d5f, 0x661ebabe,
     0xcc3d757c, 0x430becb9, 0x8617d972, 0xd75eb4a5, 0x75cc6f0b, 0xeb98de16, 0xc40ba6d,
     0x188174da, 0x3102e9b4, 0x6205d368, 0xc40ba6d0] c"
proof -
  have n: "2 * (67108864 :: nat) = 134217728" by simp
  have m: "msquare
    [0xfe273162, 0x273f6485, 0x4e7ec90a, 0x9cfd9214, 0xe28a2269, 0x1e654293, 0x3cca8526,
     0x79950a4c, 0xf32a1498, 0x3d252f71, 0x7a4a5ee2, 0xf494bdc4, 0x32587dc9, 0x64b0fb92,
     0xc961f724, 0x49b2e809, 0x9365d012, 0xfdbaa665, 0x20044a8b, 0x40089516, 0x80112a2c,
     0xdb535219, 0x6dd7a273, 0xdbaf44e6, 0x6c2f8f8d, 0xd85f1f1a, 0x6bcf3875, 0xd79e70ea,
     0x744de795, 0xe89bcf2a, 0xa469815, 0x148d302a] =
    [0xd3c98813, 0x7ce21667, 0xf9c42cce, 0x28f95fdd, 0x51f2bfba, 0xa3e57f74, 0x9cbbf8a9,
     0xe206f713, 0x1f7ce867, 0x3ef9d0ce, 0x7df3a19c, 0xfbe74338, 0x2cbf8031, 0x597f0062,
     0xb2fe00c4, 0xbe8d07c9, 0xa66b09d3, 0x97a715e7, 0xf43f2d8f, 0x330f5d5f, 0x661ebabe,
     0xcc3d757c, 0x430becb9, 0x8617d972, 0xd75eb4a5, 0x75cc6f0b, 0xeb98de16, 0xc40ba6d,
     0x188174da, 0x3102e9b4, 0x6205d368, 0xc40ba6d0]"
    by code_simp
  from zero_ext_double [OF zero_ext_67108864] show ?thesis
    by (simp only: m n)
qed

lemma zero_ext_268435456: "zero_ext 268435456 c = mapply
    [0xf7d6deb4, 0x34dcbb29, 0x69b97652, 0xd372eca4, 0x7d94df09, 0xfb29be12, 0x2d227a65,
     0x5a44f4ca, 0xb489e994, 0xb262d569, 0xbfb4ac93, 0xa4185f67, 0x9341b88f, 0xfdf2775f,
     0x2095e8ff, 0x412bd1fe, 0x8257a3fc, 0xdfde41b9, 0x64cd8533, 0xc99b0a66, 0x4847128d,
     0x908e251a, 0xfa6d4c75, 0x2fab9eab, 0x5f573d56, 0xbeae7aac, 0xa62df319, 0x972ae073,
     0xf524c6a7, 0x31388b0f, 0x6271161e, 0xc4e22c3c] c"
proof -
  have n: "2 * (134217728 :: nat) = 268435456" by simp
  have m: "msquare
    [0xd3c98813, 0x7ce21667, 0xf9c42cce, 0x28f95fdd, 0x51f2bfba, 0xa3e57f74, 0x9cbbf8a9,
     0xe206f713, 0x1f7ce867, 0x3ef9d0ce, 0x7df3a19c, 0xfbe74338, 0x2cbf8031, 0x597f0062,
     0xb2fe00c4, 0xbe8d07c9, 0xa66b09d3, 0x97a715e7, 0xf43f2d8f, 0x330f5d5f, 0x661ebabe,
     0xcc3d757c, 0x430becb9, 0x8617d972, 0xd75eb4a5, 0x75cc6f0b, 0xeb98de16, 0xc40ba6d,
     0x188174da, 0x3102e9b4, 0x6205d368, 0xc40ba6d0] =
    [0xf7d6deb4, 0x34dcbb29, 0x69b97652, 0xd372eca4, 0x7d94df09, 0xfb29be12, 0x2d227a65,
     0x5a44f4ca, 0xb489e994, 0xb262d569, 0xbfb4ac93, 0xa4185f67, 0x9341b88f, 0xfdf2775f,
     0x2095e8ff, 0x412bd1fe, 0x8257a3fc, 0xdfde41b9, 0x64cd8533, 0xc99b0a66, 0x4847128d,
     0x908e251a, 0xfa6d4c75, 0x2fab9eab, 0x5f573d56, 0xbeae7aac, 0xa62df319, 0x972ae073,
     0xf524c6a7, 0x31388b0f, 0x6271161e, 0xc4e22c3c]"
    by code_simp
  from zero_ext_double [OF zero_ext_134217728] show ?thesis
    by (simp only: m n)
qed

lemma zero_ext_536870912: "zero_ext 536870912 c = mapply
    [0xedb88320, 0x1, 0x2, 0x4, 0x8, 0x10, 0x20, 0x40, 0x80, 0x100, 0x200, 0x400, 0x800,
     0x1000, 0x2000, 0x4000, 0x8000, 0x10000, 0x20000, 0x40000, 0x80000, 0x100000, 0x200000,
     0x400000, 0x800000, 0x1000000, 0x2000000, 0x4000000, 0x8000000, 0x10000000, 0x20000000,
     0x40000000] c"
proof -
  have n: "2 * (268435456 :: nat) = 536870912" by simp
  have m: "msquare
    [0xf7d6deb4, 0x34dcbb29, 0x69b97652, 0xd372eca4, 0x7d94df09, 0xfb29be12, 0x2d227a65,
     0x5a44f4ca, 0xb489e994, 0xb262d569, 0xbfb4ac93, 0xa4185f67, 0x9341b88f, 0xfdf2775f,
     0x2095e8ff, 0x412bd1fe, 0x8257a3fc, 0xdfde41b9, 0x64cd8533, 0xc99b0a66, 0x4847128d,
     0x908e251a, 0xfa6d4c75, 0x2fab9eab, 0x5f573d56, 0xbeae7aac, 0xa62df319, 0x972ae073,
     0xf524c6a7, 0x31388b0f, 0x6271161e, 0xc4e22c3c] =
    [0xedb88320, 0x1, 0x2, 0x4, 0x8, 0x10, 0x20, 0x40, 0x80, 0x100, 0x200, 0x400, 0x800,
     0x1000, 0x2000, 0x4000, 0x8000, 0x10000, 0x20000, 0x40000, 0x80000, 0x100000, 0x200000,
     0x400000, 0x800000, 0x1000000, 0x2000000, 0x4000000, 0x8000000, 0x10000000, 0x20000000,
     0x40000000]"
    by code_simp
  from zero_ext_double [OF zero_ext_268435456] show ?thesis
    by (simp only: m n)
qed

lemma zero_ext_1073741824: "zero_ext 1073741824 c = mapply
    [0x76dc4190, 0xedb88320, 0x1, 0x2, 0x4, 0x8, 0x10, 0x20, 0x40, 0x80, 0x100, 0x200, 0x400,
     0x800, 0x1000, 0x2000, 0x4000, 0x8000, 0x10000, 0x20000, 0x40000, 0x80000, 0x100000,
     0x200000, 0x400000, 0x800000, 0x1000000, 0x2000000, 0x4000000, 0x8000000, 0x10000000,
     0x20000000] c"
proof -
  have n: "2 * (536870912 :: nat) = 1073741824" by simp
  have m: "msquare
    [0xedb88320, 0x1, 0x2, 0x4, 0x8, 0x10, 0x20, 0x40, 0x80, 0x100, 0x200, 0x400, 0x800,
     0x1000, 0x2000, 0x4000, 0x8000, 0x10000, 0x20000, 0x40000, 0x80000, 0x100000, 0x200000,
     0x400000, 0x800000, 0x1000000, 0x2000000, 0x4000000, 0x8000000, 0x10000000, 0x20000000,
     0x40000000] =
    [0x76dc4190, 0xedb88320, 0x1, 0x2, 0x4, 0x8, 0x10, 0x20, 0x40, 0x80, 0x100, 0x200, 0x400,
     0x800, 0x1000, 0x2000, 0x4000, 0x8000, 0x10000, 0x20000, 0x40000, 0x80000, 0x100000,
     0x200000, 0x400000, 0x800000, 0x1000000, 0x2000000, 0x4000000, 0x8000000, 0x10000000,
     0x20000000]"
    by code_simp
  from zero_ext_double [OF zero_ext_536870912] show ?thesis
    by (simp only: m n)
qed

lemma zero_ext_2147483648: "zero_ext 2147483648 c = mapply
    [0x1db71064, 0x3b6e20c8, 0x76dc4190, 0xedb88320, 0x1, 0x2, 0x4, 0x8, 0x10, 0x20, 0x40,
     0x80, 0x100, 0x200, 0x400, 0x800, 0x1000, 0x2000, 0x4000, 0x8000, 0x10000, 0x20000,
     0x40000, 0x80000, 0x100000, 0x200000, 0x400000, 0x800000, 0x1000000, 0x2000000,
     0x4000000, 0x8000000] c"
proof -
  have n: "2 * (1073741824 :: nat) = 2147483648" by simp
  have m: "msquare
    [0x76dc4190, 0xedb88320, 0x1, 0x2, 0x4, 0x8, 0x10, 0x20, 0x40, 0x80, 0x100, 0x200, 0x400,
     0x800, 0x1000, 0x2000, 0x4000, 0x8000, 0x10000, 0x20000, 0x40000, 0x80000, 0x100000,
     0x200000, 0x400000, 0x800000, 0x1000000, 0x2000000, 0x4000000, 0x8000000, 0x10000000,
     0x20000000] =
    [0x1db71064, 0x3b6e20c8, 0x76dc4190, 0xedb88320, 0x1, 0x2, 0x4, 0x8, 0x10, 0x20, 0x40,
     0x80, 0x100, 0x200, 0x400, 0x800, 0x1000, 0x2000, 0x4000, 0x8000, 0x10000, 0x20000,
     0x40000, 0x80000, 0x100000, 0x200000, 0x400000, 0x800000, 0x1000000, 0x2000000,
     0x4000000, 0x8000000]"
    by code_simp
  from zero_ext_double [OF zero_ext_1073741824] show ?thesis
    by (simp only: m n)
qed

lemma zero_ext_4294967296: "zero_ext 4294967296 c = mapply
    [0x77073096, 0xee0e612c, 0x76dc419, 0xedb8832, 0x1db71064, 0x3b6e20c8, 0x76dc4190,
     0xedb88320, 0x1, 0x2, 0x4, 0x8, 0x10, 0x20, 0x40, 0x80, 0x100, 0x200, 0x400, 0x800,
     0x1000, 0x2000, 0x4000, 0x8000, 0x10000, 0x20000, 0x40000, 0x80000, 0x100000, 0x200000,
     0x400000, 0x800000] c"
proof -
  have n: "2 * (2147483648 :: nat) = 4294967296" by simp
  have m: "msquare
    [0x1db71064, 0x3b6e20c8, 0x76dc4190, 0xedb88320, 0x1, 0x2, 0x4, 0x8, 0x10, 0x20, 0x40,
     0x80, 0x100, 0x200, 0x400, 0x800, 0x1000, 0x2000, 0x4000, 0x8000, 0x10000, 0x20000,
     0x40000, 0x80000, 0x100000, 0x200000, 0x400000, 0x800000, 0x1000000, 0x2000000,
     0x4000000, 0x8000000] =
    [0x77073096, 0xee0e612c, 0x76dc419, 0xedb8832, 0x1db71064, 0x3b6e20c8, 0x76dc4190,
     0xedb88320, 0x1, 0x2, 0x4, 0x8, 0x10, 0x20, 0x40, 0x80, 0x100, 0x200, 0x400, 0x800,
     0x1000, 0x2000, 0x4000, 0x8000, 0x10000, 0x20000, 0x40000, 0x80000, 0x100000, 0x200000,
     0x400000, 0x800000]"
    by code_simp
  from zero_ext_double [OF zero_ext_2147483648] show ?thesis
    by (simp only: m n)
qed

subsection \<open>A member of \<open>2^32\<close> zero bytes\<close>

lemma plain_blob_slice:
  assumes "length T = 8"
  shows "getDeflateSlice ([0x1f, 0x8b, 8, 0, ma, mb, mc, md, xfl, os] @ P @ T) = Some (P, True)"
  using assms
  by (simp add: getDeflateSlice_def getHeaderLength_def headerLength_extra_def
      headerLength_name_def headerLength_comment_def headerLength_hdrcrc_def
      index_at_def slice_def Let_def gzipID1_def gzipID2_def gzipDeflate_def)

lemma flate_Flush_quiet:
  "script s = [] \<Longrightarrow> flate_Flush s = (None, s\<lparr>calls := calls s @ [FlateFlush]\<rparr>)"
  by (simp add: flate_Flush_def call_def next_result_def)

lemma flate_Close_quiet:
  "script s = [] \<Longrightarrow> flate_Close s = (None, s\<lparr>calls := calls s @ [FlateClose]\<rparr>)"
  by (simp add: flate_Close_def call_def next_result_def)

lemma WriteCompressed_blob_quiet:
  assumes "script (w z) = []" "18 \<le> length p" "getDeflateSlice p = Some (P, True)"
    "Uint32 (take 4 (drop (length p - 8) p)) = Some tc"
    "Uint32 (take 4 (drop (length p - 4) p)) = Some tlen"
    "crc32Combine (digest z) tc (uint tlen) = Some dg"
  shows "WriteCompressed_blob n p z =
     Some ((int (length P), None),
           z\<lparr>w := (w z)\<lparr>calls := calls (w z) @ [SinkWrite Payload P]\<rparr>, err := None,
             digest := dg, size_u32 := size_u32 z + tlen\<rparr>)"
proof -
  let ?l = "int (length p)"
  have s1: "slice p (?l - 8) (?l - 4) = Some (take 4 (drop (length p - 8) p))"
    using assms(2) by (simp add: slice_def nat_diff_distrib)
  have s2: "slice_from p (?l - 4) = Some (take 4 (drop (length p - 4) p))"
    using assms(2) by (simp add: slice_from_def slice_def nat_diff_distrib)
  from assms s1 s2 show ?thesis
    by (simp add: WriteCompressed_blob_def Let_def w_Write_quiet)
qed


lemma WriteCompressed_quiet:
  assumes z: "err z = None" "script (w z) = []" "encodable z"
    "(case compressor z of None \<Rightarrow> flate_NewWriter (level z) | Some c \<Rightarrow> Some c) = Some c"
    and p: "18 \<le> length p" "getDeflateSlice p = Some (P, True)"
    "Uint32 (take 4 (drop (length p - 8) p)) = Some tc"
    "Uint32 (take 4 (drop (length p - 4) p)) = Some tlen"
    "crc32Combine (digest z) tc (uint tlen) = Some dg"
  shows "\<exists>z'. WriteCompressed p z = Some ((int (length P), None), z') \<and>
      err z' = None \<and> script (w z') = [] \<and> digest z' = dg \<and>
      size_u32 z' = size_u32 z + tlen \<and> compressor z' = Some c \<and>
      checkWroteHeader z' \<and> checkClosed z' = checkClosed z \<and>
      calls (w z') = calls (w z) @ header_calls z @
        (if checkActiveDeflateStream z then [FlateFlush] else []) @ [SinkWrite Payload P]"
proof -
  define zh where "zh = z\<lparr>w := (w z)\<lparr>calls := calls (w z) @ header_calls z\<rparr>,
       compressor := Some c, err := None, stateFlags := stateFlags (setWroteHeader True z)\<rparr>"
  have wh: "writeHeader z = ((10, None), zh)"
    unfolding zh_def using writeHeader_quiet [OF z(2,3)] z(4) by simp
  have zh: "err zh = None" "zh\<lparr>err := None\<rparr> = zh" "compressor zh = Some c"
    "script (w zh) = []" "digest zh = digest z" "size_u32 zh = size_u32 z"
    "calls (w zh) = calls (w z) @ header_calls z"
    unfolding zh_def using z(2) by simp_all
  have fl: "checkActiveDeflateStream zh = checkActiveDeflateStream z" "checkWroteHeader zh"
    "checkClosed zh = checkClosed z"
    unfolding zh_def
    by (simp_all add: checkActiveDeflateStream_bit checkWroteHeader_bit checkClosed_bit
        bit_setWroteHeader)
  show ?thesis
  proof (cases "checkActiveDeflateStream z")
    case False
    have "crc32Combine (digest zh) tc (uint tlen) = Some dg" using p(5) zh(5) by simp
    from WriteCompressed_blob_quiet [OF zh(4) p(1,2,3,4) this, of 10]
    have "WriteCompressed p z = Some ((int (length P), None),
           zh\<lparr>w := (w zh)\<lparr>calls := calls (w zh) @ [SinkWrite Payload P]\<rparr>, err := None,
             digest := dg, size_u32 := size_u32 zh + tlen\<rparr>)"
      using z(1) wh zh(1) fl(1) False by (simp add: WriteCompressed_def Let_def zh(2))
    with zh fl False show ?thesis
      by (simp add: checkWroteHeader_bit checkClosed_bit)
  next
    case True
    define zf where "zf = setActiveDeflateStream False
        (zh\<lparr>w := (w zh)\<lparr>calls := calls (w zh) @ [FlateFlush]\<rparr>, err := None\<rparr>)"
    have zf: "script (w zf) = []" "digest zf = digest z" "size_u32 zf = size_u32 z"
      "calls (w zf) = calls (w z) @ header_calls z @ [FlateFlush]" "compressor zf = Some c"
      unfolding zf_def using zh by (simp_all add: setActiveDeflateStream_proj)
    have ff: "checkWroteHeader zf" "checkClosed zf = checkClosed z"
      unfolding zf_def using fl
      by (simp_all add: checkWroteHeader_bit checkClosed_bit bit_setActiveDeflateStream)
    have "crc32Combine (digest zf) tc (uint tlen) = Some dg" using p(5) zf(2) by simp
    from WriteCompressed_blob_quiet [OF zf(1) p(1,2,3,4) this, of 10]
    have "WriteCompressed p z = Some ((int (length P), None),
           zf\<lparr>w := (w zf)\<lparr>calls := calls (w zf) @ [SinkWrite Payload P]\<rparr>, err := None,
             digest := dg, size_u32 := size_u32 zf + tlen\<rparr>)"
      using z(1) wh zh(1,3,4) fl(1) True
      by (simp add: WriteCompressed_def Let_def flate_Flush_quiet zf_def zh(2))
    with zf ff True show ?thesis
      by (simp add: checkWroteHeader_bit checkClosed_bit)
  qed
qed

lemma Close_quiet:
  assumes "err z = None" "script (w z) = []" "compressor z = Some c" "checkWroteHeader z"
    "\<not> checkClosed z"
  shows "\<exists>z'. Close z = Some (None, z') \<and>
      calls (w z') = calls (w z) @
        [FlateClose, SinkWrite Trailer (PutUint32 (digest z) @ PutUint32 (size_u32 z))]"
proof -
  have c: "checkWroteHeader (setClosed True z)"
    using assms(4) by (simp add: checkWroteHeader_bit bit_setClosed)
  from assms c show ?thesis
    by (simp add: Close_def Let_def setClosed_proj flate_Close_quiet w_Write_quiet)
qed


lemma Write_quiet_result:
  assumes "err z = None" "script (w z) = []" "encodable z" "\<not> checkWroteHeader z"
    "(case compressor z of None \<Rightarrow> flate_NewWriter (level z) | Some c \<Rightarrow> Some c) = Some c"
  shows "Write p z = Some ((int (length p), None),
      z\<lparr>w := (w z)\<lparr>calls := calls (w z) @ header_calls z @ [FlateWrite p]\<rparr>,
        compressor := Some c, err := None, digest := crc32_Update (digest z) p,
        size_u32 := size_u32 z + of_nat (length p),
        stateFlags := stateFlags (setActiveDeflateStream True (setWroteHeader True z))\<rparr>)"
  using assms(1,2,4,5)
  by (simp add: Write_def Let_def writeHeader_quiet [OF assms(2,3)] flate_Write_quiet
      setActiveDeflateStream_def)

lemma drop_trailer: "length T = 8 \<Longrightarrow> drop (length (H @ P @ T) - 8) (H @ P @ T) = T"
  by simp

lemma drop_trailer_length:
  assumes "length T = 8"
  shows "drop (length (H @ P @ T) - 4) (H @ P @ T) = drop 4 T"
proof -
  have a: "drop (length X + 4) (X @ T) = drop 4 T" for X :: "'a list" by simp
  from assms have "length (H @ P @ T) - 4 = length (H @ P) + 4" by simp
  with a [of "H @ P"] show ?thesis by simp
qed

lemma ChecksumIEEE_zero_ext:
  "ChecksumIEEE (X @ replicate n 0) = NOT (zero_ext n (crc_loop 0xffffffff X))"
proof -
  have "NOT (0 :: uint32) = 0xffffffff" by simp
  then show ?thesis
    by (simp only: ChecksumIEEE_def crc32_Update_def crc_loop_append zero_ext_def)
qed

lemma crc_of_4GiB_zeros: "ChecksumIEEE (replicate 4294967296 0) = 0xd202ef8d"
proof -
  have a: "crc_loop 0xffffffff [] = 0xffffffff" by simp
  have b: "NOT (0x2dfd1072 :: uint32) = 0xd202ef8d" by simp
  have "mapply
    [0x77073096, 0xee0e612c, 0x76dc419, 0xedb8832, 0x1db71064, 0x3b6e20c8, 0x76dc4190,
     0xedb88320, 0x1, 0x2, 0x4, 0x8, 0x10, 0x20, 0x40, 0x80, 0x100, 0x200, 0x400, 0x800,
     0x1000, 0x2000, 0x4000, 0x8000, 0x10000, 0x20000, 0x40000, 0x80000, 0x100000, 0x200000,
     0x400000, 0x800000] 0xffffffff = 0x2dfd1072"
    by code_simp
  with ChecksumIEEE_zero_ext [of "[]" 4294967296] show ?thesis
    by (simp only: zero_ext_4294967296 a b append_Nil)
qed

lemma crc_of_A_and_4GiB_zeros:
  "ChecksumIEEE ([0x41] @ replicate 4294967296 0) = 0xa8bb6cbb"
proof -
  have a: "crc_loop 0xffffffff [0x41] = 0x2c266174" by code_simp
  have b: "NOT (0x57449344 :: uint32) = 0xa8bb6cbb" by simp
  have "mapply
    [0x77073096, 0xee0e612c, 0x76dc419, 0xedb8832, 0x1db71064, 0x3b6e20c8, 0x76dc4190,
     0xedb88320, 0x1, 0x2, 0x4, 0x8, 0x10, 0x20, 0x40, 0x80, 0x100, 0x200, 0x400, 0x800,
     0x1000, 0x2000, 0x4000, 0x8000, 0x10000, 0x20000, 0x40000, 0x80000, 0x100000, 0x200000,
     0x400000, 0x800000] 0x2c266174 = 0x57449344"
    by code_simp
  with ChecksumIEEE_zero_ext [of "[0x41]" 4294967296] show ?thesis
    by (simp only: zero_ext_4294967296 a b)
qed

lemma gzip_of_4GiB_zeros:
  "gzip_of ([0x1f, 0x8b, 8, 0, 0, 0, 0, 0, 0, 0xff] @ P @ [0x8d, 0xef, 0x02, 0xd2, 0, 0, 0, 0])
           (replicate 4294967296 0)"
proof -
  let ?T = "[0x8d, 0xef, 0x02, 0xd2, 0, 0, 0, 0] :: byte list"
  have lT: "length ?T = 8" by simp
  have t: "PutUint32 0xd202ef8d @ PutUint32 0 = ?T" by code_simp
  have l: "(of_nat (length (replicate 4294967296 (0 :: byte))) :: uint32) = 0" by simp
  show ?thesis
    unfolding gzip_of_def
    by (simp only: plain_blob_slice [OF lT] drop_trailer [OF lT] crc_of_4GiB_zeros l t)
       simp
qed

lemma splice_run:
  "\<exists>z1 z2 evs.
     run [OpWrite [0x41],
          OpWriteCompressed ([0x1f, 0x8b, 8, 0, 0, 0, 0, 0, 0, 0xff] @ P @
                             [0x8d, 0xef, 0x02, 0xd2, 0, 0, 0, 0])]
         (NewGzipStreamWriter (fresh_dest [])) = Some z1
     \<and> digest z1 = 0x01db7106 \<and> size_u32 z1 = 1
     \<and> Close z1 = Some (None, z2)
     \<and> calls (w z2) = evs @ [SinkWrite Trailer [0x06, 0x71, 0xdb, 0x01, 1, 0, 0, 0]]"
proof -
  let ?new = "NewGzipStreamWriter (fresh_dest [])"
  let ?H = "[0x1f, 0x8b, 8, 0, 0, 0, 0, 0, 0, 0xff] :: byte list"
  let ?T = "[0x8d, 0xef, 0x02, 0xd2, 0, 0, 0, 0] :: byte list"
  let ?p = "?H @ P @ ?T"
  define zA where "zA = ?new\<lparr>w := (w ?new)\<lparr>calls := calls (w ?new) @ header_calls ?new @ [FlateWrite [0x41]]\<rparr>,
        compressor := Some (FlateWriter (- 1)), err := None,
        digest := crc32_Update (digest ?new) [0x41],
        size_u32 := size_u32 ?new + of_nat (length [0x41 :: byte]),
        stateFlags := stateFlags (setActiveDeflateStream True (setWroteHeader True ?new))\<rparr>"
  have n: "err ?new = None" "script (w ?new) = []" "encodable ?new" "\<not> checkWroteHeader ?new"
    "(case compressor ?new of None \<Rightarrow> flate_NewWriter (level ?new) | Some c \<Rightarrow> Some c)
       = Some (FlateWriter (- 1))"
    "digest ?new = 0" "size_u32 ?new = 0" "\<not> checkClosed ?new"
    by code_simp+
  have wA: "Write [0x41] ?new = Some ((1, None), zA)"
    unfolding zA_def using Write_quiet_result [OF n(1,2,3,4,5), of "[0x41]"] by simp
  have crcA: "crc32_Update 0 [0x41] = 0xd3d99e8b" by code_simp
  have zA: "err zA = None" "script (w zA) = []" "compressor zA = Some (FlateWriter (- 1))"
    "digest zA = 0xd3d99e8b" "size_u32 zA = 1"
    unfolding zA_def using n(2,6,7) crcA by simp_all
  have encA: "encodable zA" using n(3) unfolding zA_def by (simp add: encodable_def)
  have clA: "\<not> checkClosed zA" using n(8) unfolding zA_def
    by (simp add: checkClosed_bit bit_setActiveDeflateStream bit_setWroteHeader)
  have cA: "(case compressor zA of None \<Rightarrow> flate_NewWriter (level zA) | Some c \<Rightarrow> Some c)
       = Some (FlateWriter (- 1))"
    using zA(3) by simp
  have lT: "length ?T = 8" by simp
  have p1: "18 \<le> length ?p" by simp
  have p2: "getDeflateSlice ?p = Some (P, True)"
    by (rule plain_blob_slice [OF lT])
  have "Uint32 (take 4 ?T) = Some 0xd202ef8d" by code_simp
  then have p3: "Uint32 (take 4 (drop (length ?p - 8) ?p)) = Some 0xd202ef8d"
    by (simp only: drop_trailer [OF lT])
  have "Uint32 (take 4 (drop 4 ?T)) = Some 0" by code_simp
  then have p4: "Uint32 (take 4 (drop (length ?p - 4) ?p)) = Some 0"
    by (simp only: drop_trailer_length [OF lT])
  have "crc32Combine 0xd3d99e8b 0xd202ef8d (uint (0 :: uint32)) = Some 0x01db7106" by code_simp
  then have p5: "crc32Combine (digest zA) 0xd202ef8d (uint (0 :: uint32)) = Some 0x01db7106"
    by (simp only: zA(4))
  from WriteCompressed_quiet [OF zA(1,2) encA cA p1 p2 p3 p4 p5] obtain z1 where
    z1: "WriteCompressed ?p zA = Some ((int (length P), None), z1)"
      "err z1 = None" "script (w z1) = []" "digest z1 = 0x01db7106"
      "size_u32 z1 = size_u32 zA + 0" "compressor z1 = Some (FlateWriter (- 1))"
      "checkWroteHeader z1" "checkClosed z1 = checkClosed zA"
    by blast
  have cl1: "\<not> checkClosed z1" using z1(8) clA by simp
  from Close_quiet [OF z1(2,3,6,7) cl1] obtain z2 where
    z2: "Close z1 = Some (None, z2)"
      "calls (w z2) = calls (w z1) @
        [FlateClose, SinkWrite Trailer (PutUint32 (digest z1) @ PutUint32 (size_u32 z1))]"
    by blast
  have s1: "size_u32 z1 = 1" using z1(5) zA(5) by simp
  have tr: "PutUint32 0x01db7106 @ PutUint32 1 = [0x06, 0x71, 0xdb, 0x01, 1, 0, 0, 0]"
    by code_simp
  have r: "run [OpWrite [0x41], OpWriteCompressed ?p] ?new = Some z1"
    using wA z1(1) by simp
  have c2: "calls (w z2) = (calls (w z1) @ [FlateClose]) @
      [SinkWrite Trailer [0x06, 0x71, 0xdb, 0x01, 1, 0, 0, 0]]"
    using z2(2) tr by (simp only: z1(4) s1 append_assoc append.simps)
  from r z1(4) s1 z2(1) c2 show ?thesis by blast
qed

text \<open>
  Claim C1. After any sequence of \<^verbatim>\<open>Write\<close> and \<^verbatim>\<open>WriteCompressed\<close> calls on a new writer and a
  successful \<^verbatim>\<open>Close\<close>, the digest is to be the CRC32 of all the content in write order,
  the raw payloads and what the spliced blobs decompress to, and the trailer is to hold it.
  \<^verbatim>\<open>WriteCompressed\<close> extends the digest by as many zero bytes as the ISIZE field of the
  blob says, which is the length of its content modulo \<open>2^32\<close>. A gzip member of \<open>2^32\<close> zero
  bytes with a plain header consists of ten header bytes, a DEFLATE payload \<open>P\<close> and the
  trailer \<open>8d ef 02 d2 00 00 00 00\<close>: the CRC32 \<open>d202ef8d\<close> of its content and the ISIZE 0.
  Whatever \<open>P\<close> is, after \<^verbatim>\<open>Write\<close> of the byte \<open>A\<close> and \<^verbatim>\<open>WriteCompressed\<close> of that member
  the digest is \<open>01db7106\<close>, the size is 1, and \<^verbatim>\<open>Close\<close> returns nil and writes them as the
  trailer; the CRC32 of \<open>A\<close> followed by \<open>2^32\<close> zero bytes is \<open>a8bb6cbb\<close>.
\<close>

theorem digest_after_splice_of_4GiB_member:
  "gzip_of ([0x1f, 0x8b, 8, 0, 0, 0, 0, 0, 0, 0xff] @ P @ [0x8d, 0xef, 0x02, 0xd2, 0, 0, 0, 0])
           (replicate 4294967296 0)
   \<and> (\<exists>z1 z2 evs.
         run [OpWrite [0x41],
              OpWriteCompressed ([0x1f, 0x8b, 8, 0, 0, 0, 0, 0, 0, 0xff] @ P @
                                 [0x8d, 0xef, 0x02, 0xd2, 0, 0, 0, 0])]
             (NewGzipStreamWriter (fresh_dest [])) = Some z1
         \<and> digest z1 = 0x01db7106 \<and> size_u32 z1 = 1
         \<and> Close z1 = Some (None, z2)
         \<and> calls (w z2) = evs @ [SinkWrite Trailer [0x06, 0x71, 0xdb, 0x01, 1, 0, 0, 0]])
   \<and> ChecksumIEEE (content [Raw [0x41], Spliced
         ([0x1f, 0x8b, 8, 0, 0, 0, 0, 0, 0, 0xff] @ P @ [0x8d, 0xef, 0x02, 0xd2, 0, 0, 0, 0])
         (replicate 4294967296 0)]) = 0xa8bb6cbb
   \<and> (of_nat (length (content [Raw [0x41], Spliced
         ([0x1f, 0x8b, 8, 0, 0, 0, 0, 0, 0, 0xff] @ P @ [0x8d, 0xef, 0x02, 0xd2, 0, 0, 0, 0])
         (replicate 4294967296 0)])) :: uint32) = 1"
proof (intro conjI)
  show "gzip_of ([0x1f, 0x8b, 8, 0, 0, 0, 0, 0, 0, 0xff] @ P @ [0x8d, 0xef, 0x02, 0xd2, 0, 0, 0, 0])
           (replicate 4294967296 0)"
    by (rule gzip_of_4GiB_zeros)
  show "\<exists>z1 z2 evs.
         run [OpWrite [0x41],
              OpWriteCompressed ([0x1f, 0x8b, 8, 0, 0, 0, 0, 0, 0, 0xff] @ P @
                                 [0x8d, 0xef, 0x02, 0xd2, 0, 0, 0, 0])]
             (NewGzipStreamWriter (fresh_dest [])) = Some z1
         \<and> digest z1 = 0x01db7106 \<and> size_u32 z1 = 1
         \<and> Close z1 = Some (None, z2)
         \<and> calls (w z2) = evs @ [SinkWrite Trailer [0x06, 0x71, 0xdb, 0x01, 1, 0, 0, 0]]"
    by (rule splice_run)
  have c: "content [Raw [0x41], Spliced b (replicate 4294967296 0)]
             = [0x41] @ replicate 4294967296 0" for b
    by simp
  show "ChecksumIEEE (content [Raw [0x41], Spliced
         ([0x1f, 0x8b, 8, 0, 0, 0, 0, 0, 0, 0xff] @ P @ [0x8d, 0xef, 0x02, 0xd2, 0, 0, 0, 0])
         (replicate 4294967296 0)]) = 0xa8bb6cbb"
    by (simp only: c crc_of_A_and_4GiB_zeros)
  show "(of_nat (length (content [Raw [0x41], Spliced
         ([0x1f, 0x8b, 8, 0, 0, 0, 0, 0, 0, 0xff] @ P @ [0x8d, 0xef, 0x02, 0xd2, 0, 0, 0, 0])
         (replicate 4294967296 0)])) :: uint32) = 1"
    by (simp only: c) simp
qed

end
